(* ===== verification/Prelude.thy ===== *)
theory Prelude
  imports Complex_Main "HOL-Library.Word" "HOL-Library.Log_Nat"
begin

text \<open>
  Shared vocabulary of the development: Go's 64-bit integers (\<open>int\<close>, \<open>int64\<close> and
  \<open>time.Duration\<close> are HOL integers in the range of a signed 64-bit word, with wrap-around
  and saturation written out), Go's \<open>float64\<close> where a duration is converted to seconds,
  instants and durations of package \<open>time\<close>, and two interfaces stated as locales:
  \<open>codec\<close> (an encoder with a partial decoder) and \<open>run_invariant\<close> (a step function with an
  invariant). The collections \<open>go_int\<close> and \<open>go_bytes\<close> gather the simplification rules of
  the integer and byte models.
\<close>

named_theorems go_int \<open>ranges, wrap-around and saturation of 64-bit integers\<close>
named_theorems go_bytes \<open>values of bytes\<close>

section \<open>Signed 64-bit integers\<close>

definition min_int64 :: int where
  "min_int64 = - (2 ^ 63)"

definition max_int64 :: int where
  "max_int64 = 2 ^ 63 - 1"

definition in_int64 :: "int \<Rightarrow> bool" where
  "in_int64 x \<longleftrightarrow> min_int64 \<le> x \<and> x \<le> max_int64"

text \<open>Arithmetic on \<open>int\<close> and \<open>int64\<close> wraps around as two's complement words do.\<close>

definition wrap64 :: "int \<Rightarrow> int" where
  "wrap64 x = sint (word_of_int x :: 64 word)"

text \<open>\<open>Time.Sub\<close> saturates instead of wrapping.\<close>

definition sat64 :: "int \<Rightarrow> int" where
  "sat64 x = (if x < min_int64 then min_int64 else if x > max_int64 then max_int64 else x)"

lemma wrap64_eq: "wrap64 x = (x + 2 ^ 63) mod 2 ^ 64 - 2 ^ 63"
  unfolding wrap64_def by (subst int_word_sint) simp

lemma int64_bounds [go_int]:
  "min_int64 = -9223372036854775808" "max_int64 = 9223372036854775807"
  by (simp_all add: min_int64_def max_int64_def)

lemma in_int64_wrap64 [simp]: "in_int64 (wrap64 x)"
proof -
  have "0 \<le> (x + 2 ^ 63) mod 2 ^ 64" "(x + 2 ^ 63) mod 2 ^ 64 < (2 ^ 64 :: int)"
    by simp_all
  then show ?thesis
    by (simp add: in_int64_def wrap64_eq min_int64_def max_int64_def)
qed

lemma in_int64_sat64 [simp]: "in_int64 (sat64 x)"
  by (simp add: in_int64_def sat64_def go_int)

lemma wrap64_id [go_int]: "in_int64 x \<Longrightarrow> wrap64 x = x"
proof -
  assume "in_int64 x"
  then have "0 \<le> x + 2 ^ 63" "x + 2 ^ 63 < 2 ^ 64"
    by (simp_all add: in_int64_def go_int)
  then show ?thesis by (simp add: wrap64_eq)
qed

lemma sat64_id [go_int]: "in_int64 x \<Longrightarrow> sat64 x = x"
  by (simp add: in_int64_def sat64_def)

lemma sat64_mono: "x \<le> y \<Longrightarrow> sat64 x \<le> sat64 y"
  by (auto simp: sat64_def go_int)

lemma sat64_gt_iff: "in_int64 w \<Longrightarrow> w < max_int64 \<Longrightarrow> w < sat64 x \<longleftrightarrow> w < x"
  by (auto simp: sat64_def in_int64_def go_int)

section \<open>Instants and durations\<close>

text \<open>
  A \<open>time.Duration\<close> is an \<open>int64\<close> number of nanoseconds. An instant of \<open>time.Time\<close> is a
  number of nanoseconds since the Unix epoch, not bounded here, together with the offset in
  seconds of its location, which only formatting looks at.
\<close>

type_synonym duration = int

record Time =
  ns :: int
  zone :: int

definition ns_per_sec :: int where
  "ns_per_sec = 1000000000"

definition Second :: duration where
  "Second = 1000000000"

definition Minute :: duration where
  "Minute = 60 * Second"

definition Hour :: duration where
  "Hour = 60 * Minute"

definition Time_UTC :: "Time \<Rightarrow> Time" where
  "Time_UTC t = t\<lparr>zone := 0\<rparr>"

definition Time_Sub :: "Time \<Rightarrow> Time \<Rightarrow> duration" where
  "Time_Sub t u = sat64 (ns t - ns u)"

definition Time_Add :: "Time \<Rightarrow> duration \<Rightarrow> Time" where
  "Time_Add t d = t\<lparr>ns := ns t + d\<rparr>"

definition Time_Unix :: "Time \<Rightarrow> int" where
  "Time_Unix t = wrap64 (ns t div ns_per_sec)"

text \<open>The zero value of \<open>time.Time\<close>: January 1, year 1, 00:00:00 UTC.\<close>

definition Time_zero :: Time where
  "Time_zero = \<lparr>ns = -62135596800 * 1000000000, zone = 0\<rparr>"

lemma duration_units [simp]:
  "Second = 1000000000" "Minute = 60000000000" "Hour = 3600000000000"
  by (simp_all add: Second_def Minute_def Hour_def)

lemma in_int64_Time_Unix [simp]: "in_int64 (Time_Unix t)"
  by (simp add: Time_Unix_def)

section \<open>Seconds of a duration as a float64\<close>

text \<open>
  \<open>Duration.Seconds\<close> adds the whole seconds and the fraction as \<open>float64\<close> values; the code
  converts the sum back to \<open>int\<close>. A rational is rounded to 53 significant bits, ties to even.
\<close>

definition round_half_even :: "rat \<Rightarrow> int" where
  "round_half_even x =
     (let n = \<lfloor>x\<rfloor>; r = x - of_int n in
      if r < 1/2 then n else if r > 1/2 then n + 1 else if even n then n else n + 1)"

definition exponent2 :: "rat \<Rightarrow> int" where
  "exponent2 x =
     (if 1 \<le> x then int (floorlog 2 (nat \<lfloor>x\<rfloor>)) - 1
      else - int (floorlog 2 (nat (\<lceil>1 / x\<rceil> - 1))))"

definition pow2 :: "int \<Rightarrow> rat" where
  "pow2 e = (if 0 \<le> e then 2 ^ nat e else 1 / 2 ^ nat (- e))"

definition float64_pos :: "rat \<Rightarrow> rat" where
  "float64_pos x =
     (let e = exponent2 x in of_int (round_half_even (x * pow2 (52 - e))) * pow2 (e - 52))"

definition float64 :: "rat \<Rightarrow> rat" where
  "float64 x = (if x = 0 then 0 else if x < 0 then - float64_pos (- x) else float64_pos x)"

text \<open>Go's integer division truncates towards zero.\<close>

definition quot64 :: "int \<Rightarrow> int \<Rightarrow> int" where
  "quot64 a b = sgn a * sgn b * (\<bar>a\<bar> div \<bar>b\<bar>)"

definition rem64 :: "int \<Rightarrow> int \<Rightarrow> int" where
  "rem64 a b = a - b * quot64 a b"

definition Duration_Seconds :: "duration \<Rightarrow> rat" where
  "Duration_Seconds d =
     float64 (float64 (of_int (quot64 d Second)) + float64 (of_int (rem64 d Second) / 1000000000))"

text \<open>The conversion \<open>int(x)\<close> of a \<open>float64\<close> drops the fraction.\<close>

definition int_of_float :: "rat \<Rightarrow> int" where
  "int_of_float x = (if x < 0 then \<lceil>x\<rceil> else \<lfloor>x\<rfloor>)"

lemma round_half_even_ge: "of_int m \<le> x \<Longrightarrow> m \<le> round_half_even x"
proof -
  assume "of_int m \<le> x"
  then have "m \<le> \<lfloor>x\<rfloor>" by (simp add: le_floor_iff)
  then show ?thesis by (auto simp: round_half_even_def Let_def)
qed

lemma round_half_even_le:
  assumes "x \<le> of_int m"
  shows "round_half_even x \<le> m"
proof (cases "\<lfloor>x\<rfloor> = m")
  case True
  with assms have "x = of_int m" by linarith
  then show ?thesis by (simp add: round_half_even_def)
next
  case False
  with assms have "\<lfloor>x\<rfloor> < m" by linarith
  then show ?thesis by (auto simp: round_half_even_def Let_def)
qed

lemma pow2_inverse: "pow2 e * pow2 (- e) = 1"
  by (auto simp: pow2_def)

lemma pow2_pos [simp]: "0 < pow2 e"
  by (auto simp: pow2_def)

lemma pow2_of_int: "0 \<le> e \<Longrightarrow> pow2 e = of_int (2 ^ nat e)"
  by (simp add: pow2_def)

lemma exponent2_le:
  assumes "x < 2 ^ 53"
  shows "exponent2 x \<le> 52"
proof (cases "1 \<le> x")
  case True
  have "\<lfloor>x\<rfloor> < 2 ^ 53" using assms by (simp add: floor_less_iff)
  then have "nat \<lfloor>x\<rfloor> < nat (2 ^ 53)" using True by (subst nat_less_eq_zless) (simp_all del: floor_less_numeral)
  then have "nat \<lfloor>x\<rfloor> < 2 ^ 53" by simp
  then have "floorlog 2 (nat \<lfloor>x\<rfloor>) \<le> 53" by (intro floorlog_leI) simp_all
  then show ?thesis using True by (simp add: exponent2_def)
qed (simp add: exponent2_def)

text \<open>Rounding does not cross an integer that fits in the significand.\<close>

lemma float64_pos_int_bounds:
  assumes "x < 2 ^ 53"
  shows "of_int n \<le> x \<Longrightarrow> of_int n \<le> float64_pos x"
    and "x \<le> of_int n \<Longrightarrow> float64_pos x \<le> of_int n"
proof -
  let ?k = "52 - exponent2 x"
  have k: "0 \<le> ?k" using exponent2_le [OF assms] by simp
  have "pow2 ?k * pow2 (- ?k) = 1" by (rule pow2_inverse)
  then have inv: "a * pow2 ?k * pow2 (exponent2 x - 52) = a" for a
    by (simp add: mult.assoc)
  have scaled: "of_int (n * 2 ^ nat ?k) = of_int n * pow2 ?k"
    using k by (simp add: pow2_of_int)
  have unfold: "float64_pos x = of_int (round_half_even (x * pow2 ?k)) * pow2 (exponent2 x - 52)"
    by (simp add: float64_pos_def Let_def)
  show "of_int n \<le> float64_pos x" if "of_int n \<le> x"
  proof -
    have "of_int (n * 2 ^ nat ?k) \<le> x * pow2 ?k"
      unfolding scaled using that by (simp add: less_imp_le)
    then have "of_int (n * 2 ^ nat ?k) \<le> (of_int (round_half_even (x * pow2 ?k)) :: rat)"
      unfolding of_int_le_iff by (rule round_half_even_ge)
    then have "of_int n * pow2 ?k * pow2 (exponent2 x - 52) \<le> float64_pos x"
      unfolding unfold scaled by (intro mult_right_mono) (simp_all add: less_imp_le)
    then show ?thesis by (simp only: inv)
  qed
  show "float64_pos x \<le> of_int n" if "x \<le> of_int n"
  proof -
    have "x * pow2 ?k \<le> of_int (n * 2 ^ nat ?k)"
      unfolding scaled using that by (simp add: less_imp_le)
    then have "(of_int (round_half_even (x * pow2 ?k)) :: rat) \<le> of_int (n * 2 ^ nat ?k)"
      unfolding of_int_le_iff by (rule round_half_even_le)
    then have "float64_pos x \<le> of_int n * pow2 ?k * pow2 (exponent2 x - 52)"
      unfolding unfold scaled by (intro mult_right_mono) (simp_all add: less_imp_le)
    then show ?thesis by (simp only: inv)
  qed
qed

lemma float64_int_bounds:
  assumes "0 \<le> x" and "x < 2 ^ 53"
  shows "of_int n \<le> x \<Longrightarrow> of_int n \<le> float64 x"
    and "x \<le> of_int n \<Longrightarrow> float64 x \<le> of_int n"
  using assms float64_pos_int_bounds [of x n] by (auto simp: float64_def)

lemma float64_of_int: "0 \<le> n \<Longrightarrow> n < 2 ^ 53 \<Longrightarrow> float64 (of_int n) = of_int n"
proof (rule antisym)
  assume n: "0 \<le> n" "n < 2 ^ 53"
  then have "(of_int n :: rat) < of_int (2 ^ 53)" by (simp only: of_int_less_iff)
  then have "(of_int n :: rat) < 2 ^ 53" by simp
  with n(1) show "float64 (of_int n) \<le> of_int n" "of_int n \<le> float64 (of_int n)"
    using float64_int_bounds [of "of_int n" n] by simp_all
qed

text \<open>
  Converting a non-negative duration to whole seconds is off by at most one from the exact
  quotient, and never below it.
\<close>

lemma int_Duration_Seconds_bounds:
  assumes "0 \<le> d" and "d \<le> max_int64"
  shows "d div 1000000000 \<le> int_of_float (Duration_Seconds d)"
    and "int_of_float (Duration_Seconds d) \<le> d div 1000000000 + 1"
proof -
  let ?s = "d div 1000000000" and ?f = "d mod 1000000000"
  have quot: "quot64 d Second = ?s"
    using assms(1) by (cases "d = 0") (simp_all add: quot64_def)
  have rem: "rem64 d Second = ?f"
    unfolding rem64_def quot by (simp add: minus_mult_div_eq_mod)
  have s: "0 \<le> ?s" "?s \<le> 9223372036" using assms by (auto simp: go_int)
  have f: "0 \<le> ?f" "?f < 1000000000" by simp_all
  define x :: rat where "x = of_int ?f / 1000000000"
  have "(of_int ?f :: rat) < of_int 1000000000" using f(2) by (simp only: of_int_less_iff)
  then have x: "0 \<le> x" "x \<le> 1" "x < 2 ^ 53" using f(1) by (simp_all add: x_def)
  have fx: "0 \<le> float64 x" "float64 x \<le> 1"
    using float64_int_bounds [of x 0] float64_int_bounds [of x 1] x by simp_all
  have "(of_int ?s :: rat) \<le> of_int 9223372036" using s(2) by (simp only: of_int_le_iff)
  then have sr: "0 \<le> (of_int ?s :: rat)" "(of_int ?s :: rat) \<le> 9223372036" using s(1) by simp_all
  define y where "y = of_int ?s + float64 x"
  have y: "0 \<le> y" "y < 2 ^ 53" "of_int ?s \<le> y" "y \<le> of_int (?s + 1)"
    using fx sr by (simp_all add: y_def)
  have D: "Duration_Seconds d = float64 y"
    unfolding Duration_Seconds_def quot rem y_def x_def
    using s by (subst float64_of_int) simp_all
  have b: "of_int ?s \<le> float64 y" "float64 y \<le> of_int (?s + 1)"
    by (rule float64_int_bounds [OF y(1,2)], rule y(3))
      (rule float64_int_bounds [OF y(1,2)], rule y(4))
  have "0 \<le> float64 y" using b(1) sr(1) by linarith
  then have "int_of_float (Duration_Seconds d) = \<lfloor>float64 y\<rfloor>"
    by (simp add: D int_of_float_def)
  moreover have "?s \<le> \<lfloor>float64 y\<rfloor>" using b(1) by (subst le_floor_iff)
  moreover have "\<lfloor>float64 y\<rfloor> \<le> ?s + 1" using floor_mono [OF b(2)] by (simp only: floor_of_int)
  ultimately show "?s \<le> int_of_float (Duration_Seconds d)"
    "int_of_float (Duration_Seconds d) \<le> ?s + 1"
    by (simp_all only:)
qed

section \<open>Interfaces\<close>

text \<open>
  An encoder with a partial decoder: decoding what was encoded gives it back, on the values
  in the encoder's domain.
\<close>

locale codec =
  fixes encode :: "'a \<Rightarrow> 'b"
    and decode :: "'b \<Rightarrow> 'a option"
    and dom :: "'a \<Rightarrow> bool"
  assumes decode_encode: "dom x \<Longrightarrow> decode (encode x) = Some x"
begin

lemma encode_inject: "dom x \<Longrightarrow> dom y \<Longrightarrow> encode x = encode y \<longleftrightarrow> x = y"
  by (metis decode_encode option.inject)

end

text \<open>
  A component whose state changes by steps. What every step preserves holds after any run.
\<close>

primrec run_steps :: "('e \<Rightarrow> 's \<Rightarrow> 's) \<Rightarrow> 'e list \<Rightarrow> 's \<Rightarrow> 's" where
  "run_steps step [] s = s"
| "run_steps step (e # es) s = run_steps step es (step e s)"

locale run_invariant =
  fixes step :: "'e \<Rightarrow> 's \<Rightarrow> 's"
    and inv :: "'s \<Rightarrow> bool"
  assumes inv_step: "inv s \<Longrightarrow> inv (step e s)"
begin

lemma inv_run: "inv s \<Longrightarrow> inv (run_steps step es s)"
  by (induction es arbitrary: s) (simp_all add: inv_step)

end

lemma run_steps_append: "run_steps step (es @ fs) s = run_steps step fs (run_steps step es s)"
  by (induction es arbitrary: s) simp_all

section \<open>Refinement of a specification\<close>

text \<open>
  A component whose operations take a call and give a reply, and a specification of it as a relation
  on abstract states. The interface: under an invariant, which every call keeps, a call is a step of the
  specification on the abstraction of the state. Then so is every sequence of calls.
\<close>

primrec run_calls :: "('c \<Rightarrow> 's \<Rightarrow> 'r \<times> 's) \<Rightarrow> 'c list \<Rightarrow> 's \<Rightarrow> 'r list \<times> 's" where
  "run_calls step [] s = ([], s)"
| "run_calls step (c # cs) s =
     (let (r, s1) = step c s; (rs, s2) = run_calls step cs s1 in (r # rs, s2))"

inductive spec_run :: "('m \<Rightarrow> 'c \<Rightarrow> 'r \<Rightarrow> 'm \<Rightarrow> bool) \<Rightarrow> 'm \<Rightarrow> 'c list \<Rightarrow> 'r list \<Rightarrow> 'm \<Rightarrow> bool" for spec where
  spec_Nil: "spec_run spec m [] [] m"
| spec_Cons: "spec m c r m1 \<Longrightarrow> spec_run spec m1 cs rs m2 \<Longrightarrow> spec_run spec m (c # cs) (r # rs) m2"

locale refinement =
  fixes step :: "'c \<Rightarrow> 's \<Rightarrow> 'r \<times> 's"
    and spec :: "'m \<Rightarrow> 'c \<Rightarrow> 'r \<Rightarrow> 'm \<Rightarrow> bool"
    and abst :: "'s \<Rightarrow> 'm"
    and inv :: "'s \<Rightarrow> bool"
    and ok :: "'c \<Rightarrow> bool"
  assumes step_inv: "inv s \<Longrightarrow> ok c \<Longrightarrow> step c s = (r, s') \<Longrightarrow> inv s'"
    and step_spec: "inv s \<Longrightarrow> ok c \<Longrightarrow> step c s = (r, s') \<Longrightarrow> spec (abst s) c r (abst s')"
begin

lemma run_refines:
  "inv s \<Longrightarrow> list_all ok cs \<Longrightarrow> run_calls step cs s = (rs, s') \<Longrightarrow> spec_run spec (abst s) cs rs (abst s') \<and> inv s'"
proof (induction cs arbitrary: s rs)
  case Nil
  then show ?case by (simp add: spec_run.spec_Nil)
next
  case (Cons c cs)
  obtain r s1 where c: "step c s = (r, s1)" by fastforce
  obtain rs1 s2 where cs: "run_calls step cs s1 = (rs1, s2)" by fastforce
  have eqs: "rs = r # rs1" "s' = s2" using Cons.prems(3) c cs by simp_all
  have "inv s1" using step_inv [OF Cons.prems(1) _ c] Cons.prems(2) by simp
  then have "spec_run spec (abst s1) cs rs1 (abst s2) \<and> inv s2" using Cons.IH Cons.prems(2) cs eqs by simp
  then show ?case using step_spec [OF Cons.prems(1) _ c] Cons.prems(2) eqs by (simp add: spec_run.spec_Cons)
qed

end

end
