(* ===== verification/Go_Strings.thy ===== *)
theory Go_Strings
  imports Prelude
begin

text \<open>
  What the program uses of packages \<open>strings\<close>, \<open>strconv\<close> and \<open>unicode/utf8\<close>. A Go string is
  a sequence of bytes, here a \<open>string\<close> whose characters are the bytes; \<open>len(s)\<close> is
  \<open>length s\<close>. The lemmas show that splitting and joining are inverse, and that printing an
  integer and parsing it back gives it again.
\<close>

section \<open>Bytes\<close>

abbreviation byte_val :: "char \<Rightarrow> nat" where
  "byte_val c \<equiv> of_char c"

abbreviation byte_of :: "nat \<Rightarrow> char" where
  "byte_of n \<equiv> char_of n"

lemma byte_val_less [simp, go_bytes]: "byte_val c < 256"
proof -
  have "byte_val c = byte_val c mod 256" by (metis of_char_mod_256)
  then show ?thesis by (metis mod_less_divisor zero_less_numeral)
qed

lemma byte_val_byte_of [go_bytes]: "n < 256 \<Longrightarrow> byte_val (byte_of n) = n"
  by (simp add: of_char_of)

lemma byte_val_inject [simp]: "byte_val c = byte_val d \<longleftrightarrow> c = d"
  by (rule inj_eq) (rule inj_of_char)

section \<open>Splitting and joining\<close>

text \<open>\<open>strings.Split\<close> and \<open>strings.SplitN\<close> with a separator of one byte.\<close>

fun Split :: "char \<Rightarrow> string \<Rightarrow> string list" where
  "Split c [] = [[]]"
| "Split c (x # xs) =
     (if x = c then [] # Split c xs
      else case Split c xs of [] \<Rightarrow> [[x]] | p # ps \<Rightarrow> (x # p) # ps)"

fun SplitN :: "char \<Rightarrow> nat \<Rightarrow> string \<Rightarrow> string list" where
  "SplitN c 0 s = []"
| "SplitN c (Suc 0) s = [s]"
| "SplitN c (Suc (Suc n)) s =
     (case dropWhile (\<lambda>x. x \<noteq> c) s of
        [] \<Rightarrow> [s]
      | _ # r \<Rightarrow> takeWhile (\<lambda>x. x \<noteq> c) s # SplitN c (Suc n) r)"

fun Join :: "string \<Rightarrow> string list \<Rightarrow> string" where
  "Join sep [] = []"
| "Join sep [s] = s"
| "Join sep (s # t # ts) = s @ sep @ Join sep (t # ts)"

lemma Split_nonempty [simp]: "Split c s \<noteq> []"
  by (induction s) (auto split: list.splits)

lemma Join_Split: "Join [c] (Split c s) = s"
proof (induction s)
  case (Cons x xs)
  then obtain p ps where "Split c xs = p # ps" by (meson Split_nonempty neq_Nil_conv)
  then show ?case using Cons by (cases ps) auto
qed simp

lemma Split_parts: "p \<in> set (Split c s) \<Longrightarrow> c \<notin> set p"
  by (induction s arbitrary: p) (auto split: list.splits if_splits)

lemma Split_no_sep: "c \<notin> set s \<Longrightarrow> Split c s = [s]"
  by (induction s) auto

lemma Split_append_sep: "c \<notin> set p \<Longrightarrow> Split c (p @ c # s) = p # Split c s"
  by (induction p) auto

lemma Split_Join: "ps \<noteq> [] \<Longrightarrow> \<forall>p \<in> set ps. c \<notin> set p \<Longrightarrow> Split c (Join [c] ps) = ps"
  by (induction "[c]" ps rule: Join.induct) (auto simp: Split_no_sep Split_append_sep)

lemma length_Split: "length (Split c s) = Suc (count_list s c)"
  by (induction s) (auto split: list.splits)

lemma SplitN_2: "SplitN c 2 s =
  (if c \<in> set s then [takeWhile (\<lambda>x. x \<noteq> c) s, tl (dropWhile (\<lambda>x. x \<noteq> c) s)] else [s])"
proof (cases "dropWhile (\<lambda>x. x \<noteq> c) s")
  case Nil
  then have "c \<notin> set s" by (auto simp: dropWhile_eq_Nil_conv)
  then show ?thesis using Nil by (simp add: numeral_2_eq_2 del: dropWhile_eq_Nil_conv)
next
  case (Cons y ys)
  then have "c = y" using hd_dropWhile [of "\<lambda>x. x \<noteq> c" s] by simp
  with Cons have "c \<in> set s" by (metis list.set_intros(1) set_dropWhileD)
  then show ?thesis using Cons by (simp add: numeral_2_eq_2)
qed

lemma SplitN_append: "c \<notin> set p \<Longrightarrow> SplitN c (Suc (Suc n)) (p @ c # s) = p # SplitN c (Suc n) s"
proof -
  assume "c \<notin> set p"
  then have "dropWhile (\<lambda>x. x \<noteq> c) (p @ c # s) = c # s" "takeWhile (\<lambda>x. x \<noteq> c) (p @ c # s) = p"
    by (induction p) auto
  then show ?thesis by simp
qed

lemma SplitN_no_sep: "c \<notin> set s \<Longrightarrow> SplitN c (Suc n) s = [s]"
proof (cases n)
  case (Suc m)
  assume "c \<notin> set s"
  then have "dropWhile (\<lambda>x. x \<noteq> c) s = []" by (induction s) auto
  with Suc show ?thesis by (simp del: dropWhile_eq_Nil_conv)
qed simp

section \<open>Letter case\<close>

text \<open>
  \<open>strings.ToLower\<close>, as far as a comparison of its result with an ASCII constant can tell: A to
  Z are mapped to a to z, and the two runes outside ASCII whose lower case is an ASCII letter,
  U+212A (Kelvin sign) and U+0130, to k and i. Every other rune outside ASCII stays outside
  ASCII; it is left as it is here.
\<close>

definition byte_lower :: "char \<Rightarrow> char" where
  "byte_lower c = (if 65 \<le> byte_val c \<and> byte_val c \<le> 90 then byte_of (byte_val c + 32) else c)"

definition byte_upper :: "char \<Rightarrow> char" where
  "byte_upper c = (if 97 \<le> byte_val c \<and> byte_val c \<le> 122 then byte_of (byte_val c - 32) else c)"

fun ToLower :: "string \<Rightarrow> string" where
  "ToLower [] = []"
| "ToLower (c # cs) =
     (if c = CHR 0xE2 \<and> take 2 cs = [CHR 0x84, CHR 0xAA] then CHR ''k'' # ToLower (drop 2 cs)
      else if c = CHR 0xC4 \<and> take 1 cs = [CHR 0xB0] then CHR ''i'' # ToLower (drop 1 cs)
      else byte_lower c # ToLower cs)"

text \<open>
  \<open>strings.EqualFold\<close> against a constant whose letters have no fold partner outside ASCII
  (those are k and s only).
\<close>

definition EqualFold_ascii :: "string \<Rightarrow> string \<Rightarrow> bool" where
  "EqualFold_ascii s t \<longleftrightarrow> map byte_lower s = map byte_lower t"

section \<open>White space\<close>

text \<open>\<open>strings.TrimSpace\<close> trims every rune \<open>unicode.IsSpace\<close> accepts, in its UTF-8 form.\<close>

definition ascii_space :: "char \<Rightarrow> bool" where
  "ascii_space c \<longleftrightarrow> byte_val c = 32 \<or> 9 \<le> byte_val c \<and> byte_val c \<le> 13"

definition spaces2 :: "string list" where
  "spaces2 = [[CHR 0xC2, CHR 0x85], [CHR 0xC2, CHR 0xA0]]"

definition spaces3 :: "string list" where
  "spaces3 =
     [[CHR 0xE1, CHR 0x9A, CHR 0x80], [CHR 0xE2, CHR 0x80, CHR 0xA8], [CHR 0xE2, CHR 0x80, CHR 0xA9],
      [CHR 0xE2, CHR 0x80, CHR 0xAF], [CHR 0xE2, CHR 0x81, CHR 0x9F], [CHR 0xE3, CHR 0x80, CHR 0x80]]
     @ map (\<lambda>i. [CHR 0xE2, CHR 0x80, byte_of (128 + i)]) [0..<11]"

fun trim_front :: "string list \<Rightarrow> string list \<Rightarrow> string \<Rightarrow> string" where
  "trim_front sp2 sp3 [] = []"
| "trim_front sp2 sp3 (c # cs) =
     (if ascii_space c then trim_front sp2 sp3 cs
      else if take 2 (c # cs) \<in> set sp2 then trim_front sp2 sp3 (drop 1 cs)
      else if take 3 (c # cs) \<in> set sp3 then trim_front sp2 sp3 (drop 2 cs)
      else c # cs)"

definition TrimSpace :: "string \<Rightarrow> string" where
  "TrimSpace s =
     rev (trim_front (map rev spaces2) (map rev spaces3) (rev (trim_front spaces2 spaces3 s)))"

section \<open>UTF-8\<close>

text \<open>
  The number of bytes of the rune that \<open>utf8.DecodeRune\<close> finds at the front of a non-empty
  string, 0 where it reports an encoding error (and the program's decoders skip one byte).
\<close>

definition cont_byte :: "nat \<Rightarrow> nat \<Rightarrow> char \<Rightarrow> bool" where
  "cont_byte lo hi c \<longleftrightarrow> lo \<le> byte_val c \<and> byte_val c \<le> hi"

definition rune_class :: "nat \<Rightarrow> nat \<times> nat \<times> nat" where
  "rune_class b =
     (if b < 128 then (1, 0, 0)
      else if 194 \<le> b \<and> b \<le> 223 then (2, 128, 191)
      else if b = 224 then (3, 160, 191)
      else if b = 237 then (3, 128, 159)
      else if 225 \<le> b \<and> b \<le> 239 then (3, 128, 191)
      else if b = 240 then (4, 144, 191)
      else if 241 \<le> b \<and> b \<le> 243 then (4, 128, 191)
      else if b = 244 then (4, 128, 143)
      else (0, 0, 0))"

fun rune_len :: "string \<Rightarrow> nat" where
  "rune_len [] = 0"
| "rune_len (c # cs) =
     (let (n, lo, hi) = rune_class (byte_val c) in
      if n \<le> 1 then n
      else if n - 1 \<le> length cs \<and> cont_byte lo hi (cs ! 0)
        \<and> list_all (cont_byte 128 191) (take (n - 2) (drop 1 cs)) then n
      else 0)"

lemma rune_len_le: "rune_len s \<le> length s"
  by (cases s) (auto split: prod.splits)

lemma rune_len_append: "0 < rune_len s \<Longrightarrow> rune_len (s @ t) = rune_len s"
  by (cases s) (auto simp: nth_append split: prod.splits if_splits)

lemma rune_len_take: "rune_len (c # take (rune_len (c # cs) - 1) cs) = rune_len (c # cs)"
proof -
  obtain n lo hi where n: "rune_class (byte_val c) = (n, lo, hi)" by (metis prod_cases3)
  show ?thesis
    by (auto simp: n nth_take drop_take min_def)
qed

lemma rune_len_ascii [simp]: "byte_val c < 128 \<Longrightarrow> rune_len (c # cs) = 1"
  by (simp add: rune_class_def)

declare rune_len.simps(2) [simp del]

function valid_utf8 :: "string \<Rightarrow> bool" where
  "valid_utf8 s =
     (if s = [] then True else if rune_len s = 0 then False
      else valid_utf8 (drop (rune_len s) s))"
  by pat_completeness auto
termination
  by (relation "measure length") auto

declare valid_utf8.simps [simp del]

lemma valid_utf8_Nil [simp]: "valid_utf8 []"
  by (simp add: valid_utf8.simps)

lemma valid_utf8_ascii_Cons [simp]: "byte_val c < 128 \<Longrightarrow> valid_utf8 (c # s) = valid_utf8 s"
  by (subst valid_utf8.simps) simp

lemma valid_utf8_ascii: "\<forall>c \<in> set s. byte_val c < 128 \<Longrightarrow> valid_utf8 s"
  by (induction s) simp_all

text \<open>The bytes of a code point, as \<open>utf8.EncodeRune\<close> writes them.\<close>

definition EncodeRune :: "nat \<Rightarrow> string" where
  "EncodeRune r =
     (if r < 128 then [byte_of r]
      else if r < 2048 then [byte_of (192 + r div 64), byte_of (128 + r mod 64)]
      else if r < 65536 then
        [byte_of (224 + r div 4096), byte_of (128 + r div 64 mod 64), byte_of (128 + r mod 64)]
      else [byte_of (240 + r div 262144), byte_of (128 + r div 4096 mod 64),
            byte_of (128 + r div 64 mod 64), byte_of (128 + r mod 64)])"

text \<open>The replacement character U+FFFD.\<close>

definition rune_error :: string where
  "rune_error = [CHR 0xEF, CHR 0xBF, CHR 0xBD]"

section \<open>Decimal numbers\<close>

definition digit_char :: "nat \<Rightarrow> char" where
  "digit_char d = byte_of (48 + d)"

definition is_digit :: "char \<Rightarrow> bool" where
  "is_digit c \<longleftrightarrow> 48 \<le> byte_val c \<and> byte_val c \<le> 57"

definition digit_val :: "char \<Rightarrow> nat" where
  "digit_val c = byte_val c - 48"

fun show_nat :: "nat \<Rightarrow> string" where
  "show_nat n = (if n < 10 then [digit_char n] else show_nat (n div 10) @ [digit_char (n mod 10)])"

declare show_nat.simps [simp del]

definition Itoa :: "int \<Rightarrow> string" where
  "Itoa n = (if n < 0 then CHR ''-'' # show_nat (nat (- n)) else show_nat (nat n))"

datatype num_error = ErrSyntax | ErrRange

text \<open>
  The loop of \<open>strconv.ParseUint\<close> in base 10 with 64 bits: an overflow ends it before the rest
  of the string is looked at.
\<close>

fun parse_uint :: "nat \<Rightarrow> string \<Rightarrow> num_error + nat" where
  "parse_uint n [] = Inr n"
| "parse_uint n (c # cs) =
     (if \<not> is_digit c then Inl ErrSyntax
      else if 10 * n + digit_val c \<ge> 2 ^ 64 then Inl ErrRange
      else parse_uint (10 * n + digit_val c) cs)"

definition ParseUint :: "string \<Rightarrow> num_error + nat" where
  "ParseUint s = (if s = [] then Inl ErrSyntax else parse_uint 0 s)"

text \<open>
  \<open>strconv.Atoi\<close> and \<open>strconv.ParseInt\<close> with base 10 and 64 bits: the value and the error.
  Both are returned, since callers that drop the error still use the value.
\<close>

definition Atoi :: "string \<Rightarrow> int \<times> num_error option" where
  "Atoi s =
     (let neg = (case s of c # _ \<Rightarrow> c = CHR ''-'' | [] \<Rightarrow> False);
          ds = (case s of c # cs \<Rightarrow> if c = CHR ''-'' \<or> c = CHR ''+'' then cs else s | [] \<Rightarrow> s)
      in case ParseUint ds of
           Inl ErrSyntax \<Rightarrow> (0, Some ErrSyntax)
         | Inl ErrRange \<Rightarrow> (if neg then min_int64 else max_int64, Some ErrRange)
         | Inr n \<Rightarrow>
             if \<not> neg \<and> n \<ge> 2 ^ 63 then (max_int64, Some ErrRange)
             else if neg \<and> n > 2 ^ 63 then (min_int64, Some ErrRange)
             else (if neg then - int n else int n, None))"

lemma digit_char_props [simp]:
  assumes "d < 10"
  shows "byte_val (digit_char d) = 48 + d" "is_digit (digit_char d)" "digit_val (digit_char d) = d"
  using assms by (simp_all add: digit_char_def is_digit_def digit_val_def byte_val_byte_of)

lemma show_nat_digits: "c \<in> set (show_nat n) \<Longrightarrow> is_digit c"
  by (induction n rule: show_nat.induct) (subst (asm) (2) show_nat.simps, auto split: if_splits)

lemma show_nat_nonempty [simp]: "show_nat n \<noteq> []"
  by (subst show_nat.simps) simp

lemma parse_uint_append:
  "parse_uint n s = Inr m \<Longrightarrow> parse_uint n (s @ t) = parse_uint m t"
  by (induction n s rule: parse_uint.induct) (auto split: if_splits)

lemma parse_uint_show_nat: "n < 2 ^ 64 \<Longrightarrow> parse_uint 0 (show_nat n) = Inr n"
proof (induction n rule: show_nat.induct)
  case (1 n)
  show ?case
  proof (cases "n < 10")
    case True
    then show ?thesis by (simp add: show_nat.simps [of n])
  next
    case False
    with 1 have "parse_uint 0 (show_nat (n div 10)) = Inr (n div 10)" by simp
    from parse_uint_append [OF this] False 1(2) show ?thesis
      by (simp add: show_nat.simps [of n])
  qed
qed

text \<open>A character that is no digit is neither a sign nor part of a printed number.\<close>

lemma hd_show_nat: "is_digit (hd (show_nat n))"
  by (rule show_nat_digits [of _ n]) simp

lemma not_digit_sign [simp]: "\<not> is_digit CHR ''-''" "\<not> is_digit CHR ''+''"
  by (simp_all add: is_digit_def)

lemma Atoi_Itoa: "in_int64 n \<Longrightarrow> Atoi (Itoa n) = (n, None)"
proof (cases "n < 0")
  case True
  assume n: "in_int64 n"
  with True have "nat (- n) < 2 ^ 64" "nat (- n) \<le> 2 ^ 63" by (simp_all add: in_int64_def go_int)
  with True show ?thesis
    by (simp add: Itoa_def Atoi_def Let_def ParseUint_def parse_uint_show_nat)
next
  case False
  assume n: "in_int64 n"
  obtain c cs where s: "show_nat (nat n) = c # cs" by (meson show_nat_nonempty neq_Nil_conv)
  then have c: "is_digit c" using hd_show_nat [of "nat n"] by simp
  then have "c \<noteq> CHR ''-''" "c \<noteq> CHR ''+''" by auto
  moreover have "nat n < 2 ^ 64" "nat n < 2 ^ 63" using n False by (simp_all add: in_int64_def go_int)
  ultimately show ?thesis
    using False parse_uint_show_nat [of "nat n"] s
    by (simp add: Itoa_def Atoi_def Let_def ParseUint_def)
qed

lemma in_int64_Atoi: "in_int64 (fst (Atoi s))"
  unfolding Atoi_def Let_def
  by (auto simp: in_int64_def go_int split: sum.splits num_error.splits)

interpretation itoa: codec Itoa "\<lambda>s. if snd (Atoi s) = None then Some (fst (Atoi s)) else None" in_int64
  by unfold_locales (simp add: Atoi_Itoa)

end
