(* ===== verification/Base64url.thy ===== *)
theory Base64url
  imports Go_Strings
begin

text \<open>
  What the program uses of package \<open>encoding/base64\<close>: \<open>RawURLEncoding.EncodeToString\<close> (the
  URL alphabet, no padding) and \<open>URLEncoding.DecodeString\<close> (the URL alphabet with padding,
  not strict: carriage returns and line feeds are skipped and the unused low bits of the last
  character are ignored). The main lemma is the round trip through both.
\<close>

definition b64_alphabet :: string where
  "b64_alphabet = ''ABCDEFGHIJKLMNOPQRSTUVWXYZabcdefghijklmnopqrstuvwxyz0123456789-_''"

definition b64_char :: "nat \<Rightarrow> char" where
  "b64_char i = b64_alphabet ! i"

definition b64_val :: "char \<Rightarrow> nat option" where
  "b64_val c = List.find (\<lambda>i. b64_alphabet ! i = c) [0..<64]"

fun RawURLEncode :: "string \<Rightarrow> string" where
  "RawURLEncode [] = []"
| "RawURLEncode [a] = [b64_char (byte_val a div 4), b64_char (byte_val a mod 4 * 16)]"
| "RawURLEncode [a, b] =
     [b64_char (byte_val a div 4), b64_char (byte_val a mod 4 * 16 + byte_val b div 16),
      b64_char (byte_val b mod 16 * 4)]"
| "RawURLEncode (a # b # c # r) =
     [b64_char (byte_val a div 4), b64_char (byte_val a mod 4 * 16 + byte_val b div 16),
      b64_char (byte_val b mod 16 * 4 + byte_val c div 64), b64_char (byte_val c mod 64)]
     @ RawURLEncode r"

definition byte1 :: "nat \<Rightarrow> nat \<Rightarrow> char" where
  "byte1 v0 v1 = byte_of (v0 * 4 + v1 div 16)"

definition byte2 :: "nat \<Rightarrow> nat \<Rightarrow> char" where
  "byte2 v1 v2 = byte_of (v1 mod 16 * 16 + v2 div 4)"

definition byte3 :: "nat \<Rightarrow> nat \<Rightarrow> char" where
  "byte3 v2 v3 = byte_of (v2 mod 4 * 64 + v3)"

text \<open>
  Four characters at a time; padding ends the input, and anything after it is an error, as is
  a group that is not complete.
\<close>

fun decode_quanta :: "string \<Rightarrow> string option" where
  "decode_quanta [] = Some []"
| "decode_quanta (a # b # c # d # r) =
     (case (b64_val a, b64_val b) of
        (Some v0, Some v1) \<Rightarrow>
          (case b64_val c of
             Some v2 \<Rightarrow>
               (case b64_val d of
                  Some v3 \<Rightarrow>
                    (case decode_quanta r of
                       None \<Rightarrow> None
                     | Some bs \<Rightarrow> Some (byte1 v0 v1 # byte2 v1 v2 # byte3 v2 v3 # bs))
                | None \<Rightarrow>
                    if d = CHR ''='' \<and> r = [] then Some [byte1 v0 v1, byte2 v1 v2] else None)
           | None \<Rightarrow>
               if c = CHR ''='' \<and> d = CHR ''='' \<and> r = [] then Some [byte1 v0 v1] else None)
      | _ \<Rightarrow> None)"
| "decode_quanta _ = None"

definition URLDecodeString :: "string \<Rightarrow> string option" where
  "URLDecodeString s = decode_quanta (filter (\<lambda>c. byte_val c \<noteq> 10 \<and> byte_val c \<noteq> 13) s)"

definition b64_pad :: "nat \<Rightarrow> string" where
  "b64_pad n = (if n mod 4 = 2 then ''=='' else if n mod 4 = 3 then ''='' else '''')"

lemma b64_val_all: "list_all (\<lambda>i. b64_val (b64_alphabet ! i) = Some i) [0..<64]"
  by code_simp

lemma b64_val_char [simp]: "i < 64 \<Longrightarrow> b64_val (b64_char i) = Some i"
  using b64_val_all by (simp add: list_all_iff b64_char_def)

lemma b64_val_pad [simp]: "b64_val CHR ''='' = None"
  by code_simp

lemma b64_char_no_newline: "i < 64 \<Longrightarrow> byte_val (b64_char i) \<noteq> 10 \<and> byte_val (b64_char i) \<noteq> 13"
proof -
  have "list_all (\<lambda>i. byte_val (b64_alphabet ! i) \<noteq> 10 \<and> byte_val (b64_alphabet ! i) \<noteq> 13) [0..<64]"
    by code_simp
  then show "i < 64 \<Longrightarrow> ?thesis" by (simp add: list_all_iff b64_char_def)
qed

lemma radix_div [simp]: "y < n \<Longrightarrow> (x * n + y) div n = (x :: nat)"
  by (simp add: div_mult_self3)

lemma radix_mod [simp]: "y < n \<Longrightarrow> (x * n + y) mod n = (y :: nat)"
  by simp

text \<open>The six-bit groups are in range, and reading them back gives the bytes.\<close>

lemma group_less [simp]:
  fixes a b :: char
  shows "byte_val a div 4 < 64" "byte_val a mod 4 * 16 < 64" "byte_val a mod 16 * 4 < 64"
    and "byte_val a mod 4 * 16 + byte_val b div 16 < 64"
    and "byte_val a mod 16 * 4 + byte_val b div 64 < 64"
proof -
  have d: "byte_val b div 16 < 16" "byte_val b div 64 < 4"
    by (auto intro: less_mult_imp_div_less)
  have m: "byte_val a mod 4 < 4" "byte_val a mod 16 < 16" by simp_all
  show "byte_val a div 4 < 64" by (auto intro: less_mult_imp_div_less)
  show "byte_val a mod 4 * 16 < 64" "byte_val a mod 16 * 4 < 64"
    "byte_val a mod 4 * 16 + byte_val b div 16 < 64" "byte_val a mod 16 * 4 + byte_val b div 64 < 64"
    using d m by linarith+
qed

lemma group_bytes [simp]:
  "byte1 (byte_val a div 4) (byte_val a mod 4 * 16 + byte_val b div 16) = a"
  "byte1 (byte_val a div 4) (byte_val a mod 4 * 16) = a"
  "byte2 (byte_val a mod 4 * 16 + byte_val b div 16) (byte_val b mod 16 * 4 + byte_val c div 64) = b"
  "byte2 (byte_val a mod 4 * 16 + byte_val b div 16) (byte_val b mod 16 * 4) = b"
  "byte3 (byte_val b mod 16 * 4 + byte_val c div 64) (byte_val c mod 64) = c"
proof -
  have lt: "byte_val b div 16 < 16" "byte_val c div 64 < 4"
    by (auto intro: less_mult_imp_div_less)
  show "byte1 (byte_val a div 4) (byte_val a mod 4 * 16 + byte_val b div 16) = a"
    "byte1 (byte_val a div 4) (byte_val a mod 4 * 16) = a"
    using lt by (simp_all add: byte1_def)
  show "byte2 (byte_val a mod 4 * 16 + byte_val b div 16) (byte_val b mod 16 * 4 + byte_val c div 64) = b"
    "byte2 (byte_val a mod 4 * 16 + byte_val b div 16) (byte_val b mod 16 * 4) = b"
    unfolding byte2_def radix_mod [OF lt(1)] radix_div [OF lt(2)] by simp_all
  show "byte3 (byte_val b mod 16 * 4 + byte_val c div 64) (byte_val c mod 64) = c"
    unfolding byte3_def radix_mod [OF lt(2)] by simp
qed

lemma b64_pad_add4 [simp]: "b64_pad (Suc (Suc (Suc (Suc n)))) = b64_pad n"
proof -
  have "Suc (Suc (Suc (Suc n))) mod 4 = n mod 4" by presburger
  then show ?thesis by (simp only: b64_pad_def)
qed

lemma b64_pad_small [simp]:
  "b64_pad 0 = []" "b64_pad (Suc (Suc 0)) = ''==''" "b64_pad (Suc (Suc (Suc 0))) = ''=''"
  by (simp_all add: b64_pad_def)

lemma decode_quanta_encode:
  "decode_quanta (RawURLEncode xs @ b64_pad (length (RawURLEncode xs))) = Some xs"
  by (induction xs rule: RawURLEncode.induct) simp_all

lemma RawURLEncode_image: "set (RawURLEncode xs) \<subseteq> b64_char ` {..<64}"
  by (induction xs rule: RawURLEncode.induct) simp_all

lemma RawURLEncode_chars: "c \<in> set (RawURLEncode xs) \<Longrightarrow> \<exists>i < 64. c = b64_char i"
  using RawURLEncode_image by auto

lemma filter_RawURLEncode:
  "filter (\<lambda>c. byte_val c \<noteq> 10 \<and> byte_val c \<noteq> 13) (RawURLEncode xs) = RawURLEncode xs"
  by (rule filter_True) (auto dest!: RawURLEncode_chars simp: b64_char_no_newline)

lemma URLDecodeString_encode:
  "URLDecodeString (RawURLEncode xs @ b64_pad (length (RawURLEncode xs))) = Some xs"
proof -
  have "filter (\<lambda>c. byte_val c \<noteq> 10 \<and> byte_val c \<noteq> 13) (b64_pad n) = b64_pad n" for n
    by (simp add: b64_pad_def)
  then show ?thesis
    by (simp add: URLDecodeString_def filter_RawURLEncode decode_quanta_encode)
qed

text \<open>Encoded text holds no full stop, so it can be a part of a token.\<close>

lemma dot_notin_RawURLEncode: "CHR ''.'' \<notin> set (RawURLEncode xs)"
proof
  assume "CHR ''.'' \<in> set (RawURLEncode xs)"
  then obtain i where "i < 64" "CHR ''.'' = b64_char i" using RawURLEncode_chars by blast
  then have "b64_val CHR ''.'' = Some i" by simp
  moreover have "b64_val CHR ''.'' = None" by code_simp
  ultimately show False by simp
qed

interpretation b64: codec RawURLEncode
  "\<lambda>s. URLDecodeString (s @ b64_pad (length s))" "\<lambda>_. True"
  by unfold_locales (rule URLDecodeString_encode)

end
