(* ===== verification/Sha256.thy ===== *)
theory Sha256
  imports Go_Strings
begin

text \<open>
  What the program uses of packages \<open>crypto/sha256\<close>, \<open>crypto/hmac\<close> and \<open>crypto/subtle\<close>:
  SHA-256 (FIPS 180-4) on 32-bit words, HMAC (RFC 2104) with its 64-byte blocks, and the
  comparison of two byte strings.
\<close>

unbundle bit_operations_syntax

type_synonym u32 = "32 word"

text \<open>
  The constants are the first 32 bits of the fractional parts of cube roots and square roots of
  the first primes; the roots are found bit by bit.
\<close>

definition sha_primes :: "nat list" where
  "sha_primes =
     [2, 3, 5, 7, 11, 13, 17, 19, 23, 29, 31, 37, 41, 43, 47, 53,
      59, 61, 67, 71, 73, 79, 83, 89, 97, 101, 103, 107, 109, 113, 127, 131,
      137, 139, 149, 151, 157, 163, 167, 173, 179, 181, 191, 193, 197, 199, 211, 223,
      227, 229, 233, 239, 241, 251, 257, 263, 269, 271, 277, 281, 283, 293, 307, 311]"

fun root_from :: "nat \<Rightarrow> nat \<Rightarrow> nat \<Rightarrow> nat \<Rightarrow> nat" where
  "root_from k n 0 r = r"
| "root_from k n (Suc b) r = root_from k n b (if (r + 2 ^ b) ^ k \<le> n then r + 2 ^ b else r)"

definition sha_k :: "u32 list" where
  "sha_k = map (\<lambda>q. of_nat (root_from 3 (q * 2 ^ 96) 36 0)) sha_primes"

definition sha_init :: "u32 list" where
  "sha_init = map (\<lambda>q. of_nat (root_from 2 (q * 2 ^ 64) 36 0)) (take 8 sha_primes)"

definition rotr32 :: "nat \<Rightarrow> u32 \<Rightarrow> u32" where
  "rotr32 n w = drop_bit n w OR push_bit (32 - n) w"

definition big_sigma0 :: "u32 \<Rightarrow> u32" where
  "big_sigma0 x = rotr32 2 x XOR rotr32 13 x XOR rotr32 22 x"

definition big_sigma1 :: "u32 \<Rightarrow> u32" where
  "big_sigma1 x = rotr32 6 x XOR rotr32 11 x XOR rotr32 25 x"

definition small_sigma0 :: "u32 \<Rightarrow> u32" where
  "small_sigma0 x = rotr32 7 x XOR rotr32 18 x XOR drop_bit 3 x"

definition small_sigma1 :: "u32 \<Rightarrow> u32" where
  "small_sigma1 x = rotr32 17 x XOR rotr32 19 x XOR drop_bit 10 x"

definition sha_ch :: "u32 \<Rightarrow> u32 \<Rightarrow> u32 \<Rightarrow> u32" where
  "sha_ch x y z = (x AND y) XOR (NOT x AND z)"

definition sha_maj :: "u32 \<Rightarrow> u32 \<Rightarrow> u32 \<Rightarrow> u32" where
  "sha_maj x y z = (x AND y) XOR (x AND z) XOR (y AND z)"

definition be_word :: "string \<Rightarrow> u32" where
  "be_word bs = foldl (\<lambda>acc c. push_bit 8 acc OR word_of_nat (byte_val c)) 0 bs"

definition word_be :: "u32 \<Rightarrow> string" where
  "word_be w = map (\<lambda>i. byte_of (unat (drop_bit (24 - 8 * i) w) mod 256)) [0..<4]"

fun chunks :: "nat \<Rightarrow> string \<Rightarrow> string list" where
  "chunks n s = (if n = 0 \<or> s = [] then [] else take n s # chunks n (drop n s))"

declare chunks.simps [simp del]

text \<open>The message schedule keeps the last sixteen words, newest first.\<close>

fun sha_extend :: "nat \<Rightarrow> u32 list \<Rightarrow> u32 list" where
  "sha_extend 0 ws = ws"
| "sha_extend (Suc n) ws =
     sha_extend n ((small_sigma1 (ws ! 1) + ws ! 6 + small_sigma0 (ws ! 14) + ws ! 15) # ws)"

definition sha_schedule :: "string \<Rightarrow> u32 list" where
  "sha_schedule block = rev (sha_extend 48 (rev (map be_word (chunks 4 block))))"

fun sha_round :: "u32 list \<Rightarrow> u32 \<times> u32 \<Rightarrow> u32 list" where
  "sha_round [a, b, c, d, e, f, g, h] (k, w) =
     (let t1 = h + big_sigma1 e + sha_ch e f g + k + w;
          t2 = big_sigma0 a + sha_maj a b c
      in [t1 + t2, a, b, c, d + t1, e, f, g])"
| "sha_round st _ = st"

definition sha_block :: "u32 list \<Rightarrow> string \<Rightarrow> u32 list" where
  "sha_block st block = map2 (+) st (foldl sha_round st (zip sha_k (sha_schedule block)))"

definition sha_pad :: "string \<Rightarrow> string" where
  "sha_pad m =
     (let n = length m; z = (119 - n mod 64) mod 64; bits = 8 * n in
      m @ CHR 0x80 # replicate z (CHR 0x00)
        @ map (\<lambda>i. byte_of (bits div 256 ^ (7 - i) mod 256)) [0..<8])"

definition sha256 :: "string \<Rightarrow> string" where
  "sha256 m = concat (map word_be (foldl sha_block sha_init (chunks 64 (sha_pad m))))"

definition xor_byte :: "nat \<Rightarrow> char \<Rightarrow> char" where
  "xor_byte k c = byte_of (byte_val c XOR k)"

definition hmac_key :: "string \<Rightarrow> string" where
  "hmac_key key =
     (let k = (if length key > 64 then sha256 key else key) in k @ replicate (64 - length k) (CHR 0x00))"

definition hmac_sha256 :: "string \<Rightarrow> string \<Rightarrow> string" where
  "hmac_sha256 key msg =
     (let k = hmac_key key in
      sha256 (map (xor_byte 0x5c) k @ sha256 (map (xor_byte 0x36) k @ msg)))"

text \<open>
  \<open>subtle.ConstantTimeCompare\<close> returns 0 at once on different lengths and otherwise folds the
  exclusive or of all bytes, so that its work depends on the length only.
\<close>

definition ConstantTimeCompare :: "string \<Rightarrow> string \<Rightarrow> int" where
  "ConstantTimeCompare x y =
     (if length x \<noteq> length y then 0
      else if foldl (\<lambda>v (a, b). v OR (byte_val a XOR byte_val b)) 0 (zip x y) = 0 then 1 else 0)"

lemma or_eq_0_nat: "(a OR b = 0) \<longleftrightarrow> a = 0 \<and> b = (0 :: nat)"
  by (auto simp: bit_eq_iff bit_or_iff)

lemma xor_eq_0_nat: "(a XOR b = 0) \<longleftrightarrow> a = (b :: nat)"
  by (auto simp: bit_eq_iff bit_xor_iff)

lemma foldl_or_xor_zero:
  "foldl (\<lambda>v (a, b). v OR (byte_val a XOR byte_val b)) n zs = 0 \<longleftrightarrow>
     n = 0 \<and> (\<forall>(a, b) \<in> set zs. a = b)"
  by (induction zs arbitrary: n) (auto simp: or_eq_0_nat xor_eq_0_nat)

text \<open>The comparison decides equality.\<close>

lemma ConstantTimeCompare_eq: "ConstantTimeCompare x y = 1 \<longleftrightarrow> x = y"
proof (cases "length x = length y")
  case True
  then have "(\<forall>(a, b) \<in> set (zip x y). a = b) \<longleftrightarrow> x = y"
    by (induction rule: list_induct2) auto
  then show ?thesis using True by (simp add: ConstantTimeCompare_def foldl_or_xor_zero)
qed (auto simp: ConstantTimeCompare_def)

end
