(* ===== verification/Json.thy ===== *)
theory Json
  imports Go_Strings
begin

text \<open>
  What the program uses of package \<open>encoding/json\<close>. Values are a datatype; \<open>json_encode\<close> is
  what \<open>Marshal\<close> and an \<open>Encoder\<close> write for them (compact, HTML characters and the line
  separators escaped, invalid UTF-8 replaced); \<open>p_value\<close> reads one value as the scanner and
  the decoder do; \<open>json_unmarshal\<close> and \<open>json_decode\<close> are \<open>Unmarshal\<close> and \<open>Decoder.Decode\<close>.
  Struct fields are matched by \<open>decode_struct\<close>. The main lemma is the round trip of every value
  whose strings are valid UTF-8.
\<close>

datatype json =
    JNull
  | JBool bool
  | JNum string
  | JStr string
  | JArr "json list"
  | JObj "(string \<times> json) list"

section \<open>Encoding\<close>

definition hex_char :: "nat \<Rightarrow> char" where
  "hex_char d = (if d < 10 then byte_of (48 + d) else byte_of (87 + d))"

definition u_escape :: "nat \<Rightarrow> string" where
  "u_escape r =
     [CHR 0x5C, CHR ''u'', hex_char (r div 4096 mod 16), hex_char (r div 256 mod 16),
      hex_char (r div 16 mod 16), hex_char (r mod 16)]"

definition esc_ascii :: "char \<Rightarrow> string" where
  "esc_ascii c =
     (if c = CHR 0x22 \<or> c = CHR 0x5C then [CHR 0x5C, c]
      else if byte_val c = 8 then [CHR 0x5C, CHR ''b'']
      else if byte_val c = 9 then [CHR 0x5C, CHR ''t'']
      else if byte_val c = 10 then [CHR 0x5C, CHR ''n'']
      else if byte_val c = 12 then [CHR 0x5C, CHR ''f'']
      else if byte_val c = 13 then [CHR 0x5C, CHR ''r'']
      else if byte_val c < 32 \<or> c = CHR ''<'' \<or> c = CHR ''>'' \<or> c = CHR ''&'' then u_escape (byte_val c)
      else [c])"

fun quote_body :: "string \<Rightarrow> string" where
  "quote_body [] = []"
| "quote_body (c # cs) =
     (let n = rune_len (c # cs) in
      if byte_val c < 128 then esc_ascii c @ quote_body cs
      else if n = 0 then u_escape 0xFFFD @ quote_body cs
      else if c = CHR 0xE2 \<and> take 2 cs = [CHR 0x80, CHR 0xA8] then u_escape 0x2028 @ quote_body (drop 2 cs)
      else if c = CHR 0xE2 \<and> take 2 cs = [CHR 0x80, CHR 0xA9] then u_escape 0x2029 @ quote_body (drop 2 cs)
      else c # take (n - 1) cs @ quote_body (drop (n - 1) cs))"

definition json_quote :: "string \<Rightarrow> string" where
  "json_quote s = CHR 0x22 # quote_body s @ [CHR 0x22]"

fun json_encode :: "json \<Rightarrow> string" where
  "json_encode JNull = ''null''"
| "json_encode (JBool b) = (if b then ''true'' else ''false'')"
| "json_encode (JNum lit) = lit"
| "json_encode (JStr s) = json_quote s"
| "json_encode (JArr xs) = CHR ''['' # Join '','' (map json_encode xs) @ '']''"
| "json_encode (JObj ms) =
     CHR ''{'' # Join '','' (map (\<lambda>(k, v). json_quote k @ CHR '':'' # json_encode v) ms) @ ''}''"

definition json_int :: "int \<Rightarrow> json" where
  "json_int n = JNum (Itoa n)"

section \<open>Reading a value\<close>

definition json_ws :: "char \<Rightarrow> bool" where
  "json_ws c \<longleftrightarrow> byte_val c = 32 \<or> byte_val c = 9 \<or> byte_val c = 10 \<or> byte_val c = 13"

definition skip_ws :: "string \<Rightarrow> string" where
  "skip_ws s = dropWhile json_ws s"

definition hex_val :: "char \<Rightarrow> nat option" where
  "hex_val c =
     (let b = byte_val c in
      if 48 \<le> b \<and> b \<le> 57 then Some (b - 48)
      else if 97 \<le> b \<and> b \<le> 102 then Some (b - 87)
      else if 65 \<le> b \<and> b \<le> 70 then Some (b - 55)
      else None)"

definition hex4 :: "string \<Rightarrow> nat option" where
  "hex4 s = (case s of
       a # b # c # d # _ \<Rightarrow>
         (case (hex_val a, hex_val b, hex_val c, hex_val d) of
            (Some w, Some x, Some y, Some z) \<Rightarrow> Some (4096 * w + 256 * x + 16 * y + z)
          | _ \<Rightarrow> None)
     | _ \<Rightarrow> None)"

definition simple_escape :: "char \<Rightarrow> char option" where
  "simple_escape e =
     (if e = CHR 0x22 \<or> e = CHR 0x5C \<or> e = CHR ''/'' then Some e
      else if e = CHR ''b'' then Some (CHR 0x08)
      else if e = CHR ''f'' then Some (CHR 0x0C)
      else if e = CHR ''n'' then Some (CHR 0x0A)
      else if e = CHR ''r'' then Some (CHR 0x0D)
      else if e = CHR ''t'' then Some (CHR 0x09)
      else None)"

text \<open>
  The code point of a \<open>\u\<close> escape whose four digits have the value \<open>r\<close>, and how many bytes of
  the text behind the digits belong to it: a high surrogate followed by an escaped low one is
  one code point, any other surrogate is replaced.
\<close>

definition u_rune :: "nat \<Rightarrow> string \<Rightarrow> string \<times> nat" where
  "u_rune r rest =
     (if r < 0xD800 \<or> 0xE000 \<le> r then (EncodeRune r, 0)
      else case (if take 2 rest = [CHR 0x5C, CHR ''u''] then hex4 (drop 2 rest) else None) of
             Some r2 \<Rightarrow>
               if r < 0xDC00 \<and> 0xDC00 \<le> r2 \<and> r2 < 0xE000
               then (EncodeRune (0x10000 + (r - 0xD800) * 1024 + (r2 - 0xDC00)), 6)
               else (rune_error, 0)
           | None \<Rightarrow> (rune_error, 0))"

definition push_bytes :: "string \<Rightarrow> (string \<times> string) option \<Rightarrow> (string \<times> string) option" where
  "push_bytes p = map_option (\<lambda>(t, r). (p @ t, r))"

text \<open>The rest of a string literal behind its opening quote: the value and what follows it.\<close>

function p_string :: "string \<Rightarrow> (string \<times> string) option" where
  "p_string [] = None"
| "p_string (c # cs) =
     (if c = CHR 0x22 then Some ([], cs)
      else if c = CHR 0x5C then
        (case cs of
           [] \<Rightarrow> None
         | e # es \<Rightarrow>
             if e = CHR ''u'' then
               (case hex4 es of
                  None \<Rightarrow> None
                | Some r \<Rightarrow>
                    push_bytes (fst (u_rune r (drop 4 es)))
                      (p_string (drop (4 + snd (u_rune r (drop 4 es))) es)))
             else (case simple_escape e of
                     None \<Rightarrow> None
                   | Some ch \<Rightarrow> push_bytes [ch] (p_string es)))
      else if byte_val c < 32 then None
      else if byte_val c < 128 then push_bytes [c] (p_string cs)
      else if rune_len (c # cs) = 0 then push_bytes rune_error (p_string cs)
      else push_bytes (c # take (rune_len (c # cs) - 1) cs) (p_string (drop (rune_len (c # cs) - 1) cs)))"
  by pat_completeness auto
termination
  by (relation "measure length") auto

declare p_string.simps(2) [simp del]

text \<open>A number literal and what follows it.\<close>

definition p_digits :: "string \<Rightarrow> (string \<times> string) option" where
  "p_digits s =
     (case takeWhile is_digit s of [] \<Rightarrow> None | ds \<Rightarrow> Some (ds, dropWhile is_digit s))"

definition p_int :: "string \<Rightarrow> (string \<times> string) option" where
  "p_int s = (case s of c # r \<Rightarrow> if c = CHR ''0'' then Some (''0'', r) else p_digits s | [] \<Rightarrow> None)"

definition p_frac :: "string \<Rightarrow> (string \<times> string) option" where
  "p_frac s = (case s of
       c # r \<Rightarrow> if c = CHR ''.'' then map_option (\<lambda>(ds, t). (c # ds, t)) (p_digits r) else Some ([], s)
     | [] \<Rightarrow> Some ([], s))"

definition p_exp :: "string \<Rightarrow> (string \<times> string) option" where
  "p_exp s = (case s of
       c # r \<Rightarrow>
         if c = CHR ''e'' \<or> c = CHR ''E'' then
           (case r of
              sg # r' \<Rightarrow>
                if sg = CHR ''+'' \<or> sg = CHR ''-''
                then map_option (\<lambda>(ds, t). (c # sg # ds, t)) (p_digits r')
                else map_option (\<lambda>(ds, t). (c # ds, t)) (p_digits r)
            | [] \<Rightarrow> None)
         else Some ([], s)
     | [] \<Rightarrow> Some ([], s))"

definition p_number :: "string \<Rightarrow> (string \<times> string) option" where
  "p_number s =
     (let sg = (case s of c # _ \<Rightarrow> if c = CHR ''-'' then ''-'' else [] | [] \<Rightarrow> []) in
      case p_int (drop (length sg) s) of
        None \<Rightarrow> None
      | Some (i, r1) \<Rightarrow>
          (case p_frac r1 of
             None \<Rightarrow> None
           | Some (f, r2) \<Rightarrow>
               (case p_exp r2 of None \<Rightarrow> None | Some (e, r3) \<Rightarrow> Some (sg @ i @ f @ e, r3))))"

definition p_literal :: "string \<Rightarrow> json \<Rightarrow> string \<Rightarrow> (json \<times> string) option" where
  "p_literal w v s = (if take (length w) s = w then Some (v, drop (length w) s) else None)"

definition max_nesting :: nat where
  "max_nesting = 10000"

lemma length_skip_ws: "length (skip_ws s) \<le> length s"
  by (simp add: skip_ws_def length_dropWhile_le)

text \<open>
  A value at the front of a string that starts with it. The tests on lengths always succeed
  (\<open>p_value_shorter\<close>); they give the recursion its measure.
\<close>

function p_value :: "nat \<Rightarrow> string \<Rightarrow> (json \<times> string) option"
  and p_members :: "nat \<Rightarrow> string \<Rightarrow> ((string \<times> json) list \<times> string) option"
  and p_elems :: "nat \<Rightarrow> string \<Rightarrow> (json list \<times> string) option" where
  "p_value d s =
     (case s of
        [] \<Rightarrow> None
      | c # cs \<Rightarrow>
          if c = CHR ''{'' then
            (if max_nesting \<le> d then None
             else case skip_ws cs of
                    [] \<Rightarrow> None
                  | c' # cs' \<Rightarrow>
                      if c' = CHR ''}'' then Some (JObj [], cs')
                      else map_option (\<lambda>(ms, r). (JObj ms, r)) (p_members (Suc d) (skip_ws cs)))
          else if c = CHR ''['' then
            (if max_nesting \<le> d then None
             else case skip_ws cs of
                    [] \<Rightarrow> None
                  | c' # cs' \<Rightarrow>
                      if c' = CHR '']'' then Some (JArr [], cs')
                      else map_option (\<lambda>(xs, r). (JArr xs, r)) (p_elems (Suc d) (skip_ws cs)))
          else if c = CHR 0x22 then map_option (\<lambda>(t, r). (JStr t, r)) (p_string cs)
          else if c = CHR ''t'' then p_literal ''true'' (JBool True) s
          else if c = CHR ''f'' then p_literal ''false'' (JBool False) s
          else if c = CHR ''n'' then p_literal ''null'' JNull s
          else map_option (\<lambda>(l, r). (JNum l, r)) (p_number s))"
| "p_members d s =
     (case s of
        [] \<Rightarrow> None
      | q # cs \<Rightarrow>
          if q \<noteq> CHR 0x22 then None
          else case p_string cs of
                 None \<Rightarrow> None
               | Some (k, r) \<Rightarrow>
                   (case skip_ws r of
                      [] \<Rightarrow> None
                    | col # r1 \<Rightarrow>
                        if col \<noteq> CHR '':'' \<or> \<not> length (skip_ws r1) < length s then None
                        else case p_value d (skip_ws r1) of
                               None \<Rightarrow> None
                             | Some (v, r2) \<Rightarrow>
                                 (case skip_ws r2 of
                                    [] \<Rightarrow> None
                                  | e # r3 \<Rightarrow>
                                      if e = CHR ''}'' then Some ([(k, v)], r3)
                                      else if e = CHR '','' \<and> length (skip_ws r3) < length s
                                      then map_option (\<lambda>(ms, t). ((k, v) # ms, t))
                                             (p_members d (skip_ws r3))
                                      else None)))"
| "p_elems d s =
     (case p_value d s of
        None \<Rightarrow> None
      | Some (v, r2) \<Rightarrow>
          (case skip_ws r2 of
             [] \<Rightarrow> None
           | e # r3 \<Rightarrow>
               if e = CHR '']'' then Some ([v], r3)
               else if e = CHR '','' \<and> length (skip_ws r3) < length s
               then map_option (\<lambda>(xs, t). (v # xs, t)) (p_elems d (skip_ws r3))
               else None))"
  by pat_completeness auto

termination
proof (relation "measure (\<lambda>x. case x of
      Inl (d, s) \<Rightarrow> 2 * length s
    | Inr (Inl (d, s)) \<Rightarrow> 2 * length s
    | Inr (Inr (d, s)) \<Rightarrow> Suc (2 * length s))", goal_cases)
  case (2 d s c cs c' cs')
  then show ?case using length_skip_ws [of cs] by simp
next
  case (3 d s c cs c' cs')
  then show ?case using length_skip_ws [of cs] by simp
qed auto

declare p_value.simps [simp del] p_members.simps [simp del] p_elems.simps [simp del]

section \<open>Unmarshal and Decode\<close>

text \<open>\<open>json.Unmarshal\<close> wants one value and nothing but white space behind it.\<close>

definition json_unmarshal :: "string \<Rightarrow> json option" where
  "json_unmarshal s =
     (case p_value 0 (skip_ws s) of
        Some (v, r) \<Rightarrow> if skip_ws r = [] then Some v else None
      | None \<Rightarrow> None)"

fun self_delimiting :: "json \<Rightarrow> bool" where
  "self_delimiting (JObj _) = True"
| "self_delimiting (JArr _) = True"
| "self_delimiting _ = False"

text \<open>
  \<open>Decoder.Decode\<close> takes the first value of a stream and leaves the rest. \<open>trunc\<close> says that
  reading the stream ends in an error behind \<open>s\<close> instead of its end: an object or an array is
  complete with its bracket, any other value only with the byte behind it.
\<close>

definition json_decode :: "bool \<Rightarrow> string \<Rightarrow> json option" where
  "json_decode trunc s =
     (case p_value 0 (skip_ws s) of
        Some (v, r) \<Rightarrow> if trunc \<and> r = [] \<and> \<not> self_delimiting v then None else Some v
      | None \<Rightarrow> None)"

text \<open>
  A key selects the struct field with the same name up to letter case. In field names, which
  are ASCII, the only runes outside ASCII that fold to a letter are U+017F (to S) and U+212A
  (to K).
\<close>

fun fold_name :: "string \<Rightarrow> string" where
  "fold_name [] = []"
| "fold_name (c # cs) =
     (if c = CHR 0xC5 \<and> take 1 cs = [CHR 0xBF] then CHR ''S'' # fold_name (drop 1 cs)
      else if c = CHR 0xE2 \<and> take 2 cs = [CHR 0x84, CHR 0xAA] then CHR ''K'' # fold_name (drop 2 cs)
      else byte_upper c # fold_name cs)"

declare fold_name.simps [simp del]

type_synonym 'r field = "string \<times> (json \<Rightarrow> 'r \<Rightarrow> 'r option)"

definition set_str :: "(string \<Rightarrow> 'r \<Rightarrow> 'r) \<Rightarrow> json \<Rightarrow> 'r \<Rightarrow> 'r option" where
  "set_str f v r = (case v of JStr s \<Rightarrow> Some (f s r) | JNull \<Rightarrow> Some r | _ \<Rightarrow> None)"

definition set_bool :: "(bool \<Rightarrow> 'r \<Rightarrow> 'r) \<Rightarrow> json \<Rightarrow> 'r \<Rightarrow> 'r option" where
  "set_bool f v r = (case v of JBool b \<Rightarrow> Some (f b r) | JNull \<Rightarrow> Some r | _ \<Rightarrow> None)"

definition set_int :: "(int \<Rightarrow> 'r \<Rightarrow> 'r) \<Rightarrow> json \<Rightarrow> 'r \<Rightarrow> 'r option" where
  "set_int f v r =
     (case v of
        JNum l \<Rightarrow> (case Atoi l of (n, None) \<Rightarrow> Some (f n r) | _ \<Rightarrow> None)
      | JNull \<Rightarrow> Some r
      | _ \<Rightarrow> None)"

text \<open>
  The members of an object are stored into the struct in their order; \<open>None\<close> stands for the
  error that a value of the wrong type leaves behind.
\<close>

fun decode_members :: "'r field list \<Rightarrow> (string \<times> json) list \<Rightarrow> 'r \<Rightarrow> 'r option" where
  "decode_members fs [] r = Some r"
| "decode_members fs ((k, v) # ms) r =
     (case List.find (\<lambda>f. fold_name (fst f) = fold_name k) fs of
        None \<Rightarrow> decode_members fs ms r
      | Some f \<Rightarrow> (case snd f v r of None \<Rightarrow> None | Some r' \<Rightarrow> decode_members fs ms r'))"

definition decode_struct :: "'r field list \<Rightarrow> json \<Rightarrow> 'r \<Rightarrow> 'r option" where
  "decode_struct fs v r =
     (case v of JObj ms \<Rightarrow> decode_members fs ms r | JNull \<Rightarrow> Some r | _ \<Rightarrow> None)"

section \<open>The reader makes progress\<close>

lemma push_bytes_Some: "push_bytes p x = Some (t, r) \<longleftrightarrow> (\<exists>t'. x = Some (t', r) \<and> t = p @ t')"
  by (auto simp: push_bytes_def)

lemma p_string_shorter: "p_string s = Some (t, r) \<Longrightarrow> length r < length s"
proof (induction s arbitrary: t rule: length_induct)
  case (1 s)
  then have IH: "length r < length s'" if "p_string s' = Some (t', r)" "length s' < length s" for s' t'
    using that by blast
  from "1.prems" obtain c cs where s: "s = c # cs" by (cases s) auto
  obtain s' t' where "length s' < length s \<and> (p_string s' = Some (t', r)) \<or> r = cs"
    using "1.prems" unfolding s
    by (subst (asm) p_string.simps)
      (fastforce simp: push_bytes_Some split: if_splits list.splits option.splits)
  then show ?case using IH s by fastforce
qed

lemma p_digits_shorter: "p_digits s = Some (t, r) \<Longrightarrow> length r < length s"
  using length_dropWhile_le [of is_digit s]
  by (auto simp: p_digits_def split: list.splits) (metis append_Nil length_append length_greater_0_conv
      less_add_same_cancel2 list.distinct(1) takeWhile_dropWhile_id)

lemma p_int_shorter: "p_int s = Some (t, r) \<Longrightarrow> length r < length s"
  by (auto simp: p_int_def p_digits_shorter split: list.splits if_splits dest!: p_digits_shorter)

lemma p_frac_shorter: "p_frac s = Some (t, r) \<Longrightarrow> length r \<le> length s"
  by (auto simp: p_frac_def split: list.splits if_splits dest!: p_digits_shorter)

lemma p_exp_shorter: "p_exp s = Some (t, r) \<Longrightarrow> length r \<le> length s"
  by (auto simp: p_exp_def split: list.splits if_splits dest!: p_digits_shorter)

lemma p_number_shorter: "p_number s = Some (t, r) \<Longrightarrow> length r < length s"
  by (auto simp: p_number_def Let_def split: list.splits option.splits prod.splits if_splits
      dest!: p_int_shorter p_frac_shorter p_exp_shorter)

lemma skip_ws_Cons: "skip_ws r = c # r' \<Longrightarrow> length r' < length r"
  using length_skip_ws [of r] by simp

lemma p_literal_shorter: "w \<noteq> [] \<Longrightarrow> p_literal w v s = Some (x, r) \<Longrightarrow> length r < length s"
  by (cases s; cases w) (auto simp: p_literal_def split: if_splits)

text \<open>The reader by the first byte of the value.\<close>

lemma p_value_cases:
  assumes "p_value d s = Some (v, r)"
  obtains cs ms where "s = CHR ''{'' # cs" "d < max_nesting" "v = JObj ms"
      "skip_ws cs = CHR ''}'' # r \<or> p_members (Suc d) (skip_ws cs) = Some (ms, r)"
    | cs xs where "s = CHR ''['' # cs" "d < max_nesting" "v = JArr xs"
      "skip_ws cs = CHR '']'' # r \<or> p_elems (Suc d) (skip_ws cs) = Some (xs, r)"
    | cs t where "s = CHR 0x22 # cs" "v = JStr t" "p_string cs = Some (t, r)"
    | w where "w \<noteq> []" "p_literal w v s = Some (v, r)"
    | l where "v = JNum l" "p_number s = Some (l, r)"
proof -
  from assms obtain c cs where s: "s = c # cs"
    by (cases s) (auto simp: p_value.simps)
  consider "c = CHR ''{''" | "c = CHR ''[''" | "c = CHR 0x22"
    | "c = CHR ''t''" | "c = CHR ''f''" | "c = CHR ''n''"
    | "c \<notin> {CHR ''{'', CHR ''['', CHR 0x22, CHR ''t'', CHR ''f'', CHR ''n''}" by blast
  then show thesis
  proof cases
    case 1
    then show thesis using assms s that(1)
      by (auto simp: p_value.simps split: if_splits list.splits)
  next
    case 2
    then show thesis using assms s that(2)
      by (auto simp: p_value.simps split: if_splits list.splits)
  next
    case 3
    then show thesis using assms s that(3) by (auto simp: p_value.simps)
  next
    case 4
    then have "p_value d s = p_literal ''true'' (JBool True) s" using s by (simp add: p_value.simps)
    with assms that(4) [of "''true''"] show thesis by (auto simp: p_literal_def split: if_splits)
  next
    case 5
    then have "p_value d s = p_literal ''false'' (JBool False) s" using s by (simp add: p_value.simps)
    with assms that(4) [of "''false''"] show thesis by (auto simp: p_literal_def split: if_splits)
  next
    case 6
    then have "p_value d s = p_literal ''null'' JNull s" using s by (simp add: p_value.simps)
    with assms that(4) [of "''null''"] show thesis by (auto simp: p_literal_def split: if_splits)
  next
    case 7
    then have "p_value d s = map_option (\<lambda>(l, r). (JNum l, r)) (p_number s)"
      using s by (simp add: p_value.simps)
    with assms that(5) show thesis by auto
  qed
qed

lemma reader_shorter:
  "(\<forall>d v r. p_value d s = Some (v, r) \<longrightarrow> length r < length s) \<and>
   (\<forall>d ms r. p_members d s = Some (ms, r) \<longrightarrow> length r < length s) \<and>
   (\<forall>d xs r. p_elems d s = Some (xs, r) \<longrightarrow> length r < length s)"
proof (induction s rule: length_induct)
  case (1 s)
  have IHm: "length r < length s'" if "p_members d s' = Some (ms, r)" "length s' < length s" for d s' ms r
    using 1 that by blast
  have IHe: "length r < length s'" if "p_elems d s' = Some (xs, r)" "length s' < length s" for d s' xs r
    using 1 that by blast
  have val: "length r < length s" if "p_value d s = Some (v, r)" for d v r
    using that
  proof (cases rule: p_value_cases)
    case (1 cs ms)
    then show ?thesis
      using IHm [of "Suc d" "skip_ws cs" ms r] length_skip_ws [of cs] skip_ws_Cons [of cs] by fastforce
  next
    case (2 cs xs)
    then show ?thesis
      using IHe [of "Suc d" "skip_ws cs" xs r] length_skip_ws [of cs] skip_ws_Cons [of cs] by fastforce
  next
    case 3
    then show ?thesis by (auto dest: p_string_shorter)
  next
    case 4
    then show ?thesis by (rule p_literal_shorter)
  next
    case 5
    then show ?thesis by (auto dest: p_number_shorter)
  qed
  have vals: "length r < length s'" if "p_value d s' = Some (v, r)" "length s' < length s" for d s' v r
    using 1 that by blast
  have mem: "length r < length s" if "p_members d s = Some (ms, r)" for d ms r
    using that
    by (subst (asm) p_members.simps)
      (fastforce split: if_splits list.splits option.splits dest: vals IHm skip_ws_Cons)
  have elem: "length r < length s" if "p_elems d s = Some (xs, r)" for d xs r
    using that
    by (subst (asm) p_elems.simps)
      (fastforce split: if_splits list.splits option.splits dest: val IHe skip_ws_Cons)
  from val mem elem show ?case by blast
qed

lemmas p_value_shorter = reader_shorter [THEN conjunct1, rule_format]

section \<open>Round trip\<close>

lemma hex_val_hex_char [simp]: "d < 16 \<Longrightarrow> hex_val (hex_char d) = Some d"
  by (auto simp: hex_val_def hex_char_def byte_val_byte_of Let_def)

lemma hex4_u_escape: "r < 65536 \<Longrightarrow> hex4 (drop 2 (u_escape r) @ t) = Some r"
proof -
  assume r: "r < 65536"
  then have lt: "r div 4096 < 16" by (simp add: less_mult_imp_div_less)
  then have m: "r div 4096 mod 16 = r div 4096" by simp
  have "4096 * (r div 4096 mod 16) + 256 * (r div 256 mod 16) + 16 * (r div 16 mod 16) + r mod 16 = r"
  proof -
    have "r = 16 * (r div 16) + r mod 16" by simp
    moreover have "r div 16 = 16 * (r div 256) + r div 16 mod 16"
      using mult_div_mod_eq [of 16 "r div 16"] by (simp add: div_mult2_eq [symmetric])
    moreover have "r div 256 = 16 * (r div 4096) + r div 256 mod 16"
      using mult_div_mod_eq [of 16 "r div 256"] by (simp add: div_mult2_eq [symmetric])
    ultimately show ?thesis using m by linarith
  qed
  then show ?thesis using m lt by (simp add: u_escape_def hex4_def)
qed

lemma p_string_u_escape:
  assumes "r < 65536" and "r < 0xD800 \<or> 0xE000 \<le> r"
  shows "p_string (u_escape r @ t) = push_bytes (EncodeRune r) (p_string t)"
proof -
  have "hex4 (drop 2 (u_escape r) @ t) = Some r" using assms(1) by (rule hex4_u_escape)
  then show ?thesis
    using assms(2) by (simp add: u_escape_def p_string.simps u_rune_def)
qed

lemma control_bytes:
  "byte_val c = 8 \<longleftrightarrow> c = CHR 0x08" "byte_val c = 9 \<longleftrightarrow> c = CHR 0x09" "byte_val c = 10 \<longleftrightarrow> c = CHR 0x0A"
  "byte_val c = 12 \<longleftrightarrow> c = CHR 0x0C" "byte_val c = 13 \<longleftrightarrow> c = CHR 0x0D"
  using byte_val_inject [of c "CHR 0x08"] byte_val_inject [of c "CHR 0x09"]
    byte_val_inject [of c "CHR 0x0A"] byte_val_inject [of c "CHR 0x0C"]
    byte_val_inject [of c "CHR 0x0D"]
  by (simp_all del: byte_val_inject)

lemma p_string_simple_escape:
  "simple_escape e = Some ch \<Longrightarrow> e \<noteq> CHR ''u'' \<Longrightarrow> p_string (CHR 0x5C # e # t) = push_bytes [ch] (p_string t)"
  by (simp add: p_string.simps)

lemma p_string_esc_ascii:
  assumes "byte_val c < 128"
  shows "p_string (esc_ascii c @ t) = push_bytes [c] (p_string t)"
proof -
  have u: "p_string (u_escape (byte_val c) @ t) = push_bytes [c] (p_string t)"
    using p_string_u_escape [of "byte_val c" t] assms by (simp add: EncodeRune_def)
  have plain: "p_string (c # t) = push_bytes [c] (p_string t)"
    if "c \<noteq> CHR 0x22" "c \<noteq> CHR 0x5C" "\<not> byte_val c < 32"
    using that assms by (simp add: p_string.simps)
  show ?thesis
    unfolding esc_ascii_def control_bytes
    by (simp add: u plain p_string_simple_escape simple_escape_def)
qed

lemma EncodeRune_separators:
  "EncodeRune 0x2028 = [CHR 0xE2, CHR 0x80, CHR 0xA8]" "EncodeRune 0x2029 = [CHR 0xE2, CHR 0x80, CHR 0xA9]"
proof -
  have "byte_of 226 = CHR 0xE2" "byte_of 128 = CHR 0x80" "byte_of 168 = CHR 0xA8" "byte_of 169 = CHR 0xA9"
    by code_simp+
  then show "EncodeRune 0x2028 = [CHR 0xE2, CHR 0x80, CHR 0xA8]"
    "EncodeRune 0x2029 = [CHR 0xE2, CHR 0x80, CHR 0xA9]"
    by (simp_all add: EncodeRune_def)
qed

lemma p_string_quote_body:
  "valid_utf8 s \<Longrightarrow> p_string (quote_body s @ CHR 0x22 # t) = Some (s, t)"
proof (induction s rule: quote_body.induct)
  case 1
  show ?case by (simp add: p_string.simps)
next
  case (2 c cs)
  show ?case
  proof (cases "byte_val c < 128")
    case True
    with "2.prems" have "valid_utf8 cs" by simp
    with "2.IH"(1) [OF refl True] True show ?thesis
      by (simp add: Let_def p_string_esc_ascii push_bytes_def)
  next
    case False
    let ?n = "rune_len (c # cs)"
    from "2.prems" have n: "?n \<noteq> 0" and v: "valid_utf8 (drop (?n - 1) cs)"
      using valid_utf8.simps [of "c # cs"] by (auto split: if_splits simp: drop_Cons')
    show ?thesis
    proof (cases "c = CHR 0xE2 \<and> (take 2 cs = [CHR 0x80, CHR 0xA8] \<or> take 2 cs = [CHR 0x80, CHR 0xA9])")
      case True
      then obtain x ds where x: "c = CHR 0xE2" "cs = CHR 0x80 # x # ds" "x = CHR 0xA8 \<or> x = CHR 0xA9"
        by (cases cs; cases "tl cs") auto
      then have "?n = 3"
        by (auto simp: rune_len.simps(2) rune_class_def cont_byte_def)
      with v x have "valid_utf8 ds" by simp
      then show ?thesis
        using "2.IH"(3) [OF refl False n] "2.IH"(4) [OF refl False n] x n False
        by (auto simp: Let_def p_string_u_escape push_bytes_def EncodeRune_separators)
    next
      case plain: False
      have q: "quote_body (c # cs) = c # take (?n - 1) cs @ quote_body (drop (?n - 1) cs)"
        using False n plain by (auto simp: Let_def)
      have IH: "p_string (quote_body (drop (?n - 1) cs) @ CHR 0x22 # t) = Some (drop (?n - 1) cs, t)"
        using "2.IH"(5) [OF refl False n] plain v by auto
      let ?u = "quote_body (drop (?n - 1) cs) @ CHR 0x22 # t"
      have le: "?n - 1 \<le> length cs" using rune_len_le [of "c # cs"] by simp
      have "rune_len (c # take (?n - 1) cs) = ?n"
        by (rule rune_len_take)
      then have m: "rune_len (c # take (?n - 1) cs @ ?u) = ?n"
        using rune_len_append [of "c # take (?n - 1) cs" ?u] n by simp
      have "c \<noteq> CHR 0x22" "c \<noteq> CHR 0x5C" using False by auto
      then have "p_string (c # take (?n - 1) cs @ ?u) = push_bytes (c # take (?n - 1) cs) (p_string ?u)"
        using False m n le by (simp add: p_string.simps(2) del: append_assoc)
      then show ?thesis using IH by (simp only: q append_Cons append_assoc) (simp add: push_bytes_def)
    qed
  qed
qed

text \<open>What may follow a value without becoming part of it.\<close>

definition delim :: "string \<Rightarrow> bool" where
  "delim t \<longleftrightarrow> (case t of [] \<Rightarrow> True
     | c # _ \<Rightarrow> \<not> is_digit c \<and> c \<noteq> CHR ''.'' \<and> c \<noteq> CHR ''e'' \<and> c \<noteq> CHR ''E'')"

lemma hd_show_nat_pos: "0 < n \<Longrightarrow> hd (show_nat n) \<noteq> CHR ''0''"
proof (induction n rule: show_nat.induct)
  case (1 n)
  show ?case
  proof (cases "n < 10")
    case True
    then have "byte_val (digit_char n) = 48 + n" by simp
    with "1.prems" have "digit_char n \<noteq> CHR ''0''" by auto
    then show ?thesis using True by (simp add: show_nat.simps [of n])
  next
    case False
    with 1 have "hd (show_nat (n div 10)) \<noteq> CHR ''0''" by simp
    then show ?thesis using False by (simp add: show_nat.simps [of n])
  qed
qed

lemma p_int_show_nat:
  assumes "t = [] \<or> \<not> is_digit (hd t)"
  shows "p_int (show_nat n @ t) = Some (show_nat n, t)"
proof (cases "n = 0")
  case True
  have "digit_char 0 = CHR ''0''" by code_simp
  then have "show_nat 0 = ''0''" by (simp add: show_nat.simps)
  then show ?thesis using True by (simp add: p_int_def)
next
  case False
  obtain c cs where s: "show_nat n = c # cs" by (meson show_nat_nonempty neq_Nil_conv)
  have all: "\<forall>d \<in> set (c # cs). is_digit d" using show_nat_digits s by metis
  then have "takeWhile is_digit (c # cs @ t) = c # cs" "dropWhile is_digit (c # cs @ t) = t"
    using assms takeWhile_append2 [of "c # cs" is_digit t] dropWhile_append2 [of "c # cs" is_digit t]
    by (cases t; simp)+
  moreover have "c \<noteq> CHR ''0''" using hd_show_nat_pos [of n] False s by simp
  ultimately show ?thesis by (simp add: s p_int_def p_digits_def)
qed

lemma p_number_Itoa: "delim t \<Longrightarrow> p_number (Itoa n @ t) = Some (Itoa n, t)"
proof -
  assume t: "delim t"
  then have d: "t = [] \<or> \<not> is_digit (hd t)" by (auto simp: delim_def split: list.splits)
  have fe: "p_frac t = Some ([], t)" "p_exp t = Some ([], t)"
    using t by (auto simp: delim_def p_frac_def p_exp_def split: list.splits)
  obtain c cs where s: "show_nat (nat n) = c # cs" by (meson show_nat_nonempty neq_Nil_conv)
  then have "is_digit c" using hd_show_nat [of "nat n"] by simp
  then have "c \<noteq> CHR ''-''" by auto
  then show ?thesis
    using p_int_show_nat [OF d, of "nat n"] p_int_show_nat [OF d, of "nat (- n)"] s fe
    by (simp add: p_number_def Itoa_def)
qed

text \<open>
  Values that come back: strings and keys are valid UTF-8, numbers are 64-bit integers, and the
  nesting stays within the reader's limit.
\<close>

fun wf_json :: "json \<Rightarrow> bool" where
  "wf_json JNull = True"
| "wf_json (JBool _) = True"
| "wf_json (JNum l) = (snd (Atoi l) = None \<and> l = Itoa (fst (Atoi l)))"
| "wf_json (JStr s) = valid_utf8 s"
| "wf_json (JArr xs) = list_all wf_json xs"
| "wf_json (JObj ms) = list_all (\<lambda>(k, v). valid_utf8 k \<and> wf_json v) ms"

fun json_depth :: "json \<Rightarrow> nat" where
  "json_depth (JArr xs) = Suc (fold max (map json_depth xs) 0)"
| "json_depth (JObj ms) = Suc (fold max (map (\<lambda>(k, v). json_depth v) ms) 0)"
| "json_depth _ = 0"

lemma wf_json_int [simp]: "in_int64 n \<Longrightarrow> wf_json (json_int n)"
  by (simp add: json_int_def Atoi_Itoa)

lemma json_encode_json_int [simp]: "json_encode (json_int n) = Itoa n"
  by (simp add: json_int_def)

definition solid :: "string \<Rightarrow> bool" where
  "solid s \<longleftrightarrow> (case s of [] \<Rightarrow> False | c # _ \<Rightarrow> \<not> json_ws c \<and> c \<noteq> CHR '']'' \<and> c \<noteq> CHR ''}'')"

lemma skip_ws_solid [simp]: "solid s \<Longrightarrow> skip_ws (s @ t) = s @ t"
  by (auto simp: solid_def skip_ws_def split: list.splits)

lemma skip_ws_punct [simp]:
  "skip_ws (CHR '','' # t) = CHR '','' # t" "skip_ws (CHR '':'' # t) = CHR '':'' # t"
  "skip_ws (CHR '']'' # t) = CHR '']'' # t" "skip_ws (CHR ''}'' # t) = CHR ''}'' # t"
  by (simp_all add: skip_ws_def json_ws_def)

lemma delim_punct [simp]:
  "delim []" "delim (CHR '','' # t)" "delim (CHR '']'' # t)" "delim (CHR ''}'' # t)"
  by (simp_all add: delim_def is_digit_def)

lemma solid_Itoa: "solid (Itoa n)"
proof -
  obtain c cs where s: "show_nat (nat n) = c # cs" by (meson show_nat_nonempty neq_Nil_conv)
  then have "is_digit c" using hd_show_nat [of "nat n"] by simp
  then have "\<not> json_ws c \<and> c \<noteq> CHR '']'' \<and> c \<noteq> CHR ''}''" by (auto simp: json_ws_def is_digit_def)
  then show ?thesis using s by (simp add: Itoa_def solid_def json_ws_def)
qed

lemma solid_json_encode: "wf_json v \<Longrightarrow> solid (json_encode v)"
proof (cases v)
  case (JNum l)
  then show "wf_json v \<Longrightarrow> ?thesis" using solid_Itoa [of "fst (Atoi l)"] by simp
qed (auto simp: solid_def json_ws_def json_quote_def)

lemma p_elems_encode:
  assumes "xs \<noteq> []" and "\<And>x. x \<in> set xs \<Longrightarrow> solid (enc x)"
    and "\<And>x t. x \<in> set xs \<Longrightarrow> delim t \<Longrightarrow> p_value d (enc x @ t) = Some (x, t)"
  shows "p_elems d (Join '','' (map enc xs) @ CHR '']'' # t) = Some (xs, t)"
  using assms
proof (induction xs)
  case (Cons x xs)
  show ?case
  proof (cases xs)
    case Nil
    then show ?thesis using Cons.prems by (simp add: p_elems.simps)
  next
    case (Cons y ys)
    let ?s = "Join '','' (map enc xs) @ CHR '']'' # t"
    have IH: "p_elems d ?s = Some (xs, t)" using Cons.IH Cons.prems Cons by simp
    have "solid (enc y)" using Cons.prems Cons by simp
    then have "skip_ws ?s = ?s" using Cons by (cases ys) simp_all
    moreover have "p_value d (enc x @ CHR '','' # ?s) = Some (x, CHR '','' # ?s)"
      using Cons.prems by simp
    ultimately show ?thesis using IH Cons by (simp add: p_elems.simps [of d "enc x @ _"])
  qed
qed simp

lemma p_members_encode:
  assumes "ms \<noteq> []" and "\<And>k v. (k, v) \<in> set ms \<Longrightarrow> valid_utf8 k \<and> solid (enc v)"
    and "\<And>k v t. (k, v) \<in> set ms \<Longrightarrow> delim t \<Longrightarrow> p_value d (enc v @ t) = Some (v, t)"
  shows "p_members d (Join '','' (map (\<lambda>(k, v). json_quote k @ CHR '':'' # enc v) ms) @ CHR ''}'' # t)
    = Some (ms, t)"
  using assms
proof (induction ms)
  case (Cons m ms)
  obtain k v where m: "m = (k, v)" by fastforce
  have k: "p_string (quote_body k @ CHR 0x22 # u) = Some (k, u)" for u
    using Cons.prems(2) [of k v] m by (simp add: p_string_quote_body)
  have sol: "solid (enc v)" using Cons.prems(2) [of k v] m by simp
  have val: "p_value d (enc v @ u) = Some (v, u)" if "delim u" for u
    using Cons.prems(3) [of k v u] m that by simp
  show ?case
  proof (cases ms)
    case Nil
    then show ?thesis using m k sol val by (simp add: p_members.simps json_quote_def)
  next
    case more: (Cons m' ms')
    let ?s = "Join '','' (map (\<lambda>(k, v). json_quote k @ CHR '':'' # enc v) ms) @ CHR ''}'' # t"
    have IH: "p_members d ?s = Some (ms, t)"
    proof (rule Cons.IH)
      show "ms \<noteq> []" by (simp add: more)
      show "valid_utf8 k \<and> solid (enc v)" if "(k, v) \<in> set ms" for k v
        using that by (intro Cons.prems(2)) simp
      show "p_value d (enc v @ t) = Some (v, t)" if "(k, v) \<in> set ms" "delim t" for k v t
        using that by (intro Cons.prems(3) [of k]) simp_all
    qed
    have "skip_ws ?s = ?s"
      using more by (cases ms'; cases m') (simp_all add: json_quote_def skip_ws_def json_ws_def)
    then show ?thesis
      using IH more m k sol val [of "CHR '','' # ?s"]
      by (simp add: p_members.simps [of d "CHR 0x22 # _"] json_quote_def)
  qed
qed simp

lemma fold_max_ge: "m \<le> fold max xs (m :: nat)"
  by (induction xs arbitrary: m) (auto intro: order_trans [OF max.cobounded2])

lemma fold_max_le: "x \<in> set xs \<Longrightarrow> x \<le> fold max xs (m :: nat)"
  by (induction xs arbitrary: m) (auto intro: order_trans [OF max.cobounded1 fold_max_ge])

lemma p_value_Itoa: "delim t \<Longrightarrow> p_value d (Itoa n @ t) = Some (JNum (Itoa n), t)"
proof -
  assume "delim t"
  then have "p_number (Itoa n @ t) = Some (Itoa n, t)" by (rule p_number_Itoa)
  moreover obtain c cs where c: "Itoa n = c # cs" "is_digit c \<or> c = CHR ''-''"
  proof (cases "n < 0")
    case False
    then show thesis using that hd_show_nat [of "nat n"]
      by (cases "show_nat (nat n)") (auto simp: Itoa_def)
  qed (auto simp: Itoa_def)
  moreover have "c \<notin> {CHR ''{'', CHR ''['', CHR 0x22, CHR ''t'', CHR ''f'', CHR ''n''}"
    using c(2) by (auto simp: is_digit_def)
  ultimately show ?thesis by (simp add: p_value.simps [of d "c # _"])
qed

theorem p_value_encode:
  "wf_json v \<Longrightarrow> delim t \<Longrightarrow> d + json_depth v \<le> max_nesting \<Longrightarrow>
   p_value d (json_encode v @ t) = Some (v, t)"
proof (induction v arbitrary: d t)
  case JNull
  show ?case by (simp add: p_value.simps p_literal_def)
next
  case (JBool b)
  show ?case by (cases b) (simp_all add: p_value.simps p_literal_def)
next
  case (JNum l)
  then obtain n where "l = Itoa n" by auto
  then show ?case using p_value_Itoa JNum by simp
next
  case (JStr s)
  then show ?case
    by (simp add: p_value.simps json_quote_def p_string_quote_body)
next
  case (JArr xs)
  show ?case
  proof (cases "xs = []")
    case True
    then show ?thesis using JArr by (simp add: p_value.simps)
  next
    case False
    let ?s = "Join '','' (map json_encode xs) @ CHR '']'' # t"
    have "Suc d + json_depth x \<le> max_nesting" if "x \<in> set xs" for x
      using JArr.prems(3) fold_max_le [of "json_depth x" "map json_depth xs" 0] that by simp
    then have "p_elems (Suc d) ?s = Some (xs, t)"
      using False JArr by (intro p_elems_encode) (auto simp: list_all_iff solid_json_encode)
    moreover have "skip_ws ?s = ?s" "\<exists>c cs. ?s = c # cs \<and> c \<noteq> CHR '']''"
      using False JArr.prems(1) solid_json_encode [of "hd xs"]
      by (cases xs; cases "tl xs"; auto simp: solid_def split: list.splits)+
    ultimately show ?thesis using JArr.prems(3) by (auto simp: p_value.simps)
  qed
next
  case (JObj ms)
  show ?case
  proof (cases "ms = []")
    case True
    then show ?thesis using JObj by (simp add: p_value.simps)
  next
    case False
    let ?s = "Join '','' (map (\<lambda>(k, v). json_quote k @ CHR '':'' # json_encode v) ms) @ CHR ''}'' # t"
    have "Suc d + json_depth v \<le> max_nesting" if "(k, v) \<in> set ms" for k v
      using JObj.prems(3) fold_max_le [of "json_depth v" "map (\<lambda>(k, v). json_depth v) ms" 0] that
      by force
    then have "p_members (Suc d) ?s = Some (ms, t)"
      using False JObj by (intro p_members_encode) (force simp: list_all_iff solid_json_encode)+
    moreover have "skip_ws ?s = ?s" "\<exists>c cs. ?s = c # cs \<and> c \<noteq> CHR ''}''"
      using False
      by (cases ms; cases "tl ms"; auto simp: skip_ws_def json_ws_def json_quote_def split: prod.splits)+
    ultimately show ?thesis using JObj.prems(3) by (auto simp: p_value.simps)
  qed
qed

lemma json_unmarshal_encode:
  assumes "wf_json v" and "json_depth v \<le> max_nesting"
  shows "json_unmarshal (json_encode v) = Some v"
  using p_value_encode [OF assms(1), of "[]" 0] skip_ws_solid [OF solid_json_encode [OF assms(1)], of "[]"] assms(2)
  by (simp add: json_unmarshal_def skip_ws_def)

interpretation jsonc: codec json_encode json_unmarshal "\<lambda>v. wf_json v \<and> json_depth v \<le> max_nesting"
  by unfold_locales (simp add: json_unmarshal_encode)

lemma set_int_json_int [simp]: "in_int64 n \<Longrightarrow> set_int f (json_int n) r = Some (f n r)"
  by (simp add: set_int_def json_int_def Atoi_Itoa)

lemma set_str_JStr [simp]: "set_str f (JStr s) r = Some (f s r)"
  by (simp add: set_str_def)

lemma set_bool_JBool [simp]: "set_bool f (JBool b) r = Some (f b r)"
  by (simp add: set_bool_def)

end
