(* ===== verification/Go_Time.thy ===== *)
theory Go_Time
  imports Go_Strings
begin

text \<open>
  \<open>Time.Format(time.RFC3339)\<close>: the civil date of an instant in its location, by the usual division
  into eras of 400 years, and the text with four digits of the year and two of the other fields.
\<close>

definition civil_from_days :: "int \<Rightarrow> int \<times> int \<times> int" where
  "civil_from_days z0 =
     (let z = z0 + 719468;
          era = z div 146097;
          doe = z mod 146097;
          yoe = (doe - doe div 1460 + doe div 36524 - doe div 146096) div 365;
          doy = doe - (365 * yoe + yoe div 4 - yoe div 100);
          mp = (5 * doy + 2) div 153;
          d = doy - (153 * mp + 2) div 5 + 1;
          m = (if mp < 10 then mp + 3 else mp - 9)
      in (yoe + era * 400 + (if m \<le> 2 then 1 else 0), m, d))"

text \<open>\<open>appendInt\<close>: at least \<open>width\<close> digits, a minus sign in front of them.\<close>

definition zero_pad :: "nat \<Rightarrow> int \<Rightarrow> string" where
  "zero_pad width n =
     (let ds = show_nat (nat \<bar>n\<bar>) in
      (if n < 0 then ''-'' else []) @ replicate (width - length ds) CHR ''0'' @ ds)"

definition format_zone :: "int \<Rightarrow> string" where
  "format_zone offset =
     (if offset = 0 then ''Z''
      else let z = quot64 offset 60 in
        (if z < 0 then ''-'' else ''+'') @ zero_pad 2 (\<bar>z\<bar> div 60) @ '':'' @ zero_pad 2 (\<bar>z\<bar> mod 60))"

definition Format_RFC3339 :: "Time \<Rightarrow> string" where
  "Format_RFC3339 t =
     (let secs = ns t div ns_per_sec + zone t;
          (y, m, d) = civil_from_days (secs div 86400);
          sod = secs mod 86400
      in zero_pad 4 y @ ''-'' @ zero_pad 2 m @ ''-'' @ zero_pad 2 d @ ''T''
         @ zero_pad 2 (sod div 3600) @ '':'' @ zero_pad 2 (sod div 60 mod 60) @ '':'' @ zero_pad 2 (sod mod 60)
         @ format_zone (zone t))"

lemma zero_pad_ascii: "c \<in> set (zero_pad w n) \<Longrightarrow> byte_val c < 128"
  using show_nat_digits by (fastforce simp: zero_pad_def Let_def is_digit_def split: if_splits)

text \<open>The text is ASCII, so a JSON string carries it as it is.\<close>

lemma valid_utf8_Format_RFC3339 [simp]: "valid_utf8 (Format_RFC3339 t)"
proof (rule valid_utf8_ascii, rule ballI)
  fix c
  assume "c \<in> set (Format_RFC3339 t)"
  then show "byte_val c < 128"
    using zero_pad_ascii [of c]
    by (fastforce simp: Format_RFC3339_def format_zone_def Let_def split: if_splits prod.splits)
qed

lemma Format_RFC3339_zero: "Format_RFC3339 Time_zero = ''0001-01-01T00:00:00Z''"
  by code_simp

end
