(* ===== verification/Http.thy ===== *)
theory Http
  imports Json
begin

text \<open>
  What the program uses of packages \<open>net/http\<close>, \<open>net/url\<close> and \<open>context\<close>: header maps with
  canonical keys, requests, response writers, query strings, and handlers as functions from a
  request and the pair of the program's state and the response writer to the changed pair. The
  state carries what the program reads from its environment, the clock and the source of new
  UUIDs. The locale \<open>middleware\<close> is the contract of the functions that wrap a handler: they
  either answer the request themselves or call the next handler exactly once.
\<close>

section \<open>Headers\<close>

type_synonym header = "string \<rightharpoonup> string list"

definition token_byte :: "char \<Rightarrow> bool" where
  "token_byte c \<longleftrightarrow>
     (let b = byte_val c in
      48 \<le> b \<and> b \<le> 57 \<or> 65 \<le> b \<and> b \<le> 90 \<or> 97 \<le> b \<and> b \<le> 122
      \<or> b \<in> {33, 35, 36, 37, 38, 39, 42, 43, 45, 46, 94, 95, 96, 124, 126})"

fun canon_from :: "bool \<Rightarrow> string \<Rightarrow> string" where
  "canon_from up [] = []"
| "canon_from up (c # cs) = (if up then byte_upper c else byte_lower c) # canon_from (c = CHR ''-'') cs"

definition CanonicalHeaderKey :: "string \<Rightarrow> string" where
  "CanonicalHeaderKey k = (if list_all token_byte k then canon_from True k else k)"

definition Header_Get :: "header \<Rightarrow> string \<Rightarrow> string" where
  "Header_Get h k = (case h (CanonicalHeaderKey k) of Some (v # _) \<Rightarrow> v | _ \<Rightarrow> [])"

definition Header_Set :: "header \<Rightarrow> string \<Rightarrow> string \<Rightarrow> header" where
  "Header_Set h k v = h(CanonicalHeaderKey k \<mapsto> [v])"

definition Header_Add :: "header \<Rightarrow> string \<Rightarrow> string \<Rightarrow> header" where
  "Header_Add h k v =
     h(CanonicalHeaderKey k \<mapsto> (case h (CanonicalHeaderKey k) of None \<Rightarrow> [v] | Some vs \<Rightarrow> vs @ [v]))"

section \<open>Requests\<close>

text \<open>
  The context values under keys of the program's unexported type \<open>contextKey\<close>, which no other package
  can name. A value has a dynamic type; the program stores strings and values of its own string
  type \<open>AuthMethod\<close>.
\<close>

datatype ctx_value = CtxString string | CtxAuthMethod string

type_synonym ctx = "string \<rightharpoonup> ctx_value"

text \<open>
  \<open>Body\<close> is everything the client sends; \<open>BodyMax\<close> is the limit of an \<open>http.MaxBytesReader\<close>
  around it; \<open>URLParams\<close> are the path parameters the router found.
\<close>

record request =
  Method :: string
  URLPath :: string
  RawQuery :: string
  ReqHeader :: header
  Body :: string
  BodyMax :: "int option"
  ContentLength :: int
  RemoteAddr :: string
  Ctx :: ctx
  URLParams :: "string \<rightharpoonup> string"

definition URLParam :: "request \<Rightarrow> string \<Rightarrow> string" where
  "URLParam r k = (case URLParams r k of Some v \<Rightarrow> v | None \<Rightarrow> [])"

text \<open>What can be read from the body, and whether reading then fails because of the limit.\<close>

definition body_view :: "request \<Rightarrow> string \<times> bool" where
  "body_view r =
     (case BodyMax r of
        None \<Rightarrow> (Body r, False)
      | Some n \<Rightarrow> (take (nat n) (Body r), nat n < length (Body r)))"

text \<open>\<open>json.NewDecoder(r.Body).Decode(&v)\<close> for a struct.\<close>

definition decode_body :: "'r field list \<Rightarrow> request \<Rightarrow> 'r \<Rightarrow> 'r option" where
  "decode_body fs r z =
     (case json_decode (snd (body_view r)) (fst (body_view r)) of
        None \<Rightarrow> None
      | Some v \<Rightarrow> decode_struct fs v z)"

section \<open>Query strings\<close>

fun query_unescape :: "string \<Rightarrow> string option" where
  "query_unescape [] = Some []"
| "query_unescape (c # cs) =
     (if c = CHR ''%'' then
        (case cs of
           a # b # r \<Rightarrow>
             (case (hex_val a, hex_val b) of
                (Some x, Some y) \<Rightarrow> map_option (\<lambda>t. byte_of (16 * x + y) # t) (query_unescape r)
              | _ \<Rightarrow> None)
         | _ \<Rightarrow> None)
      else map_option (\<lambda>t. (if c = CHR ''+'' then CHR '' '' else c) # t) (query_unescape cs))"

definition query_pair :: "string \<Rightarrow> (string \<times> string) option" where
  "query_pair seg =
     (if seg = [] \<or> CHR '';'' \<in> set seg then None
      else case (query_unescape (takeWhile (\<lambda>c. c \<noteq> CHR ''='') seg),
                 query_unescape (tl (dropWhile (\<lambda>c. c \<noteq> CHR ''='') seg))) of
             (Some k, Some v) \<Rightarrow> Some (k, v)
           | _ \<Rightarrow> None)"

text \<open>\<open>URL.Query\<close>: the pairs in their order; malformed ones are dropped.\<close>

definition URL_Query :: "request \<Rightarrow> (string \<times> string) list" where
  "URL_Query r = List.map_filter query_pair (Split CHR ''&'' (RawQuery r))"

definition Query_Get :: "(string \<times> string) list \<Rightarrow> string \<Rightarrow> string" where
  "Query_Get q k = (case map_of q k of Some v \<Rightarrow> v | None \<Rightarrow> [])"

section \<open>Response writers\<close>

text \<open>
  The header map can change until \<open>WriteHeader\<close> sends the status and a copy of it; later calls
  and later changes have no effect. A first \<open>Write\<close> sends status 200.
\<close>

record rw =
  rw_header :: header
  rw_sent :: "(int \<times> header) option"
  rw_body :: string

definition rw_new :: rw where
  "rw_new = \<lparr>rw_header = Map.empty, rw_sent = None, rw_body = []\<rparr>"

definition SetHeader :: "string \<Rightarrow> string \<Rightarrow> rw \<Rightarrow> rw" where
  "SetHeader k v w = w\<lparr>rw_header := Header_Set (rw_header w) k v\<rparr>"

definition AddHeader :: "string \<Rightarrow> string \<Rightarrow> rw \<Rightarrow> rw" where
  "AddHeader k v w = w\<lparr>rw_header := Header_Add (rw_header w) k v\<rparr>"

definition WriteHeader :: "int \<Rightarrow> rw \<Rightarrow> rw" where
  "WriteHeader code w =
     (case rw_sent w of None \<Rightarrow> w\<lparr>rw_sent := Some (code, rw_header w)\<rparr> | Some _ \<Rightarrow> w)"

definition Write :: "string \<Rightarrow> rw \<Rightarrow> rw" where
  "Write bs w = (let w' = WriteHeader 200 w in w'\<lparr>rw_body := rw_body w' @ bs\<rparr>)"

text \<open>\<open>json.NewEncoder(w).Encode(v)\<close>.\<close>

definition EncodeTo :: "json \<Rightarrow> rw \<Rightarrow> rw" where
  "EncodeTo v = Write (json_encode v @ [CHR 0x0A])"

definition rw_status :: "rw \<Rightarrow> int option" where
  "rw_status w = map_option fst (rw_sent w)"

definition sent_header :: "rw \<Rightarrow> string \<Rightarrow> string" where
  "sent_header w k = (case rw_sent w of Some (_, h) \<Rightarrow> Header_Get h k | None \<Rightarrow> [])"

section \<open>The environment\<close>

type_synonym uuid = "128 word"

record env =
  clock :: "nat \<Rightarrow> Time"
  new_uuids :: "nat \<Rightarrow> uuid"

text \<open>\<open>time.Now\<close> and \<open>uuid.New\<close> take the next value of their source.\<close>

definition time_Now :: "'a env_scheme \<Rightarrow> Time \<times> 'a env_scheme" where
  "time_Now s = (clock s 0, s\<lparr>clock := \<lambda>i. clock s (Suc i)\<rparr>)"

definition uuid_New :: "'a env_scheme \<Rightarrow> uuid \<times> 'a env_scheme" where
  "uuid_New s = (new_uuids s 0, s\<lparr>new_uuids := \<lambda>i. new_uuids s (Suc i)\<rparr>)"

section \<open>Handlers and middleware\<close>

type_synonym 's handler = "request \<Rightarrow> 's \<times> rw \<Rightarrow> 's \<times> rw"

type_synonym 's gate = "request \<Rightarrow> 's \<times> rw \<Rightarrow> 's \<times> rw + request \<times> 's \<times> rw"

definition gate_seq :: "'s gate \<Rightarrow> 's gate \<Rightarrow> 's gate" where
  "gate_seq g1 g2 r sw = (case g1 r sw of Inl sw' \<Rightarrow> Inl sw' | Inr (r', sw') \<Rightarrow> g2 r' sw')"

locale middleware =
  fixes mw :: "'s handler \<Rightarrow> 's handler"
    and gate :: "'s gate"
  assumes mw_gate:
    "mw next r sw = (case gate r sw of Inl sw' \<Rightarrow> sw' | Inr (r', sw') \<Rightarrow> next r' sw')"
begin

lemma rejected: "gate r sw = Inl sw' \<Longrightarrow> mw next r sw = sw'"
  by (simp add: mw_gate)

lemma passed: "gate r sw = Inr (r', sw') \<Longrightarrow> mw next r sw = next r' sw'"
  by (simp add: mw_gate)

text \<open>
  A rule for pre- and postconditions: if what the gate answers itself satisfies the postcondition
  and what it passes on satisfies the precondition of the next handler, the wrapped handler is right.
\<close>

lemma wrapped:
  assumes "\<And>sw'. gate r sw = Inl sw' \<Longrightarrow> R sw'"
    and "\<And>r' sw'. gate r sw = Inr (r', sw') \<Longrightarrow> Q r' sw'"
    and "\<And>r sw. Q r sw \<Longrightarrow> R (next r sw)"
  shows "R (mw next r sw)"
proof (cases "gate r sw")
  case (Inl sw')
  then show ?thesis using assms(1) by (simp add: rejected)
next
  case (Inr x)
  then obtain r' sw' where x: "gate r sw = Inr (r', sw')" by (cases x) auto
  then show ?thesis using assms(3) [OF assms(2) [OF x]] by (simp add: passed)
qed

end

text \<open>Wrapping twice is again a middleware; the inner gate sees what the outer one passes on.\<close>

locale middleware_pair =
  outer: middleware mw1 gate1 + inner: middleware mw2 gate2
  for mw1 :: "'s handler \<Rightarrow> 's handler" and gate1 and mw2 :: "'s handler \<Rightarrow> 's handler" and gate2

sublocale middleware_pair \<subseteq> both: middleware "\<lambda>next. mw1 (mw2 next)" "gate_seq gate1 gate2"
  by unfold_locales
    (simp add: outer.mw_gate inner.mw_gate gate_seq_def split: sum.splits prod.splits)

section \<open>Lemmas on headers and writers\<close>

lemmas canonical_eval =
  CanonicalHeaderKey_def token_byte_def byte_upper_def byte_lower_def char_of_def bit_Suc_0_iff

text \<open>The names of the response headers that the program sets.\<close>

lemma canonical_names [simp]:
  "CanonicalHeaderKey ''X-RateLimit-Limit'' = ''X-Ratelimit-Limit''"
  "CanonicalHeaderKey ''X-RateLimit-Remaining'' = ''X-Ratelimit-Remaining''"
  "CanonicalHeaderKey ''X-RateLimit-Reset'' = ''X-Ratelimit-Reset''"
  "CanonicalHeaderKey ''Retry-After'' = ''Retry-After''"
  "CanonicalHeaderKey ''Content-Type'' = ''Content-Type''"
  "CanonicalHeaderKey ''X-Content-Type-Options'' = ''X-Content-Type-Options''"
  "CanonicalHeaderKey ''X-Frame-Options'' = ''X-Frame-Options''"
  "CanonicalHeaderKey ''X-XSS-Protection'' = ''X-Xss-Protection''"
  "CanonicalHeaderKey ''Strict-Transport-Security'' = ''Strict-Transport-Security''"
  "CanonicalHeaderKey ''Content-Security-Policy'' = ''Content-Security-Policy''"
  "CanonicalHeaderKey ''Referrer-Policy'' = ''Referrer-Policy''"
  "CanonicalHeaderKey ''Permissions-Policy'' = ''Permissions-Policy''"
  "CanonicalHeaderKey ''Cache-Control'' = ''Cache-Control''"
  by (simp_all add: canonical_eval)

lemma canonical_cors_names [simp]:
  "CanonicalHeaderKey ''Vary'' = ''Vary''"
  "CanonicalHeaderKey ''Origin'' = ''Origin''"
  "CanonicalHeaderKey ''Authorization'' = ''Authorization''"
  "CanonicalHeaderKey ''Access-Control-Allow-Origin'' = ''Access-Control-Allow-Origin''"
  "CanonicalHeaderKey ''Access-Control-Allow-Methods'' = ''Access-Control-Allow-Methods''"
  "CanonicalHeaderKey ''Access-Control-Allow-Headers'' = ''Access-Control-Allow-Headers''"
  "CanonicalHeaderKey ''Access-Control-Expose-Headers'' = ''Access-Control-Expose-Headers''"
  "CanonicalHeaderKey ''Access-Control-Allow-Credentials'' = ''Access-Control-Allow-Credentials''"
  "CanonicalHeaderKey ''Access-Control-Max-Age'' = ''Access-Control-Max-Age''"
  by (simp_all add: canonical_eval)

lemma Header_Get_Set:
  "Header_Get (Header_Set h k v) k' =
     (if CanonicalHeaderKey k' = CanonicalHeaderKey k then v else Header_Get h k')"
  by (simp add: Header_Get_def Header_Set_def)

lemma rw_new_simps [simp]: "rw_sent rw_new = None" "rw_body rw_new = []" "rw_header rw_new = Map.empty"
  by (simp_all add: rw_new_def)

lemma rw_header_SetHeader [simp]: "rw_header (SetHeader k v w) = Header_Set (rw_header w) k v"
  by (simp add: SetHeader_def)

lemma rw_sent_SetHeader [simp]: "rw_sent (SetHeader k v w) = rw_sent w"
  by (simp add: SetHeader_def)

lemma rw_body_SetHeader [simp]: "rw_body (SetHeader k v w) = rw_body w"
  by (simp add: SetHeader_def)

lemma rw_sent_WriteHeader [simp]:
  "rw_sent (WriteHeader code w) = (case rw_sent w of None \<Rightarrow> Some (code, rw_header w) | Some x \<Rightarrow> Some x)"
  by (simp add: WriteHeader_def split: option.splits)

lemma rw_header_WriteHeader [simp]: "rw_header (WriteHeader code w) = rw_header w"
  by (simp add: WriteHeader_def split: option.splits)

lemma rw_body_WriteHeader [simp]: "rw_body (WriteHeader code w) = rw_body w"
  by (simp add: WriteHeader_def split: option.splits)

lemma rw_sent_EncodeTo [simp]:
  "rw_sent (EncodeTo v w) = (case rw_sent w of None \<Rightarrow> Some (200, rw_header w) | Some x \<Rightarrow> Some x)"
  by (simp add: EncodeTo_def Write_def Let_def)

lemma rw_header_EncodeTo [simp]: "rw_header (EncodeTo v w) = rw_header w"
  by (simp add: EncodeTo_def Write_def Let_def)

lemma rw_body_EncodeTo [simp]: "rw_body (EncodeTo v w) = rw_body w @ json_encode v @ [CHR 0x0A]"
  by (simp add: EncodeTo_def Write_def Let_def)

end
