(* ===== verification/Auth.thy ===== *)
theory Auth
  imports Http Base64url Sha256
begin

text \<open>
  The authentication middleware, \<open>src/shared/go/middleware/auth.go\<close>, and the parser of the API key
  configuration, \<open>src/shared/go/middleware/helpers.go\<close>: \<open>Auth\<close> and \<open>RequireRole\<close>, the context
  accessors, the JWT validator and issuer, and the API key lookup. Logging is left out: it does not
  change the answer. \<open>time.Now\<close> is an argument of the validator; \<open>Auth\<close> and \<open>CreateJWT\<close> take it from
  the state. The lemmas characterise the validator, show that a created token validates, and state
  what a request that reaches the next handler has proved.
\<close>

section \<open>Data\<close>

definition ContextKeySubject :: string where
  "ContextKeySubject = ''auth.subject''"

definition ContextKeyRole :: string where
  "ContextKeyRole = ''auth.role''"

definition ContextKeyAuthMethod :: string where
  "ContextKeyAuthMethod = ''auth.method''"

definition AuthMethodJWT :: string where
  "AuthMethodJWT = ''jwt''"

definition AuthMethodAPIKey :: string where
  "AuthMethodAPIKey = ''api_key''"

record JWTClaims =
  claim_Subject :: string
  claim_Role :: string
  claim_IssuedAt :: int
  claim_ExpiresAt :: int
  claim_NotBefore :: int
  claim_Issuer :: string
  claim_JTI :: string

record APIKeyEntry =
  key_Key :: string
  key_Subject :: string
  key_Role :: string

record AuthConfig =
  JWTSecret :: string
  JWTIssuer :: string
  APIKeys :: "APIKeyEntry list"
  SkipPaths :: "string list"

record jwt_header =
  hdr_Alg :: string
  hdr_Typ :: string

datatype jwt_error =
    InvalidFormat
  | HeaderEncoding
  | HeaderJSON
  | AlgNone
  | AlgUnsupported string
  | SignatureEncoding
  | SignatureMismatch
  | ClaimsEncoding
  | ClaimsJSON
  | Expired int int
  | NotYetValid int int
  | IssuerMismatch string string
  | MissingSubject

section \<open>Answers\<close>

definition writeAuthError :: "int \<Rightarrow> string \<Rightarrow> rw \<Rightarrow> rw" where
  "writeAuthError status message w =
     EncodeTo (JObj [(''error'', JStr message)])
       (WriteHeader status (SetHeader ''Content-Type'' ''application/json'' w))"

section \<open>Tokens\<close>

definition base64URLDecode :: "string \<Rightarrow> string option" where
  "base64URLDecode s =
     URLDecodeString
       (if length s mod 4 = 2 then s @ ''=='' else if length s mod 4 = 3 then s @ ''='' else s)"

definition header_fields :: "jwt_header field list" where
  "header_fields =
     [(''alg'', set_str (\<lambda>v h. h\<lparr>hdr_Alg := v\<rparr>)), (''typ'', set_str (\<lambda>v h. h\<lparr>hdr_Typ := v\<rparr>))]"

definition header_zero :: jwt_header where
  "header_zero = \<lparr>hdr_Alg = [], hdr_Typ = []\<rparr>"

definition claims_fields :: "JWTClaims field list" where
  "claims_fields =
     [(''sub'', set_str (\<lambda>v c. c\<lparr>claim_Subject := v\<rparr>)),
      (''role'', set_str (\<lambda>v c. c\<lparr>claim_Role := v\<rparr>)),
      (''iat'', set_int (\<lambda>v c. c\<lparr>claim_IssuedAt := v\<rparr>)),
      (''exp'', set_int (\<lambda>v c. c\<lparr>claim_ExpiresAt := v\<rparr>)),
      (''nbf'', set_int (\<lambda>v c. c\<lparr>claim_NotBefore := v\<rparr>)),
      (''iss'', set_str (\<lambda>v c. c\<lparr>claim_Issuer := v\<rparr>)),
      (''jti'', set_str (\<lambda>v c. c\<lparr>claim_JTI := v\<rparr>))]"

definition claims_zero :: JWTClaims where
  "claims_zero =
     \<lparr>claim_Subject = [], claim_Role = [], claim_IssuedAt = 0, claim_ExpiresAt = 0,
      claim_NotBefore = 0, claim_Issuer = [], claim_JTI = []\<rparr>"

definition unmarshal_struct :: "'r field list \<Rightarrow> string \<Rightarrow> 'r \<Rightarrow> 'r option" where
  "unmarshal_struct fs s z =
     (case json_unmarshal s of None \<Rightarrow> None | Some v \<Rightarrow> decode_struct fs v z)"

definition check_claims :: "JWTClaims \<Rightarrow> string \<Rightarrow> int \<Rightarrow> jwt_error + JWTClaims" where
  "check_claims claims expectedIssuer now =
     (if claim_ExpiresAt claims > 0 \<and> now > claim_ExpiresAt claims
        then Inl (Expired (claim_ExpiresAt claims) now)
      else if claim_NotBefore claims > 0 \<and> now < claim_NotBefore claims
        then Inl (NotYetValid (claim_NotBefore claims) now)
      else if expectedIssuer \<noteq> [] \<and> claim_Issuer claims \<noteq> expectedIssuer
        then Inl (IssuerMismatch (claim_Issuer claims) expectedIssuer)
      else if claim_Subject claims = [] then Inl MissingSubject
      else Inr claims)"

text \<open>The part of \<open>validateJWT\<close> before the clock is read: the format, the algorithm, the signature, the claims.\<close>

definition verified_claims :: "string \<Rightarrow> string \<Rightarrow> jwt_error + JWTClaims" where
  "verified_claims tokenString secret =
     (case Split CHR ''.'' tokenString of
        [p0, p1, p2] \<Rightarrow>
          (case base64URLDecode p0 of
             None \<Rightarrow> Inl HeaderEncoding
           | Some headerJSON \<Rightarrow>
          (case unmarshal_struct header_fields headerJSON header_zero of
             None \<Rightarrow> Inl HeaderJSON
           | Some header \<Rightarrow>
             if EqualFold_ascii (hdr_Alg header) ''none'' then Inl AlgNone
             else if hdr_Alg header \<noteq> ''HS256'' then Inl (AlgUnsupported (hdr_Alg header))
             else
          (let signingInput = p0 @ ''.'' @ p1 in
           case base64URLDecode p2 of
             None \<Rightarrow> Inl SignatureEncoding
           | Some signature \<Rightarrow>
             if ConstantTimeCompare signature (hmac_sha256 secret signingInput) \<noteq> 1
             then Inl SignatureMismatch
             else
          (case base64URLDecode p1 of
             None \<Rightarrow> Inl ClaimsEncoding
           | Some claimsJSON \<Rightarrow>
          (case unmarshal_struct claims_fields claimsJSON claims_zero of
             None \<Rightarrow> Inl ClaimsJSON
           | Some claims \<Rightarrow> Inr claims)))))
      | _ \<Rightarrow> Inl InvalidFormat)"

definition validateJWT :: "string \<Rightarrow> string \<Rightarrow> string \<Rightarrow> 'a env_scheme \<Rightarrow> (jwt_error + JWTClaims) \<times> 'a env_scheme" where
  "validateJWT tokenString secret expectedIssuer s =
     (case verified_claims tokenString secret of
        Inl err \<Rightarrow> (Inl err, s)
      | Inr claims \<Rightarrow> let (now, s') = time_Now s in (check_claims claims expectedIssuer (Time_Unix now), s'))"

definition claims_json :: "JWTClaims \<Rightarrow> json" where
  "claims_json c =
     JObj ([(''sub'', JStr (claim_Subject c)), (''role'', JStr (claim_Role c)),
            (''iat'', json_int (claim_IssuedAt c)), (''exp'', json_int (claim_ExpiresAt c))]
           @ (if claim_NotBefore c = 0 then [] else [(''nbf'', json_int (claim_NotBefore c))])
           @ [(''iss'', JStr (claim_Issuer c))]
           @ (if claim_JTI c = [] then [] else [(''jti'', JStr (claim_JTI c))]))"

definition jwt_header_json :: json where
  "jwt_header_json = JObj [(''alg'', JStr ''HS256''), (''typ'', JStr ''JWT'')]"

definition sign_jwt :: "string \<Rightarrow> JWTClaims \<Rightarrow> string" where
  "sign_jwt secret claims =
     (let headerB64 = RawURLEncode (json_encode jwt_header_json);
          claimsB64 = RawURLEncode (json_encode (claims_json claims));
          signingInput = headerB64 @ ''.'' @ claimsB64;
          sigB64 = RawURLEncode (hmac_sha256 secret signingInput)
      in signingInput @ ''.'' @ sigB64)"

definition created_claims :: "string \<Rightarrow> string \<Rightarrow> string \<Rightarrow> duration \<Rightarrow> Time \<Rightarrow> JWTClaims" where
  "created_claims subject role issuer dur now =
     \<lparr>claim_Subject = subject, claim_Role = role, claim_IssuedAt = Time_Unix now,
      claim_ExpiresAt = Time_Unix (Time_Add now dur), claim_NotBefore = Time_Unix now,
      claim_Issuer = issuer, claim_JTI = []\<rparr>"

text \<open>
  Marshalling a map of strings and a struct of strings and integers cannot fail, so the two
  error returns of \<open>CreateJWT\<close> are never taken.
\<close>

definition CreateJWT :: "string \<Rightarrow> string \<Rightarrow> string \<Rightarrow> string \<Rightarrow> duration \<Rightarrow> 'a env_scheme \<Rightarrow>
    (string + string) \<times> 'a env_scheme" where
  "CreateJWT secret subject role issuer dur s =
     (let (now, s') = time_Now s in
      (Inr (sign_jwt secret (created_claims subject role issuer dur now)), s'))"

section \<open>API keys\<close>

fun last_match :: "string \<Rightarrow> APIKeyEntry list \<Rightarrow> APIKeyEntry option \<Rightarrow> APIKeyEntry option" where
  "last_match key [] matched = matched"
| "last_match key (e # es) matched =
     last_match key es (if ConstantTimeCompare key (key_Key e) = 1 then Some e else matched)"

definition validateAPIKey :: "string \<Rightarrow> APIKeyEntry list \<Rightarrow> APIKeyEntry option" where
  "validateAPIKey key keys = last_match key keys None"

fun ParseAPIKeyEntries :: "string list \<Rightarrow> APIKeyEntry list" where
  "ParseAPIKeyEntries [] = []"
| "ParseAPIKeyEntries (entry # entries) =
     (case SplitN CHR '':'' 3 entry of
        [k, s, r] \<Rightarrow>
          \<lparr>key_Key = TrimSpace k, key_Subject = TrimSpace s, key_Role = TrimSpace r\<rparr>
            # ParseAPIKeyEntries entries
      | _ \<Rightarrow> ParseAPIKeyEntries entries)"

section \<open>The middleware\<close>

definition with_identity :: "string \<Rightarrow> string \<Rightarrow> string \<Rightarrow> request \<Rightarrow> request" where
  "with_identity subject role meth r =
     r\<lparr>Ctx := (Ctx r)(ContextKeySubject \<mapsto> CtxString subject, ContextKeyRole \<mapsto> CtxString role,
                     ContextKeyAuthMethod \<mapsto> CtxAuthMethod meth)\<rparr>"

definition Auth :: "AuthConfig \<Rightarrow> 'a env_scheme handler \<Rightarrow> 'a env_scheme handler" where
  "Auth cfg next r sw =
     (if URLPath r \<in> set (SkipPaths cfg) then next r sw
      else
        let (s, w) = sw; authHeader = Header_Get (ReqHeader r) ''Authorization'' in
        if authHeader = [] then (s, writeAuthError 401 ''missing Authorization header'' w)
        else case SplitN CHR '' '' 2 authHeader of
          [scheme, credential] \<Rightarrow>
            if ToLower scheme = ''bearer'' then
              (if JWTSecret cfg = [] then (s, writeAuthError 401 ''JWT authentication not configured'' w)
               else case validateJWT credential (JWTSecret cfg) (JWTIssuer cfg) s of
                   (Inl _, s') \<Rightarrow> (s', writeAuthError 401 ''invalid or expired token'' w)
                 | (Inr claims, s') \<Rightarrow>
                     next (with_identity (claim_Subject claims) (claim_Role claims) AuthMethodJWT r) (s', w))
            else if ToLower scheme = ''apikey'' then
              (if APIKeys cfg = [] then (s, writeAuthError 401 ''API key authentication not configured'' w)
               else case validateAPIKey credential (APIKeys cfg) of
                   None \<Rightarrow> (s, writeAuthError 401 ''invalid API key'' w)
                 | Some entry \<Rightarrow>
                     next (with_identity (key_Subject entry) (key_Role entry) AuthMethodAPIKey r) (s, w))
            else (s, writeAuthError 401 (''unsupported auth scheme: '' @ scheme) w)
        | _ \<Rightarrow> (s, writeAuthError 401 ''malformed Authorization header'' w))"

definition ctx_string :: "ctx \<Rightarrow> string \<Rightarrow> string" where
  "ctx_string c k = (case c k of Some (CtxString s) \<Rightarrow> s | _ \<Rightarrow> [])"

definition SubjectFromContext :: "ctx \<Rightarrow> string" where
  "SubjectFromContext c = ctx_string c ContextKeySubject"

definition RoleFromContext :: "ctx \<Rightarrow> string" where
  "RoleFromContext c = ctx_string c ContextKeyRole"

definition AuthMethodFromContext :: "ctx \<Rightarrow> string" where
  "AuthMethodFromContext c = (case c ContextKeyAuthMethod of Some (CtxAuthMethod m) \<Rightarrow> m | _ \<Rightarrow> [])"

definition RequireRole :: "string list \<Rightarrow> 's handler \<Rightarrow> 's handler" where
  "RequireRole roles next r sw =
     (if ctx_string (Ctx r) ContextKeyRole \<notin> set roles
      then (fst sw, writeAuthError 403 ''insufficient permissions'' (snd sw))
      else next r sw)"

section \<open>Decoding what was encoded\<close>

lemma base64URLDecode_encode [simp]: "base64URLDecode (RawURLEncode xs) = Some xs"
proof -
  have "base64URLDecode (RawURLEncode xs) =
      URLDecodeString (RawURLEncode xs @ b64_pad (length (RawURLEncode xs)))"
    by (simp add: base64URLDecode_def b64_pad_def)
  then show ?thesis by (simp add: URLDecodeString_encode)
qed

lemma fold_claim_names [simp]:
  "fold_name ''sub'' = ''SUB''" "fold_name ''role'' = ''ROLE''" "fold_name ''iat'' = ''IAT''"
  "fold_name ''exp'' = ''EXP''" "fold_name ''nbf'' = ''NBF''" "fold_name ''iss'' = ''ISS''"
  "fold_name ''jti'' = ''JTI''" "fold_name ''alg'' = ''ALG''" "fold_name ''typ'' = ''TYP''"
  by code_simp+

lemma valid_utf8_claim_names [simp]:
  "valid_utf8 ''sub''" "valid_utf8 ''role''" "valid_utf8 ''iat''" "valid_utf8 ''exp''"
  "valid_utf8 ''nbf''" "valid_utf8 ''iss''" "valid_utf8 ''jti''" "valid_utf8 ''alg''"
  "valid_utf8 ''typ''" "valid_utf8 ''HS256''" "valid_utf8 ''JWT''"
  by (rule valid_utf8_ascii, simp)+

lemma unmarshal_header:
  "unmarshal_struct header_fields (json_encode jwt_header_json) header_zero =
     Some \<lparr>hdr_Alg = ''HS256'', hdr_Typ = ''JWT''\<rparr>"
proof -
  have "wf_json jwt_header_json" "json_depth jwt_header_json \<le> max_nesting"
    by (simp_all add: jwt_header_json_def max_nesting_def)
  then have "json_unmarshal (json_encode jwt_header_json) = Some jwt_header_json"
    by (rule json_unmarshal_encode)
  moreover have "decode_struct header_fields jwt_header_json header_zero =
      Some \<lparr>hdr_Alg = ''HS256'', hdr_Typ = ''JWT''\<rparr>"
    by (simp add: jwt_header_json_def decode_struct_def header_fields_def header_zero_def)
  ultimately show ?thesis by (simp add: unmarshal_struct_def)
qed

text \<open>Claims that JSON can carry: valid UTF-8 and 64-bit numbers.\<close>

definition wf_claims :: "JWTClaims \<Rightarrow> bool" where
  "wf_claims c \<longleftrightarrow>
     valid_utf8 (claim_Subject c) \<and> valid_utf8 (claim_Role c) \<and> valid_utf8 (claim_Issuer c)
     \<and> valid_utf8 (claim_JTI c) \<and> in_int64 (claim_IssuedAt c) \<and> in_int64 (claim_ExpiresAt c)
     \<and> in_int64 (claim_NotBefore c)"

lemma json_depth_json_int [simp]: "json_depth (json_int n) = 0"
  by (simp add: json_int_def)

lemma unmarshal_claims:
  assumes "wf_claims c"
  shows "unmarshal_struct claims_fields (json_encode (claims_json c)) claims_zero = Some c"
proof -
  have "wf_json (claims_json c)" "json_depth (claims_json c) \<le> max_nesting"
    using assms by (simp_all add: claims_json_def wf_claims_def max_nesting_def)
  then have "json_unmarshal (json_encode (claims_json c)) = Some (claims_json c)"
    by (rule json_unmarshal_encode)
  moreover have "decode_struct claims_fields (claims_json c) claims_zero = Some c"
    using assms by (simp add: claims_json_def decode_struct_def claims_fields_def claims_zero_def wf_claims_def)
  ultimately show ?thesis by (simp add: unmarshal_struct_def)
qed

lemma Split_sign_jwt:
  "Split CHR ''.'' (sign_jwt secret c) =
     [RawURLEncode (json_encode jwt_header_json), RawURLEncode (json_encode (claims_json c)),
      RawURLEncode (hmac_sha256 secret
        (RawURLEncode (json_encode jwt_header_json) @ ''.'' @ RawURLEncode (json_encode (claims_json c))))]"
  by (simp add: sign_jwt_def Let_def Split_append_sep Split_no_sep dot_notin_RawURLEncode)

text \<open>A signed token is judged by its claims alone.\<close>

lemma validateJWT_sign:
  assumes "wf_claims c"
  shows "fst (validateJWT (sign_jwt secret c) secret iss s) = check_claims c iss (Time_Unix (clock s 0))"
proof -
  have "\<not> EqualFold_ascii ''HS256'' ''none''" by code_simp
  then show ?thesis
    unfolding validateJWT_def verified_claims_def Split_sign_jwt
    by (simp add: unmarshal_header unmarshal_claims [OF assms] ConstantTimeCompare_eq time_Now_def)
qed

section \<open>What the validator accepts\<close>

lemma check_claims_Inr:
  "check_claims c iss now = Inr c' \<longleftrightarrow>
     c' = c \<and> (claim_ExpiresAt c \<le> 0 \<or> now \<le> claim_ExpiresAt c)
     \<and> (claim_NotBefore c \<le> 0 \<or> claim_NotBefore c \<le> now)
     \<and> (iss = [] \<or> claim_Issuer c = iss) \<and> claim_Subject c \<noteq> []"
  by (auto simp: check_claims_def)

lemma check_claims_same: "check_claims c iss now = Inr c' \<Longrightarrow> c' = c"
  by (simp add: check_claims_Inr)

lemma Split_three:
  "Split c s = [p0, p1, p2] \<longleftrightarrow>
     s = p0 @ [c] @ p1 @ [c] @ p2 \<and> c \<notin> set p0 \<and> c \<notin> set p1 \<and> c \<notin> set p2"
proof
  assume sp: "Split c s = [p0, p1, p2]"
  then have "c \<notin> set p0" "c \<notin> set p1" "c \<notin> set p2" using Split_parts [of _ c s] by auto
  then show "s = p0 @ [c] @ p1 @ [c] @ p2 \<and> c \<notin> set p0 \<and> c \<notin> set p1 \<and> c \<notin> set p2"
    using Join_Split [of c s] sp by simp
next
  assume "s = p0 @ [c] @ p1 @ [c] @ p2 \<and> c \<notin> set p0 \<and> c \<notin> set p1 \<and> c \<notin> set p2"
  then show "Split c s = [p0, p1, p2]" by (simp add: Split_append_sep Split_no_sep)
qed

lemma not_EqualFold_HS256: "\<not> EqualFold_ascii ''HS256'' ''none''"
  by code_simp

lemma verified_claims_parts:
  "verified_claims token secret = Inr c \<longleftrightarrow>
     (\<exists>h p sg hj hd cj.
        Split CHR ''.'' token = [h, p, sg] \<and> base64URLDecode h = Some hj
        \<and> unmarshal_struct header_fields hj header_zero = Some hd \<and> hdr_Alg hd = ''HS256''
        \<and> base64URLDecode sg = Some (hmac_sha256 secret (h @ ''.'' @ p))
        \<and> base64URLDecode p = Some cj \<and> unmarshal_struct claims_fields cj claims_zero = Some c)" (is "?L \<longleftrightarrow> ?R")
proof
  assume ?L
  then show ?R
    by (auto simp: verified_claims_def Let_def ConstantTimeCompare_eq
        split: list.splits option.splits if_splits)
next
  assume ?R
  then show ?L
    by (auto simp: verified_claims_def ConstantTimeCompare_eq not_EqualFold_HS256)
qed

lemma fst_validateJWT:
  "fst (validateJWT token secret iss s) = Inr c \<longleftrightarrow>
     verified_claims token secret = Inr c \<and> check_claims c iss (Time_Unix (clock s 0)) = Inr c"
  by (auto simp: validateJWT_def time_Now_def check_claims_Inr split: sum.splits)

text \<open>
  C7. The validator accepts exactly the tokens of three parts whose header names HS256, whose
  signature is the HMAC of the first two parts under the secret, and whose payload decodes to
  claims that are not expired (an expiry of 0 or less never expires), not used before their
  time, from the expected issuer if there is one, and with a subject; the result is those claims.
\<close>

theorem validateJWT_iff:
  "fst (validateJWT token secret iss s) = Inr c \<longleftrightarrow>
     (\<exists>h p sg hj hd cj.
        token = h @ ''.'' @ p @ ''.'' @ sg \<and> CHR ''.'' \<notin> set h \<and> CHR ''.'' \<notin> set p \<and> CHR ''.'' \<notin> set sg
        \<and> base64URLDecode h = Some hj
        \<and> unmarshal_struct header_fields hj header_zero = Some hd \<and> hdr_Alg hd = ''HS256''
        \<and> base64URLDecode sg = Some (hmac_sha256 secret (h @ ''.'' @ p))
        \<and> base64URLDecode p = Some cj \<and> unmarshal_struct claims_fields cj claims_zero = Some c
        \<and> (claim_ExpiresAt c \<le> 0 \<or> Time_Unix (clock s 0) \<le> claim_ExpiresAt c)
        \<and> (claim_NotBefore c \<le> 0 \<or> claim_NotBefore c \<le> Time_Unix (clock s 0))
        \<and> (iss = [] \<or> claim_Issuer c = iss) \<and> claim_Subject c \<noteq> [])"
  unfolding fst_validateJWT verified_claims_parts Split_three check_claims_Inr by (simp only: HOL.ex_simps conj_assoc simp_thms) blast

text \<open>
  C10. A token of \<open>CreateJWT\<close> is accepted, with the claims it was created with, by every validator
  that has the secret and expects the issuer or none, from the second of its creation to the
  second of its expiry, provided its strings are valid UTF-8 and the subject is not empty.
\<close>

theorem CreateJWT_validates:
  assumes "subject \<noteq> []" and "valid_utf8 subject" and "valid_utf8 role" and "valid_utf8 issuer"
    and "iss = [] \<or> iss = issuer"
    and "Time_Unix (clock s 0) \<le> Time_Unix (clock t 0)"
    and "Time_Unix (clock t 0) \<le> Time_Unix (Time_Add (clock s 0) dur)"
  shows "\<exists>token. fst (CreateJWT secret subject role issuer dur s) = Inr token \<and>
    fst (validateJWT token secret iss t) = Inr (created_claims subject role issuer dur (clock s 0))"
proof -
  let ?c = "created_claims subject role issuer dur (clock s 0)"
  have "wf_claims ?c" using assms by (simp add: wf_claims_def created_claims_def)
  moreover have "check_claims ?c iss (Time_Unix (clock t 0)) = Inr ?c"
    using assms by (auto simp: check_claims_Inr created_claims_def)
  ultimately show ?thesis
    by (simp add: CreateJWT_def time_Now_def validateJWT_sign)
qed

definition demo_env :: env where
  "demo_env = \<lparr>clock = \<lambda>_. \<lparr>ns = 1700000000 * 1000000000, zone = 0\<rparr>, new_uuids = \<lambda>i. of_nat i\<rparr>"

theorem CreateJWT_validates_witness:
  "\<exists>token. fst (CreateJWT ''round-trip-secret'' ''svc-123'' ''service'' ''quantun'' (300 * Second) demo_env)
      = Inr token \<and>
    fst (validateJWT token ''round-trip-secret'' ''quantun'' demo_env) =
      Inr (created_claims ''svc-123'' ''service'' ''quantun'' (300 * Second) (clock demo_env 0))"
proof -
  have "Time_Unix (clock demo_env 0) \<le> Time_Unix (Time_Add (clock demo_env 0) (300 * Second))"
    by (simp add: demo_env_def Time_Unix_def Time_Add_def ns_per_sec_def wrap64_eq)
  moreover have "valid_utf8 ''svc-123''" "valid_utf8 ''service''" "valid_utf8 ''quantun''"
    by (rule valid_utf8_ascii, simp)+
  ultimately show ?thesis
    using CreateJWT_validates [of "''svc-123''" "''service''" "''quantun''" "''quantun''" demo_env
        demo_env "300 * Second" "''round-trip-secret''"]
    by simp
qed

section \<open>API keys: lemmas\<close>

lemma last_match_find:
  "last_match key keys m =
     (case List.find (\<lambda>e. key_Key e = key) (rev keys) of Some e \<Rightarrow> Some e | None \<Rightarrow> m)"
proof (induction keys arbitrary: m)
  case (Cons e es)
  have "List.find P (xs @ [x]) = (case List.find P xs of Some y \<Rightarrow> Some y | None \<Rightarrow> if P x then Some x else None)"
    for P xs and x :: APIKeyEntry
    by (induction xs) auto
  then show ?case using Cons by (auto simp: ConstantTimeCompare_eq split: option.splits)
qed simp

text \<open>
  The API key lookup returns the last configured entry with exactly the given key, and
  nothing if there is none: where a key is configured twice, the later entry decides the identity.
\<close>

theorem validateAPIKey_last:
  "validateAPIKey key keys = List.find (\<lambda>e. key_Key e = key) (rev keys)"
  by (simp add: validateAPIKey_def last_match_find split: option.splits)

lemma find_SomeD: "List.find P xs = Some x \<Longrightarrow> x \<in> set xs \<and> P x"
  by (induction xs) (auto split: if_splits)

lemma validateAPIKey_Some:
  "validateAPIKey key keys = Some e \<Longrightarrow> e \<in> set keys \<and> key_Key e = key"
  unfolding validateAPIKey_def last_match_find
  by (auto split: option.splits dest: find_SomeD)

text \<open>The configuration format of one entry.\<close>

definition format_entry :: "APIKeyEntry \<Rightarrow> string" where
  "format_entry e = key_Key e @ '':'' @ key_Subject e @ '':'' @ key_Role e"

text \<open>Entries that the format can carry: a role may contain colons, a key and a subject may not.\<close>

definition plain_entry :: "APIKeyEntry \<Rightarrow> bool" where
  "plain_entry e \<longleftrightarrow> CHR '':'' \<notin> set (key_Key e) \<and> CHR '':'' \<notin> set (key_Subject e)
     \<and> TrimSpace (key_Key e) = key_Key e \<and> TrimSpace (key_Subject e) = key_Subject e
     \<and> TrimSpace (key_Role e) = key_Role e"

lemma ParseAPIKeyEntries_format_entry:
  "\<forall>e \<in> set es. plain_entry e \<Longrightarrow> ParseAPIKeyEntries (map format_entry es) = es"
proof (induction es)
  case (Cons e es)
  have "SplitN CHR '':'' 3 (format_entry e) = [key_Key e, key_Subject e, key_Role e]"
    using Cons.prems
    by (simp add: plain_entry_def format_entry_def numeral_3_eq_3 SplitN_append del: SplitN.simps(3))
  then show ?case using Cons by (simp add: plain_entry_def)
qed simp

section \<open>The middleware as a gate\<close>

text \<open>
  The identity that an Authorization header proves, or the message of the refusal: the abstract
  view of \<open>Auth\<close>. A clock reading is consumed exactly when the claims of a token are judged.
\<close>

definition token_claims :: "string \<Rightarrow> string \<Rightarrow> string \<Rightarrow> Time \<Rightarrow> JWTClaims option" where
  "token_claims token secret iss now =
     (case verified_claims token secret of
        Inl _ \<Rightarrow> None
      | Inr c \<Rightarrow> (case check_claims c iss (Time_Unix now) of Inl _ \<Rightarrow> None | Inr c' \<Rightarrow> Some c'))"

lemma validateJWT_eq:
  "validateJWT token secret iss s =
     (case verified_claims token secret of
        Inl err \<Rightarrow> (Inl err, s)
      | Inr c \<Rightarrow> (check_claims c iss (Time_Unix (clock s 0)), snd (time_Now s)))"
  by (simp add: validateJWT_def time_Now_def split: sum.splits)

definition identify :: "AuthConfig \<Rightarrow> string \<Rightarrow> Time \<Rightarrow> string + string \<times> string \<times> string" where
  "identify cfg authHeader now =
     (if authHeader = [] then Inl ''missing Authorization header''
      else if CHR '' '' \<notin> set authHeader then Inl ''malformed Authorization header''
      else
        let scheme = takeWhile (\<lambda>x. x \<noteq> CHR '' '') authHeader;
            credential = tl (dropWhile (\<lambda>x. x \<noteq> CHR '' '') authHeader)
        in if ToLower scheme = ''bearer'' then
             (if JWTSecret cfg = [] then Inl ''JWT authentication not configured''
              else case token_claims credential (JWTSecret cfg) (JWTIssuer cfg) now of
                     None \<Rightarrow> Inl ''invalid or expired token''
                   | Some c \<Rightarrow> Inr (claim_Subject c, claim_Role c, AuthMethodJWT))
           else if ToLower scheme = ''apikey'' then
             (if APIKeys cfg = [] then Inl ''API key authentication not configured''
              else case validateAPIKey credential (APIKeys cfg) of
                     None \<Rightarrow> Inl ''invalid API key''
                   | Some e \<Rightarrow> Inr (key_Subject e, key_Role e, AuthMethodAPIKey))
           else Inl (''unsupported auth scheme: '' @ scheme))"

definition reads_clock :: "AuthConfig \<Rightarrow> string \<Rightarrow> bool" where
  "reads_clock cfg authHeader \<longleftrightarrow>
     CHR '' '' \<in> set authHeader \<and> ToLower (takeWhile (\<lambda>x. x \<noteq> CHR '' '') authHeader) = ''bearer''
     \<and> JWTSecret cfg \<noteq> []
     \<and> (case verified_claims (tl (dropWhile (\<lambda>x. x \<noteq> CHR '' '') authHeader)) (JWTSecret cfg) of
           Inl _ \<Rightarrow> False | Inr _ \<Rightarrow> True)"

definition auth_gate :: "AuthConfig \<Rightarrow> 'a env_scheme gate" where
  "auth_gate cfg r sw =
     (if URLPath r \<in> set (SkipPaths cfg) then Inr (r, sw)
      else
        let h = Header_Get (ReqHeader r) ''Authorization'';
            s' = (if reads_clock cfg h then snd (time_Now (fst sw)) else fst sw)
        in case identify cfg h (clock (fst sw) 0) of
             Inl m \<Rightarrow> Inl (s', writeAuthError 401 m (snd sw))
           | Inr (sub, role, meth) \<Rightarrow> Inr (with_identity sub role meth r, s', snd sw))"

lemma Auth_gate_eq:
  "Auth cfg next r sw = (case auth_gate cfg r sw of Inl sw' \<Rightarrow> sw' | Inr (r', sw') \<Rightarrow> next r' sw')"
proof (cases "URLPath r \<in> set (SkipPaths cfg)")
  case True
  then show ?thesis by (simp add: Auth_def auth_gate_def)
next
  case False
  obtain s w where sw: "sw = (s, w)" by fastforce
  define h where "h = Header_Get (ReqHeader r) ''Authorization''"
  let ?sch = "ToLower (takeWhile (\<lambda>x. x \<noteq> CHR '' '') h)"
  note defs = Auth_def auth_gate_def identify_def reads_clock_def SplitN_2 validateJWT_eq token_claims_def Let_def
  consider "CHR '' '' \<notin> set h" | "CHR '' '' \<in> set h" "?sch = ''bearer''"
    | "CHR '' '' \<in> set h" "?sch \<noteq> ''bearer''" by blast
  then show ?thesis
  proof cases
    case 1
    then show ?thesis using False by (simp add: defs sw h_def [symmetric])
  next
    case 2
    then have "h \<noteq> []" by auto
    with 2 False show ?thesis by (simp add: defs sw h_def [symmetric] split: sum.splits)
  next
    case 3
    then have "h \<noteq> []" by auto
    with 3 False show ?thesis by (simp add: defs sw h_def [symmetric] split: option.splits)
  qed
qed

interpretation auth: middleware "Auth cfg" "auth_gate cfg" for cfg
  by unfold_locales (rule Auth_gate_eq)

definition role_gate :: "string list \<Rightarrow> 's gate" where
  "role_gate roles r sw =
     (if RoleFromContext (Ctx r) \<in> set roles then Inr (r, sw)
      else Inl (fst sw, writeAuthError 403 ''insufficient permissions'' (snd sw)))"

interpretation role: middleware "RequireRole roles" "role_gate roles" for roles
  by unfold_locales (simp add: RequireRole_def role_gate_def RoleFromContext_def)

text \<open>What a credential has to prove for an identity.\<close>

definition proves_identity ::
    "AuthConfig \<Rightarrow> string \<Rightarrow> Time \<Rightarrow> string \<Rightarrow> string \<Rightarrow> string \<Rightarrow> bool" where
  "proves_identity cfg authHeader now subject role meth \<longleftrightarrow>
     (\<exists>scheme cred. authHeader = scheme @ '' '' @ cred \<and> CHR '' '' \<notin> set scheme \<and>
        (ToLower scheme = ''bearer'' \<and> JWTSecret cfg \<noteq> [] \<and> meth = AuthMethodJWT \<and> subject \<noteq> [] \<and>
           (\<exists>c. token_claims cred (JWTSecret cfg) (JWTIssuer cfg) now = Some c
              \<and> claim_Subject c = subject \<and> claim_Role c = role)
         \<or> ToLower scheme = ''apikey'' \<and> meth = AuthMethodAPIKey \<and>
           (\<exists>e \<in> set (APIKeys cfg). key_Key e = cred \<and> key_Subject e = subject \<and> key_Role e = role)))"

lemma header_parts:
  "CHR '' '' \<in> set h \<Longrightarrow>
   h = takeWhile (\<lambda>x. x \<noteq> CHR '' '') h @ '' '' @ tl (dropWhile (\<lambda>x. x \<noteq> CHR '' '') h)
   \<and> CHR '' '' \<notin> set (takeWhile (\<lambda>x. x \<noteq> CHR '' '') h)"
  by (induction h) auto

lemma token_claims_Some:
  "token_claims t sec iss now = Some c \<longleftrightarrow>
     verified_claims t sec = Inr c \<and> check_claims c iss (Time_Unix now) = Inr c"
  using check_claims_same by (fastforce simp: token_claims_def split: sum.splits)

lemma token_claims_subject: "token_claims t sec iss now = Some c \<Longrightarrow> claim_Subject c \<noteq> []"
  unfolding token_claims_Some check_claims_Inr by blast

lemma identify_proves:
  assumes "identify cfg h now = Inr (sub, role, meth)"
  shows "proves_identity cfg h now sub role meth"
proof -
  let ?sch = "takeWhile (\<lambda>x. x \<noteq> CHR '' '') h" and ?cred = "tl (dropWhile (\<lambda>x. x \<noteq> CHR '' '') h)"
  from assms have sp: "CHR '' '' \<in> set h" by (auto simp: identify_def split: if_splits)
  note parts = header_parts [OF sp]
  from assms sp consider
      c where "ToLower ?sch = ''bearer''" "JWTSecret cfg \<noteq> []" "meth = AuthMethodJWT"
        "token_claims ?cred (JWTSecret cfg) (JWTIssuer cfg) now = Some c" "sub = claim_Subject c" "role = claim_Role c"
    | e where "ToLower ?sch = ''apikey''" "meth = AuthMethodAPIKey"
        "validateAPIKey ?cred (APIKeys cfg) = Some e" "sub = key_Subject e" "role = key_Role e"
    by (auto simp: identify_def Let_def split: if_splits sum.splits option.splits)
  then show ?thesis
  proof cases
    case 1
    then show ?thesis
      unfolding proves_identity_def using parts token_claims_subject by blast
  next
    case 2
    then show ?thesis
      unfolding proves_identity_def using parts validateAPIKey_Some by blast
  qed
qed

lemma auth_gate_cases:
  assumes "URLPath r \<notin> set (SkipPaths cfg)"
  obtains s' m where "auth_gate cfg r (s, w) = Inl (s', writeAuthError 401 m w)"
  | s' sub role meth where "auth_gate cfg r (s, w) = Inr (with_identity sub role meth r, s', w)"
      "proves_identity cfg (Header_Get (ReqHeader r) ''Authorization'') (clock s 0) sub role meth"
  using assms identify_proves [of cfg "Header_Get (ReqHeader r) ''Authorization''" "clock s 0"]
  by (cases "identify cfg (Header_Get (ReqHeader r) ''Authorization'') (clock s 0)")
    (auto simp: auth_gate_def Let_def)

text \<open>
  C1. Outside the skipped paths, \<open>Auth\<close> either answers 401 whatever the next handler is, or hands
  the request on with an identity in its context that the Authorization header proves: a valid
  token's non-empty subject and role, or those of a configured API key.
\<close>

theorem Auth_authenticates:
  assumes "URLPath r \<notin> set (SkipPaths cfg)"
  shows "(\<exists>s' m. \<forall>next. Auth cfg next r (s, w) = (s', writeAuthError 401 m w)) \<or>
    (\<exists>s' sub role meth.
       (\<forall>next. Auth cfg next r (s, w) = next (with_identity sub role meth r) (s', w)) \<and>
       proves_identity cfg (Header_Get (ReqHeader r) ''Authorization'') (clock s 0) sub role meth)"
proof (rule auth_gate_cases [OF assms, of s w])
  fix s' m
  assume "auth_gate cfg r (s, w) = Inl (s', writeAuthError 401 m w)"
  then show ?thesis using auth.rejected by blast
next
  fix s' sub role meth
  assume "auth_gate cfg r (s, w) = Inr (with_identity sub role meth r, s', w)"
    and "proves_identity cfg (Header_Get (ReqHeader r) ''Authorization'') (clock s 0) sub role meth"
  then show ?thesis using auth.passed by blast
qed

definition demo_request :: request where
  "demo_request =
     \<lparr>Method = ''GET'', URLPath = ''/api/v1/gateways'', RawQuery = [],
      ReqHeader = [''Authorization'' \<mapsto> [''ApiKey viewer-key'']], Body = [],
      BodyMax = None, ContentLength = 0, RemoteAddr = ''10.0.0.1:4242'', Ctx = Map.empty,
      URLParams = Map.empty\<rparr>"

definition demo_auth :: AuthConfig where
  "demo_auth =
     \<lparr>JWTSecret = [], JWTIssuer = [],
      APIKeys = [\<lparr>key_Key = ''viewer-key'', key_Subject = ''viewer'', key_Role = ''viewer''\<rparr>],
      SkipPaths = [''/health'']\<rparr>"

theorem Auth_authenticates_witness:
  "(\<exists>s' m. \<forall>next. Auth demo_auth next demo_request (demo_env, rw_new) = (s', writeAuthError 401 m rw_new)) \<or>
    (\<exists>s' sub role meth.
       (\<forall>next. Auth demo_auth next demo_request (demo_env, rw_new) =
          next (with_identity sub role meth demo_request) (s', rw_new)) \<and>
       proves_identity demo_auth (Header_Get (ReqHeader demo_request) ''Authorization'')
         (clock demo_env 0) sub role meth)"
  by (rule Auth_authenticates) (simp add: demo_request_def demo_auth_def)

text \<open>The accessors read back what \<open>Auth\<close> stored.\<close>

lemma context_accessors [simp]:
  "SubjectFromContext (Ctx (with_identity sub role meth r)) = sub"
  "RoleFromContext (Ctx (with_identity sub role meth r)) = role"
  "AuthMethodFromContext (Ctx (with_identity sub role meth r)) = meth"
  by (simp_all add: with_identity_def SubjectFromContext_def RoleFromContext_def
      AuthMethodFromContext_def ctx_string_def ContextKeySubject_def ContextKeyRole_def
      ContextKeyAuthMethod_def)

interpretation auth_role: middleware_pair "Auth cfg" "auth_gate cfg" "RequireRole roles" "role_gate roles"
  for cfg roles
  by unfold_locales

text \<open>
  C9. Behind \<open>Auth\<close> and \<open>RequireRole\<close>, the next handler runs only for a request whose credential
  proves one of the roles, and sees the proved identity through the context accessors; every
  other request is answered with 401 or 403.
\<close>

theorem Auth_RequireRole_safe:
  assumes "URLPath r \<notin> set (SkipPaths cfg)"
  shows "(\<exists>s' st m. st \<in> {401, 403} \<and>
       (\<forall>next. Auth cfg (RequireRole roles next) r (s, w) = (s', writeAuthError st m w))) \<or>
    (\<exists>s' r'. (\<forall>next. Auth cfg (RequireRole roles next) r (s, w) = next r' (s', w)) \<and>
       RoleFromContext (Ctx r') \<in> set roles \<and>
       proves_identity cfg (Header_Get (ReqHeader r) ''Authorization'') (clock s 0)
         (SubjectFromContext (Ctx r')) (RoleFromContext (Ctx r')) (AuthMethodFromContext (Ctx r')))"
    (is "?A \<or> ?B")
proof (rule auth_gate_cases [OF assms, of s w])
  fix s' m
  assume "auth_gate cfg r (s, w) = Inl (s', writeAuthError 401 m w)"
  then have ?A using auth_role.both.rejected [of cfg roles r "(s, w)"] by (fastforce simp: gate_seq_def)
  then show ?thesis ..
next
  fix s' sub role meth
  assume g: "auth_gate cfg r (s, w) = Inr (with_identity sub role meth r, s', w)"
    and p: "proves_identity cfg (Header_Get (ReqHeader r) ''Authorization'') (clock s 0) sub role meth"
  show ?thesis
  proof (cases "role \<in> set roles")
    case True
    then have "gate_seq (auth_gate cfg) (role_gate roles) r (s, w) = Inr (with_identity sub role meth r, s', w)"
      by (simp add: gate_seq_def g role_gate_def)
    then have "\<forall>next. Auth cfg (RequireRole roles next) r (s, w) = next (with_identity sub role meth r) (s', w)"
      using auth_role.both.passed by blast
    then have ?B using p True by (intro exI [of _ s'] exI [of _ "with_identity sub role meth r"]) simp
    then show ?thesis ..
  next
    case False
    then have "gate_seq (auth_gate cfg) (role_gate roles) r (s, w)
        = Inl (s', writeAuthError 403 ''insufficient permissions'' w)"
      by (simp add: gate_seq_def g role_gate_def)
    then have ?A using auth_role.both.rejected by blast
    then show ?thesis ..
  qed
qed

theorem Auth_RequireRole_safe_witness:
  "(\<exists>s' st m. st \<in> {401, 403} \<and>
       (\<forall>next. Auth demo_auth (RequireRole [''admin''] next) demo_request (demo_env, rw_new)
          = (s', writeAuthError st m rw_new))) \<or>
    (\<exists>s' r'. (\<forall>next. Auth demo_auth (RequireRole [''admin''] next) demo_request (demo_env, rw_new)
          = next r' (s', rw_new)) \<and>
       RoleFromContext (Ctx r') \<in> set [''admin''] \<and>
       proves_identity demo_auth (Header_Get (ReqHeader demo_request) ''Authorization'') (clock demo_env 0)
         (SubjectFromContext (Ctx r')) (RoleFromContext (Ctx r')) (AuthMethodFromContext (Ctx r')))"
  by (rule Auth_RequireRole_safe) (simp add: demo_request_def demo_auth_def)

end
