(* ===== verification/Ratelimit.thy ===== *)
theory Ratelimit
  imports Auth "HOL-Library.Finite_Map"
begin

text \<open>
  The rate limiter, \<open>src/shared/go/middleware/ratelimit.go\<close>: its configuration and defaults, the table of
  counters, the critical section of \<open>Middleware\<close> (\<open>rl_admit\<close>), the clean-up of old entries, and the
  life of the background goroutine as a step relation. Requests and clean-ups happen under one lock, so
  any interleaving is a list of such events. The lemmas bound the table and the number of requests
  that one key gets through in an interval of one window, and show when a refused client gets in again.
\<close>

section \<open>Configuration\<close>

record RateLimitConfig =
  RequestsPerWindow :: int
  Window :: duration
  KeyFunc :: "(request \<Rightarrow> string) option"
  CleanupInterval :: duration
  MaxEntries :: int

definition DefaultRateLimitConfig :: RateLimitConfig where
  "DefaultRateLimitConfig =
     \<lparr>RequestsPerWindow = 100, Window = Minute, KeyFunc = None, CleanupInterval = 5 * Minute,
      MaxEntries = 100000\<rparr>"

record rateLimitEntry =
  rl_count :: int
  rl_windowAt :: Time

text \<open>\<open>rl_done\<close> says that the channel \<open>done\<close> is closed.\<close>

record RateLimiter =
  rl_entries :: "(string, rateLimitEntry) fmap"
  rl_cfg :: RateLimitConfig
  rl_done :: bool

definition normalize_config :: "RateLimitConfig \<Rightarrow> RateLimitConfig" where
  "normalize_config c =
     (let c1 = (if RequestsPerWindow c \<le> 0 then c\<lparr>RequestsPerWindow := 100\<rparr> else c);
          c2 = (if Window c1 \<le> 0 then c1\<lparr>Window := Minute\<rparr> else c1);
          c3 = (case KeyFunc c2 of None \<Rightarrow> c2\<lparr>KeyFunc := Some RemoteAddr\<rparr> | Some _ \<Rightarrow> c2);
          c4 = (if CleanupInterval c3 \<le> 0 then c3\<lparr>CleanupInterval := 5 * Minute\<rparr> else c3)
      in if MaxEntries c4 \<le> 0 then c4\<lparr>MaxEntries := 100000\<rparr> else c4)"

definition NewRateLimiter :: "RateLimitConfig \<Rightarrow> RateLimiter" where
  "NewRateLimiter c = \<lparr>rl_entries = fmempty, rl_cfg = normalize_config c, rl_done = False\<rparr>"

text \<open>Closing a closed channel panics: \<open>None\<close>.\<close>

definition RateLimiter_Stop :: "RateLimiter \<Rightarrow> RateLimiter option" where
  "RateLimiter_Stop rl = (if rl_done rl then None else Some (rl\<lparr>rl_done := True\<rparr>))"

section \<open>Clean-up and admission\<close>

definition cleanup :: "RateLimiter \<Rightarrow> Time \<Rightarrow> RateLimiter" where
  "cleanup rl now =
     rl\<lparr>rl_entries :=
       fmfilter (\<lambda>k. case fmlookup (rl_entries rl) k of
                   None \<Rightarrow> True
                 | Some entry \<Rightarrow> \<not> Time_Sub now (rl_windowAt entry) > wrap64 (Window (rl_cfg rl) * 2))
         (rl_entries rl)\<rparr>"

datatype rl_decision = TooManyKeys | NewWindow | Counted int Time bool

definition rl_admit :: "RateLimiter \<Rightarrow> string \<Rightarrow> Time \<Rightarrow> rl_decision \<times> RateLimiter" where
  "rl_admit rl key now =
     (case fmlookup (rl_entries rl) key of
        None \<Rightarrow>
          if int (fcard (fmdom (rl_entries rl))) \<ge> MaxEntries (rl_cfg rl) then (TooManyKeys, rl)
          else (NewWindow,
                rl\<lparr>rl_entries := fmupd key \<lparr>rl_count = 1, rl_windowAt = now\<rparr> (rl_entries rl)\<rparr>)
      | Some entry \<Rightarrow>
          if Time_Sub now (rl_windowAt entry) > Window (rl_cfg rl)
          then (NewWindow,
                rl\<lparr>rl_entries := fmupd key \<lparr>rl_count = 1, rl_windowAt = now\<rparr> (rl_entries rl)\<rparr>)
          else
            let count = wrap64 (rl_count entry + 1) in
            (Counted count (rl_windowAt entry) (count \<le> RequestsPerWindow (rl_cfg rl)),
             rl\<lparr>rl_entries := fmupd key (entry\<lparr>rl_count := count\<rparr>) (rl_entries rl)\<rparr>))"

definition admitted :: "rl_decision \<Rightarrow> bool" where
  "admitted d \<longleftrightarrow> (case d of TooManyKeys \<Rightarrow> False | NewWindow \<Rightarrow> True | Counted _ _ ok \<Rightarrow> ok)"

section \<open>The middleware\<close>

definition setRateLimitHeaders :: "int \<Rightarrow> int \<Rightarrow> duration \<Rightarrow> rw \<Rightarrow> rw" where
  "setRateLimitHeaders limit remaining window w =
     SetHeader ''X-RateLimit-Reset'' (Itoa (int_of_float (Duration_Seconds window)))
       (SetHeader ''X-RateLimit-Remaining'' (Itoa remaining)
         (SetHeader ''X-RateLimit-Limit'' (Itoa limit) w))"

definition retry_after :: "RateLimitConfig \<Rightarrow> Time \<Rightarrow> Time \<Rightarrow> int" where
  "retry_after c now windowStart =
     (let retryAfter = wrap64 (Window c - Time_Sub now windowStart) in
      wrap64 (int_of_float (Duration_Seconds (if retryAfter < 0 then 0 else retryAfter)) + 1))"

record rl_env = env +
  limiter :: RateLimiter

definition rate_key :: "RateLimitConfig \<Rightarrow> request \<Rightarrow> string" where
  "rate_key c r = (case KeyFunc c of Some f \<Rightarrow> f r | None \<Rightarrow> RemoteAddr r)"

definition RateLimiter_Middleware :: "'a rl_env_scheme handler \<Rightarrow> 'a rl_env_scheme handler" where
  "RateLimiter_Middleware next r sw =
     (let (s, w) = sw;
          c = rl_cfg (limiter s);
          key = rate_key c r;
          (now, s1) = time_Now s;
          (d, rl') = rl_admit (limiter s1) key now;
          s2 = s1\<lparr>limiter := rl'\<rparr>
      in case d of
           TooManyKeys \<Rightarrow>
             (s2, writeAuthError 429 ''rate limit exceeded''
                    (SetHeader ''Retry-After'' ''60''
                      (setRateLimitHeaders (RequestsPerWindow c) 0 (Window c) w)))
         | NewWindow \<Rightarrow>
             next r (s2, setRateLimitHeaders (RequestsPerWindow c) (wrap64 (RequestsPerWindow c - 1)) (Window c) w)
         | Counted count windowStart allowed \<Rightarrow>
             let remaining = wrap64 (RequestsPerWindow c - count);
                 w1 = setRateLimitHeaders (RequestsPerWindow c) (if remaining < 0 then 0 else remaining)
                        (Window c) w
             in if \<not> allowed
                then (s2, writeAuthError 429 ''rate limit exceeded''
                            (SetHeader ''Retry-After'' (Itoa (retry_after c now windowStart)) w1))
                else next r (s2, w1))"

text \<open>\<open>RateLimit\<close> makes a limiter of its own for the middleware it returns.\<close>

definition RateLimit :: "RateLimitConfig \<Rightarrow> 'a rl_env_scheme \<Rightarrow>
    ('a rl_env_scheme handler \<Rightarrow> 'a rl_env_scheme handler) \<times> 'a rl_env_scheme" where
  "RateLimit c s = (RateLimiter_Middleware, s\<lparr>limiter := NewRateLimiter c\<rparr>)"

section \<open>The life of the limiter\<close>

text \<open>
  A limiter with its goroutine: requests and ticks take the lock one at a time, \<open>Stop\<close> closes the
  channel, and the goroutine may then leave its loop; until it does, a tick that is ready at the same
  time may still be taken.
\<close>

datatype rl_event = Request string Time | Tick Time | StopCall | GoExit

record rl_sys =
  sys_rl :: RateLimiter
  goroutine :: bool

inductive rl_step :: "rl_sys \<Rightarrow> rl_event \<Rightarrow> rl_sys \<Rightarrow> bool" where
  request: "rl_step s (Request k now) (s\<lparr>sys_rl := snd (rl_admit (sys_rl s) k now)\<rparr>)"
| tick: "goroutine s \<Longrightarrow> rl_step s (Tick now) (s\<lparr>sys_rl := cleanup (sys_rl s) now\<rparr>)"
| stop: "RateLimiter_Stop (sys_rl s) = Some rl' \<Longrightarrow> rl_step s StopCall (s\<lparr>sys_rl := rl'\<rparr>)"
| exit: "goroutine s \<Longrightarrow> rl_done (sys_rl s) \<Longrightarrow> rl_step s GoExit (s\<lparr>goroutine := False\<rparr>)"

inductive rl_reachable :: "RateLimitConfig \<Rightarrow> rl_sys \<Rightarrow> bool" for c where
  start: "rl_reachable c \<lparr>sys_rl = NewRateLimiter c, goroutine = True\<rparr>"
| step: "rl_reachable c s \<Longrightarrow> rl_step s e t \<Longrightarrow> rl_reachable c t"

inductive_cases rl_tickE: "rl_step s (Tick now) t"
inductive_cases rl_stopE: "rl_step s StopCall t"

section \<open>Runs of the limiter\<close>

text \<open>
  The events that reach the lock, as a function, and the requests that a run lets through, with
  their keys and times.
\<close>

fun rl_apply :: "rl_event \<Rightarrow> RateLimiter \<Rightarrow> RateLimiter" where
  "rl_apply (Request k now) rl = snd (rl_admit rl k now)"
| "rl_apply (Tick now) rl = cleanup rl now"
| "rl_apply StopCall rl = (case RateLimiter_Stop rl of Some rl' \<Rightarrow> rl' | None \<Rightarrow> rl)"
| "rl_apply GoExit rl = rl"

fun let_through :: "rl_event list \<Rightarrow> RateLimiter \<Rightarrow> (string \<times> Time) list" where
  "let_through [] rl = []"
| "let_through (e # es) rl =
     (case e of
        Request k now \<Rightarrow> if admitted (fst (rl_admit rl k now)) then [(k, now)] else []
      | _ \<Rightarrow> []) @ let_through es (rl_apply e rl)"

fun event_time :: "rl_event \<Rightarrow> Time option" where
  "event_time (Request k now) = Some now"
| "event_time (Tick now) = Some now"
| "event_time _ = None"

definition in_order :: "rl_event list \<Rightarrow> bool" where
  "in_order es \<longleftrightarrow> sorted (map ns (List.map_filter event_time es))"

text \<open>No time is more than \<open>D\<close> before one that came earlier, or before \<open>hi\<close>.\<close>

fun late_from :: "int \<Rightarrow> int \<Rightarrow> rl_event list \<Rightarrow> bool" where
  "late_from D hi [] \<longleftrightarrow> True"
| "late_from D hi (e # es) \<longleftrightarrow>
     (case event_time e of None \<Rightarrow> late_from D hi es | Some t \<Rightarrow> hi - D \<le> ns t \<and> late_from D (max hi (ns t)) es)"

lemma cfg_rl_admit [simp]: "rl_cfg (snd (rl_admit rl k now)) = rl_cfg rl"
  by (simp add: rl_admit_def Let_def split: option.splits)

lemma cfg_rl_apply [simp]: "rl_cfg (rl_apply e rl) = rl_cfg rl"
  by (cases e) (simp_all add: cleanup_def RateLimiter_Stop_def)

lemma cfg_run [simp]: "rl_cfg (run_steps rl_apply es rl) = rl_cfg rl"
  by (induction es arbitrary: rl) simp_all

subsection \<open>The table is bounded\<close>

definition rl_bounded :: "RateLimiter \<Rightarrow> bool" where
  "rl_bounded rl \<longleftrightarrow> int (fcard (fmdom (rl_entries rl))) \<le> MaxEntries (rl_cfg rl)"

lemma fcard_fmupd:
  "fcard (fmdom (fmupd k v m)) = (if k |\<in>| fmdom m then fcard (fmdom m) else Suc (fcard (fmdom m)))"
  by (simp add: fcard_finsert_if)

lemma fcard_fmfilter_le: "fcard (fmdom (fmfilter P m)) \<le> fcard (fmdom m)"
  by (intro fcard_mono) (auto simp: fmdom_filter)

lemma rl_bounded_admit:
  assumes "rl_bounded rl"
  shows "rl_bounded (snd (rl_admit rl k now))"
  using assms
  by (auto simp: rl_bounded_def rl_admit_def Let_def fcard_finsert_if fmlookup_dom_iff split: option.splits)

interpretation rl_run: run_invariant rl_apply rl_bounded
proof unfold_locales
  fix rl e
  assume inv: "rl_bounded rl"
  show "rl_bounded (rl_apply e rl)"
  proof (cases e)
    case (Tick now)
    have "fcard (fmdom (rl_entries (cleanup rl now))) \<le> fcard (fmdom (rl_entries rl))"
      by (simp add: cleanup_def fcard_fmfilter_le del: fmdom_filter)
    with inv Tick show ?thesis by (simp add: rl_bounded_def cleanup_def)
  qed (use inv rl_bounded_admit in \<open>auto simp: rl_bounded_def RateLimiter_Stop_def split: option.splits\<close>)
qed

lemma rl_step_apply: "rl_step s e t \<Longrightarrow> sys_rl t = rl_apply e (sys_rl s)"
  by (induction rule: rl_step.induct) simp_all

lemma normalize_config_pos:
  "0 < RequestsPerWindow (normalize_config c)" "0 < Window (normalize_config c)"
  "0 < CleanupInterval (normalize_config c)" "0 < MaxEntries (normalize_config c)"
  "KeyFunc (normalize_config c) \<noteq> None"
  by (auto simp: normalize_config_def Let_def split: option.splits)

lemma cfg_NewRateLimiter [simp]: "rl_cfg (NewRateLimiter c) = normalize_config c"
  by (simp add: NewRateLimiter_def)

lemma rl_bounded_New: "rl_bounded (NewRateLimiter c)"
  using normalize_config_pos(4) [of c] by (simp add: rl_bounded_def NewRateLimiter_def fcard_fempty)

lemma rl_reachable_run:
  "rl_reachable c s \<Longrightarrow> \<exists>es. sys_rl s = run_steps rl_apply es (NewRateLimiter c)"
proof (induction rule: rl_reachable.induct)
  case start
  show ?case by (rule exI [of _ "[]"]) simp
next
  case (step s e t)
  then obtain es where "sys_rl s = run_steps rl_apply es (NewRateLimiter c)" by blast
  then have "sys_rl t = run_steps rl_apply (es @ [e]) (NewRateLimiter c)"
    using rl_step_apply [OF step.hyps(2)] by (simp add: run_steps_append)
  then show ?case by blast
qed

text \<open>
  C17. In every state that a limiter and its goroutine reach, by any interleaving of requests,
  clean-ups and the shutdown, the table tracks at most \<open>MaxEntries\<close> keys, and the limits are
  those of the normalised configuration.
\<close>

theorem rl_table_bounded:
  assumes "rl_reachable c s"
  shows "int (fcard (fmdom (rl_entries (sys_rl s)))) \<le> MaxEntries (normalize_config c)
    \<and> rl_cfg (sys_rl s) = normalize_config c"
proof -
  obtain es where es: "sys_rl s = run_steps rl_apply es (NewRateLimiter c)"
    using rl_reachable_run [OF assms] by blast
  have "rl_bounded (sys_rl s)"
    unfolding es by (rule rl_run.inv_run) (rule rl_bounded_New)
  then show ?thesis by (simp add: rl_bounded_def es)
qed

theorem rl_table_bounded_witness:
  "let s = \<lparr>sys_rl = snd (rl_admit (NewRateLimiter DefaultRateLimitConfig) ''10.0.0.1:4242'' Time_zero),
            goroutine = True\<rparr> in
   int (fcard (fmdom (rl_entries (sys_rl s)))) \<le> MaxEntries (normalize_config DefaultRateLimitConfig)
    \<and> rl_cfg (sys_rl s) = normalize_config DefaultRateLimitConfig"
proof -
  have "rl_step \<lparr>sys_rl = NewRateLimiter DefaultRateLimitConfig, goroutine = True\<rparr>
     (Request ''10.0.0.1:4242'' Time_zero)
     (\<lparr>sys_rl = NewRateLimiter DefaultRateLimitConfig, goroutine = True\<rparr>
        \<lparr>sys_rl := snd (rl_admit (sys_rl \<lparr>sys_rl = NewRateLimiter DefaultRateLimitConfig, goroutine = True\<rparr>)
                        ''10.0.0.1:4242'' Time_zero)\<rparr>)"
    by (rule rl_step.request)
  then show ?thesis
    unfolding Let_def by (intro rl_table_bounded) (auto intro: rl_reachable.intros)
qed

subsection \<open>How many requests one window lets through\<close>

text \<open>
  For one key, an interval of one window from \<open>a\<close> on, and \<open>n\<close> requests of the interval let
  through so far: nothing counted yet or the interval is over; the entry's window is the first one
  that lets requests of the interval through (one of its \<open>N\<close> places is taken by an earlier request
  if it began before \<open>a\<close>); or it is the second one, which began inside the interval.
\<close>

fun window_inv :: "int \<Rightarrow> int \<Rightarrow> int \<Rightarrow> int \<Rightarrow> int \<Rightarrow> rateLimitEntry option \<Rightarrow> bool" where
  "window_inv N W a L n None \<longleftrightarrow> n = 0 \<or> n \<le> 2 * N - 1 \<and> L > a + W"
| "window_inv N W a L n (Some e) \<longleftrightarrow>
     (let c = rl_count e; t = ns (rl_windowAt e) in
      1 \<le> c \<and>
      (n \<le> 2 * N - 1 \<and> L > a + W
       \<or> n \<le> min c N \<and> (n = 0 \<or> a \<le> t + W) \<and> (t < a \<longrightarrow> n \<le> min c N - 1)
       \<or> n \<le> N - 1 + min c N \<and> a < t))"

definition counts :: "string \<Rightarrow> int \<Rightarrow> int \<Rightarrow> string \<times> Time \<Rightarrow> bool" where
  "counts k a W x \<longleftrightarrow> fst x = k \<and> a \<le> ns (snd x) \<and> ns (snd x) \<le> a + W"

lemma counts_pair [simp]: "counts k a W (k', t) \<longleftrightarrow> k' = k \<and> a \<le> ns t \<and> ns t \<le> a + W"
  by (simp add: counts_def)

definition live :: "RateLimiter \<Rightarrow> int \<Rightarrow> bool" where
  "live rl m \<longleftrightarrow> 0 < RequestsPerWindow (rl_cfg rl) \<and> 0 < Window (rl_cfg rl)
     \<and> 2 * Window (rl_cfg rl) < max_int64 \<and> m \<le> max_int64
     \<and> (\<forall>k e. fmlookup (rl_entries rl) k = Some e \<longrightarrow> 1 \<le> rl_count e \<and> rl_count e + m \<le> max_int64)"

lemma live_le: "live rl m \<Longrightarrow> m' \<le> m \<Longrightarrow> live rl m'"
  unfolding live_def by (meson add_left_mono order_trans)

lemma Time_Sub_gt: "0 < w \<Longrightarrow> w < max_int64 \<Longrightarrow> w < Time_Sub t u \<longleftrightarrow> w < ns t - ns u"
  unfolding Time_Sub_def by (rule sat64_gt_iff) (simp_all add: in_int64_def go_int)

lemma lookup_admit_other:
  "k' \<noteq> k \<Longrightarrow> fmlookup (rl_entries (snd (rl_admit rl k now))) k' = fmlookup (rl_entries rl) k'"
  by (simp add: rl_admit_def Let_def split: option.splits)

lemma live_cases:
  assumes "live rl m" "0 < m"
  shows "rl_admit rl k now =
    (case fmlookup (rl_entries rl) k of
       None \<Rightarrow> if int (fcard (fmdom (rl_entries rl))) \<ge> MaxEntries (rl_cfg rl) then (TooManyKeys, rl)
               else (NewWindow, rl\<lparr>rl_entries := fmupd k \<lparr>rl_count = 1, rl_windowAt = now\<rparr> (rl_entries rl)\<rparr>)
     | Some e \<Rightarrow>
         if ns now - ns (rl_windowAt e) > Window (rl_cfg rl)
         then (NewWindow, rl\<lparr>rl_entries := fmupd k \<lparr>rl_count = 1, rl_windowAt = now\<rparr> (rl_entries rl)\<rparr>)
         else (Counted (rl_count e + 1) (rl_windowAt e) (rl_count e + 1 \<le> RequestsPerWindow (rl_cfg rl)),
               rl\<lparr>rl_entries := fmupd k (e\<lparr>rl_count := rl_count e + 1\<rparr>) (rl_entries rl)\<rparr>))"
proof (cases "fmlookup (rl_entries rl) k")
  case (Some e)
  then have c: "1 \<le> rl_count e" "rl_count e + m \<le> max_int64" using assms(1) unfolding live_def by blast+
  then have w: "wrap64 (rl_count e + 1) = rl_count e + 1"
    using assms(2) by (intro wrap64_id) (simp add: in_int64_def go_int)
  have "Window (rl_cfg rl) < Time_Sub now (rl_windowAt e) \<longleftrightarrow> Window (rl_cfg rl) < ns now - ns (rl_windowAt e)"
    using assms(1) by (intro Time_Sub_gt) (auto simp: live_def)
  with Some show ?thesis by (simp add: rl_admit_def w Let_def)
qed (simp add: rl_admit_def)

lemma live_admit:
  assumes "live rl m" "0 < m"
  shows "live (snd (rl_admit rl k now)) (m - 1)"
proof -
  have old: "1 \<le> rl_count e \<and> rl_count e + m \<le> max_int64" if "fmlookup (rl_entries rl) k' = Some e" for k' e
    using assms(1) that unfolding live_def by blast
  have "1 \<le> rl_count e \<and> rl_count e + (m - 1) \<le> max_int64"
    if e: "fmlookup (rl_entries (snd (rl_admit rl k now))) k' = Some e" for k' e
  proof -
    have m: "m \<le> max_int64" using assms(1) by (simp add: live_def)
    consider "fmlookup (rl_entries rl) k' = Some e" | "rl_count e = 1"
      | x where "fmlookup (rl_entries rl) k = Some x" "rl_count e = rl_count x + 1"
      using e by (cases "k' = k")
        (auto simp: live_cases [OF assms] lookup_admit_other split: option.splits if_splits)
    then show ?thesis
    proof cases
      case 1
      then show ?thesis using old [of k' e] by simp
    next
      case 3
      then show ?thesis using old [of k x] by simp
    qed (use assms(2) m in simp)
  qed
  with assms show ?thesis by (simp add: live_def)
qed

lemma lookup_cleanup:
  assumes "live rl m"
  shows "fmlookup (rl_entries (cleanup rl now)) k =
    (case fmlookup (rl_entries rl) k of
       None \<Rightarrow> None
     | Some e \<Rightarrow> if ns now - ns (rl_windowAt e) > 2 * Window (rl_cfg rl) then None else Some e)"
proof -
  have "wrap64 (Window (rl_cfg rl) * 2) = Window (rl_cfg rl) * 2"
    using assms by (intro wrap64_id) (auto simp: live_def in_int64_def go_int)
  moreover have "Window (rl_cfg rl) * 2 < Time_Sub now u \<longleftrightarrow> Window (rl_cfg rl) * 2 < ns now - ns u" for u
    using assms by (intro Time_Sub_gt) (auto simp: live_def)
  ultimately show ?thesis by (auto simp: cleanup_def split: option.splits)
qed

lemma live_cleanup: "live rl m \<Longrightarrow> live (cleanup rl now) m"
  using lookup_cleanup [of rl m now]
  by (auto simp: live_def cleanup_def split: option.splits if_splits)

lemma window_inv_later: "window_inv N W a L n e \<Longrightarrow> L \<le> L' \<Longrightarrow> window_inv N W a L' n e"
  by (cases e) (auto simp: Let_def)

lemma window_inv_new:
  assumes "window_inv N W a L n e" "0 < N" "0 < W" "L \<le> ns now"
    and "\<And>x. e = Some x \<Longrightarrow> ns now - ns (rl_windowAt x) > W"
  shows "window_inv N W a (ns now) (if a \<le> ns now \<and> ns now \<le> a + W then n + 1 else n)
    (Some \<lparr>rl_count = 1, rl_windowAt = now\<rparr>)"
  using assms by (cases e) (auto simp: Let_def)

lemma window_inv_count:
  assumes "window_inv N W a L n (Some e)" "0 < N" "0 < W" "L \<le> ns now"
    and "ns now - ns (rl_windowAt e) \<le> W"
  shows "window_inv N W a (ns now)
    (if rl_count e + 1 \<le> N \<and> a \<le> ns now \<and> ns now \<le> a + W then n + 1 else n)
    (Some (e\<lparr>rl_count := rl_count e + 1\<rparr>))"
  using assms by (auto simp: Let_def)

lemma window_inv_drop:
  assumes "window_inv N W a L n (Some e)" "0 < N" "0 < W" "L \<le> t"
    and "t - ns (rl_windowAt e) > 2 * W"
  shows "window_inv N W a t n None"
  using assms by (auto simp: Let_def)

lemma window_inv_bound: "window_inv N W a L n e \<Longrightarrow> 0 < N \<Longrightarrow> n \<le> 2 * N - 1"
  by (cases e) (auto simp: Let_def)

lemma in_order_Cons:
  "in_order (e # es) \<longleftrightarrow> in_order es \<and>
     (case event_time e of None \<Rightarrow> True
      | Some t \<Rightarrow> \<forall>t' \<in> set (List.map_filter event_time es). ns t \<le> ns t')"
  by (auto simp: in_order_def List.map_filter_def split: option.splits)

lemma quiet_event:
  "event_time e = None \<Longrightarrow> rl_entries (rl_apply e rl) = rl_entries rl"
  "event_time e = None \<Longrightarrow> let_through (e # es) rl = let_through es (rl_apply e rl)"
  by (cases e; simp add: RateLimiter_Stop_def)+

text \<open>
  An invariant that bounds how many requests of the interval from \<open>a\<close> on one key gets through by \<open>B\<close>, when times
  are late by at most \<open>D\<close>: what a new window, a request in a running one and a clean-up have to
  keep of it. Then the bound holds over every run.
\<close>

locale window_counter =
  fixes N W a D B :: int
    and inv :: "int \<Rightarrow> int \<Rightarrow> rateLimitEntry option \<Rightarrow> bool"
  assumes later: "inv hi n e \<Longrightarrow> hi \<le> hi' \<Longrightarrow> inv hi' n e"
    and new: "0 < N \<Longrightarrow> 0 < W \<Longrightarrow> inv hi n e \<Longrightarrow> hi - D \<le> ns now \<Longrightarrow>
      (\<And>x. e = Some x \<Longrightarrow> ns now - ns (rl_windowAt x) > W) \<Longrightarrow>
      inv (max hi (ns now)) (if a \<le> ns now \<and> ns now \<le> a + W then n + 1 else n)
        (Some \<lparr>rl_count = 1, rl_windowAt = now\<rparr>)"
    and count: "0 < N \<Longrightarrow> 0 < W \<Longrightarrow> inv hi n (Some x) \<Longrightarrow> hi - D \<le> ns now \<Longrightarrow> ns now - ns (rl_windowAt x) \<le> W \<Longrightarrow>
      inv (max hi (ns now)) (if rl_count x + 1 \<le> N \<and> a \<le> ns now \<and> ns now \<le> a + W then n + 1 else n)
        (Some (x\<lparr>rl_count := rl_count x + 1\<rparr>))"
    and drop: "0 < N \<Longrightarrow> 0 < W \<Longrightarrow> inv hi n (Some x) \<Longrightarrow> hi - D \<le> t \<Longrightarrow> t - ns (rl_windowAt x) > 2 * W \<Longrightarrow>
      inv (max hi t) n None"
    and bound: "0 < N \<Longrightarrow> inv hi n e \<Longrightarrow> n \<le> B"
begin

lemma request:
  assumes "live rl m" "0 < m" "N = RequestsPerWindow (rl_cfg rl)" "W = Window (rl_cfg rl)"
    and inv: "inv hi n (fmlookup (rl_entries rl) k)" and D: "hi - D \<le> ns now"
  shows "inv (max hi (ns now))
    (if admitted (fst (rl_admit rl k now)) \<and> a \<le> ns now \<and> ns now \<le> a + W then n + 1 else n)
    (fmlookup (rl_entries (snd (rl_admit rl k now))) k)"
proof -
  have pos: "0 < N" "0 < W" using assms by (auto simp: live_def)
  note same = later [OF inv, of "max hi (ns now)"] and rules = live_cases [OF assms(1,2), of k now] admitted_def
  show ?thesis
  proof (cases "fmlookup (rl_entries rl) k")
    case None
    then show ?thesis using same new [OF pos inv D] by (auto simp: rules)
  next
    case (Some e)
    show ?thesis
    proof (cases "ns now - ns (rl_windowAt e) > W")
      case True
      then show ?thesis using Some assms(4) new [OF pos inv D] by (simp add: rules)
    next
      case False
      then show ?thesis using count [OF pos inv [unfolded Some] D] Some assms(3,4) by (simp add: rules)
    qed
  qed
qed

lemma tick:
  assumes "live rl m" "N = RequestsPerWindow (rl_cfg rl)" "W = Window (rl_cfg rl)"
    and inv: "inv hi n (fmlookup (rl_entries rl) k)" and D: "hi - D \<le> ns now"
  shows "inv (max hi (ns now)) n (fmlookup (rl_entries (cleanup rl now)) k)"
proof -
  have pos: "0 < N" "0 < W" using assms by (auto simp: live_def)
  show ?thesis
    using later [OF inv, of "max hi (ns now)"] inv drop [OF pos _ D] assms(3)
    by (auto simp: lookup_cleanup [OF assms(1)] split: option.splits)
qed

lemma run:
  assumes "live rl (int (length es))" "N = RequestsPerWindow (rl_cfg rl)" "W = Window (rl_cfg rl)"
    and "inv hi n (fmlookup (rl_entries rl) k)" "late_from D hi es"
  shows "n + int (length (filter (counts k a W) (let_through es rl))) \<le> B"
  using assms
proof (induction es arbitrary: rl n hi)
  case Nil
  then show ?case using bound by (auto simp: live_def)
next
  case (Cons e es)
  have m: "0 < int (length (e # es))" "int (length (e # es)) - 1 = int (length es)" by simp_all
  have quiet: ?case if "event_time e = None"
  proof -
    note same = quiet_event [OF that]
    have "live (rl_apply e rl) (int (length es))"
      using live_le [OF Cons.prems(1), of "int (length es)"] by (simp add: live_def same)
    then show ?thesis
      using Cons.IH [of "rl_apply e rl" hi n] Cons.prems(2-5) that by (simp add: same del: let_through.simps)
  qed
  show ?case
  proof (cases e)
    case (Request k' now)
    let ?rl = "snd (rl_admit rl k' now)" and ?ok = "admitted (fst (rl_admit rl k' now))"
    let ?n = "if k' = k \<and> ?ok \<and> a \<le> ns now \<and> ns now \<le> a + W then n + 1 else n"
    have D: "hi - D \<le> ns now" using Cons.prems(5) Request by simp
    have "inv (max hi (ns now)) ?n (fmlookup (rl_entries ?rl) k)"
      using request [OF Cons.prems(1) m(1) Cons.prems(2-4) D] later [OF Cons.prems(4), of "max hi (ns now)"]
      by (cases "k' = k") (auto simp: lookup_admit_other)
    moreover have "live ?rl (int (length es))"
      using live_admit [OF Cons.prems(1) m(1)] by (simp add: m(2))
    ultimately have "?n + int (length (filter (counts k a W) (let_through es ?rl))) \<le> B"
      using Cons.IH [of ?rl "max hi (ns now)" ?n] Cons.prems(2,3,5) by (simp add: Request)
    then show ?thesis using Request by (auto split: if_splits)
  next
    case (Tick now)
    have D: "hi - D \<le> ns now" using Cons.prems(5) Tick by simp
    have "live (cleanup rl now) (int (length es))"
      by (rule live_le [OF live_cleanup [OF Cons.prems(1)]]) simp
    then show ?thesis
      using Cons.IH [of "cleanup rl now" "max hi (ns now)" n] tick [OF Cons.prems(1-4) D]
        Cons.prems(2,3,5) by (simp add: Tick cleanup_def)
  qed (use quiet in simp_all)
qed

lemma new_limiter_run:
  assumes "N = RequestsPerWindow (normalize_config c)" "W = Window (normalize_config c)" "2 * W < max_int64"
    and "int (length es) \<le> max_int64" "late_from D hi es" "inv hi 0 None"
  shows "int (length (filter (counts k a W) (let_through es (NewRateLimiter c)))) \<le> B"
proof -
  have "live (NewRateLimiter c) (int (length es))"
    using assms(1-4) normalize_config_pos [of c] by (simp add: live_def NewRateLimiter_def)
  then show ?thesis using run [of "NewRateLimiter c" es hi 0 k] assms by (simp add: NewRateLimiter_def)
qed

end

interpretation in_order: window_counter N W a 0 "2 * N - 1" "window_inv N W a" for N W a
proof unfold_locales
  fix hi n e and now :: Time
  assume "0 < N" "0 < W" "window_inv N W a hi n e" "hi - 0 \<le> ns now" "\<And>x. e = Some x \<Longrightarrow> ns now - ns (rl_windowAt x) > W"
  then show "window_inv N W a (max hi (ns now)) (if a \<le> ns now \<and> ns now \<le> a + W then n + 1 else n)
      (Some \<lparr>rl_count = 1, rl_windowAt = now\<rparr>)"
    using window_inv_new [of N W a hi n e now] by (simp add: max_absorb2 del: window_inv.simps)
next
  fix hi n x and now :: Time
  assume "0 < N" "0 < W" "window_inv N W a hi n (Some x)" "hi - 0 \<le> ns now" "ns now - ns (rl_windowAt x) \<le> W"
  then show "window_inv N W a (max hi (ns now)) (if rl_count x + 1 \<le> N \<and> a \<le> ns now \<and> ns now \<le> a + W then n + 1 else n)
      (Some (x\<lparr>rl_count := rl_count x + 1\<rparr>))"
    using window_inv_count [of N W a hi n x now] by (simp add: max_absorb2 del: window_inv.simps)
next
  fix hi n t x
  assume "0 < N" "0 < W" "window_inv N W a hi n (Some x)" "hi - 0 \<le> t" "t - ns (rl_windowAt x) > 2 * W"
  then show "window_inv N W a (max hi t) n None"
    using window_inv_drop [of N W a hi n x t] by (simp add: max_absorb2 del: window_inv.simps)
qed (fact window_inv_later, rule window_inv_bound)

lemma in_order_late:
  "in_order es \<Longrightarrow> \<forall>t \<in> set (List.map_filter event_time es). L \<le> ns t \<Longrightarrow> late_from 0 L es"
  by (induction es arbitrary: L) (auto simp: in_order_Cons List.map_filter_def max_absorb2 split: option.splits)

text \<open>
  C8. Let requests and clean-ups reach the limiter in the order of their times, starting from a new
  one, with a window of less than 146 years (half the range of a duration) and fewer than
  \<open>2\<^sup>6\<^sup>3\<close> events. Then among the requests of one key whose times lie in an interval of one
  window's length, at most \<open>2 \<cdot> RequestsPerWindow - 1\<close> are let through, whatever the other keys do
  and whenever the clean-up runs.
\<close>

theorem rl_window_bound:
  assumes "in_order es" "int (length es) \<le> max_int64"
    and "2 * Window (normalize_config c) < max_int64"
  shows "int (length (filter (counts k a (Window (normalize_config c))) (let_through es (NewRateLimiter c))))
    \<le> 2 * RequestsPerWindow (normalize_config c) - 1"
proof -
  define L where "L = Min (insert 0 (ns ` set (List.map_filter event_time es)))"
  have "late_from 0 L es" using in_order_late [OF assms(1)] by (simp add: L_def)
  then show ?thesis using in_order.new_limiter_run [of _ c _ es L a k] assms(2,3) by simp
qed

definition demo_rl :: RateLimitConfig where
  "demo_rl = \<lparr>RequestsPerWindow = 2, Window = Minute, KeyFunc = None, CleanupInterval = 0, MaxEntries = 1\<rparr>"

definition at_sec :: "int \<Rightarrow> Time" where
  "at_sec s = \<lparr>ns = s * 1000000000, zone = 0\<rparr>"

lemma normalize_demo_rl: "normalize_config demo_rl =
  \<lparr>RequestsPerWindow = 2, Window = Minute, KeyFunc = Some RemoteAddr, CleanupInterval = 5 * Minute, MaxEntries = 1\<rparr>"
  by (simp add: demo_rl_def normalize_config_def)

theorem rl_window_bound_witness:
  "int (length (filter (counts ''k'' 1000000000 (Window (normalize_config demo_rl)))
     (let_through [Request ''k'' (at_sec 0), Request ''k'' (at_sec 60), Tick (at_sec 61)] (NewRateLimiter demo_rl))))
   \<le> 2 * RequestsPerWindow (normalize_config demo_rl) - 1"
  by (rule rl_window_bound)
    (simp_all add: in_order_def List.map_filter_def at_sec_def normalize_demo_rl go_int)

text \<open>
  The bound is reached: with two requests per minute, a client that sends at seconds 0, 60, 61
  and 62 gets three requests through within the two seconds 60 to 62. The counter belongs to a fixed
  window that starts with the first request, not to a sliding one.
\<close>

theorem rl_window_bound_tight:
  "filter (counts ''k'' 60000000000 (Window (normalize_config demo_rl)))
     (let_through [Request ''k'' (at_sec 0), Request ''k'' (at_sec 60), Request ''k'' (at_sec 61), Request ''k'' (at_sec 62)]
       (NewRateLimiter demo_rl))
   = [(''k'', at_sec 60), (''k'', at_sec 61), (''k'', at_sec 62)]"
  by (simp add: rl_admit_def NewRateLimiter_def normalize_demo_rl admitted_def at_sec_def Time_Sub_def
      sat64_def go_int wrap64_eq fcard_fempty)

subsection \<open>A refused client that waits gets in\<close>

lemma Counted_refused:
  assumes "rl_admit rl k now = (Counted n start ok, rl')"
  shows "Time_Sub now start \<le> Window (rl_cfg rl)" "rl_cfg rl' = rl_cfg rl"
    "\<exists>e. fmlookup (rl_entries rl') k = Some e \<and> rl_windowAt e = start"
  using assms by (auto simp: rl_admit_def Let_def split: option.splits if_splits)

lemma retry_after_enough:
  assumes "Time_Sub now start \<le> Window c" "ns start \<le> ns now" "0 < Window c" "Window c < max_int64"
  shows "Window c - (ns now - ns start) < retry_after c now start * 1000000000"
proof -
  let ?d = "ns now - ns start"
  have d: "Time_Sub now start = ?d" "?d \<le> Window c"
    using assms Time_Sub_gt [of "Window c" now start] by (auto simp: Time_Sub_def in_int64_def go_int intro!: sat64_id)
  have "wrap64 (Window c - ?d) = Window c - ?d"
    using assms d by (intro wrap64_id) (simp add: in_int64_def go_int)
  moreover define m where "m = Window c - ?d"
  ultimately have r: "retry_after c now start = wrap64 (int_of_float (Duration_Seconds m) + 1)"
    using d by (simp add: retry_after_def)
  have m: "0 \<le> m" "m \<le> max_int64" using d assms by (simp_all add: m_def)
  note b = int_Duration_Seconds_bounds [OF m]
  have "m div 1000000000 \<le> max_int64 div 1000000000" using m(2) by (rule zdiv_mono1) simp
  then have "in_int64 (int_of_float (Duration_Seconds m) + 1)"
    using b m(1) by (simp add: in_int64_def go_int)
  then have "m div 1000000000 + 1 \<le> retry_after c now start" using b(1) r by (simp add: wrap64_id)
  then show ?thesis unfolding m_def [symmetric] by linarith
qed

text \<open>Events that are not requests of a key leave its entry alone or, a clean-up two windows on, drop it.\<close>

definition spares :: "string \<Rightarrow> rl_event \<Rightarrow> bool" where
  "spares k e \<longleftrightarrow> (case e of Request k' t \<Rightarrow> k' \<noteq> k | _ \<Rightarrow> True)"

definition tick_by :: "int \<Rightarrow> rl_event \<Rightarrow> bool" where
  "tick_by m e \<longleftrightarrow> (case e of Tick t \<Rightarrow> ns t \<le> m | _ \<Rightarrow> True)"

lemma spared_entry:
  assumes "spares k e"
  shows "fmlookup (rl_entries (rl_apply e rl)) k \<in> {fmlookup (rl_entries rl) k, None}"
  using assms lookup_admit_other
  by (cases e) (auto simp: spares_def cleanup_def RateLimiter_Stop_def split: option.splits)

lemma spared_run:
  "list_all (spares k) es \<Longrightarrow>
     fmlookup (rl_entries (run_steps rl_apply es rl)) k \<in> {fmlookup (rl_entries rl) k, None}"
proof (induction es arbitrary: rl)
  case (Cons e es)
  have "fmlookup (rl_entries (rl_apply e rl)) k \<in> {fmlookup (rl_entries rl) k, None}"
    using Cons.prems spared_entry by simp
  moreover have "fmlookup (rl_entries (run_steps rl_apply es (rl_apply e rl))) k \<in> {fmlookup (rl_entries (rl_apply e rl)) k, None}"
    using Cons by simp
  ultimately show ?case by auto
qed simp

lemma kept_run:
  assumes "list_all (spares k) es" "list_all (tick_by (ns (rl_windowAt x) + 2 * Window (rl_cfg rl))) es"
    and "fmlookup (rl_entries rl) k = Some x" "0 < Window (rl_cfg rl)" "2 * Window (rl_cfg rl) < max_int64"
  shows "fmlookup (rl_entries (run_steps rl_apply es rl)) k = Some x"
  using assms
proof (induction es arbitrary: rl)
  case (Cons e es)
  let ?w = "Window (rl_cfg rl)"
  have "wrap64 (?w * 2) = ?w * 2" using Cons.prems(4,5) by (intro wrap64_id) (simp add: in_int64_def go_int)
  moreover have "Time_Sub t u > ?w * 2 \<longleftrightarrow> ns t - ns u > ?w * 2" for t u
    using Cons.prems(4,5) by (intro Time_Sub_gt) simp_all
  ultimately have "fmlookup (rl_entries (rl_apply e rl)) k = Some x"
    using Cons.prems(1-3) lookup_admit_other
    by (cases e) (auto simp: spares_def tick_by_def cleanup_def RateLimiter_Stop_def split: option.splits)
  then show ?case using Cons by simp
qed simp

lemma waited_out:
  assumes "rl_admit rl k now = (Counted n start False, rl')"
    and "0 < Window (rl_cfg rl)" "2 * Window (rl_cfg rl) < max_int64" "ns start \<le> ns now" "list_all (spares k) es"
    and "ns now + retry_after (rl_cfg rl) now start * 1000000000 \<le> ns later"
  defines "rl2 \<equiv> run_steps rl_apply es rl'"
  shows "fst (rl_admit rl2 k later) =
      (if fmlookup (rl_entries rl2) k = None \<and> MaxEntries (rl_cfg rl) \<le> int (fcard (fmdom (rl_entries rl2))) then TooManyKeys else NewWindow)"
    and "list_all (tick_by (ns start + 2 * Window (rl_cfg rl))) es \<Longrightarrow> fmlookup (rl_entries rl2) k \<noteq> None"
proof -
  note c = Counted_refused [OF assms(1)]
  obtain e where e: "fmlookup (rl_entries rl') k = Some e" "rl_windowAt e = start" using c(3) by blast
  have "Window (rl_cfg rl) < ns later - ns start"
    using retry_after_enough [OF c(1) assms(4,2)] assms(2,3,6) by linarith
  then have "Window (rl_cfg rl) < Time_Sub later start" using Time_Sub_gt [of "Window (rl_cfg rl)"] assms(2,3) by simp
  then show "fst (rl_admit rl2 k later) =
      (if fmlookup (rl_entries rl2) k = None \<and> MaxEntries (rl_cfg rl) \<le> int (fcard (fmdom (rl_entries rl2))) then TooManyKeys else NewWindow)"
    using spared_run [OF assms(5), of rl'] e c(2) by (auto simp: rl_admit_def rl2_def split: option.splits)
  show "fmlookup (rl_entries rl2) k \<noteq> None" if "list_all (tick_by (ns start + 2 * Window (rl_cfg rl))) es"
    using kept_run [OF assms(5), of e rl'] that e c(2) assms(2,3) by (simp add: rl2_def)
qed

definition full_rl :: "duration \<Rightarrow> RateLimiter" where
  "full_rl W = \<lparr>rl_entries = fmupd ''k'' \<lparr>rl_count = 2, rl_windowAt = at_sec 0\<rparr> fmempty,
     rl_cfg = \<lparr>RequestsPerWindow = 2, Window = W, KeyFunc = Some RemoteAddr, CleanupInterval = 5 * Minute, MaxEntries = 1\<rparr>,
     rl_done = False\<rparr>"

lemma full_rl_simps [simp]:
  "fmlookup (rl_entries (full_rl W)) ''k'' = Some \<lparr>rl_count = 2, rl_windowAt = at_sec 0\<rparr>"
  "Window (rl_cfg (full_rl W)) = W" "RequestsPerWindow (rl_cfg (full_rl W)) = 2"
  by (simp_all add: full_rl_def)

subsection \<open>Clean-up\<close>

lemma fcard_fmfilter_less:
  assumes "fmlookup m k = Some v" "\<not> P k"
  shows "fcard (fmdom (fmfilter P m)) < fcard (fmdom m)"
  by (rule pfsubset_fcard_mono) (use assms in \<open>auto simp: pfsubset_eq fmdomI\<close>)

text \<open>
  C39. Clean-up is invisible to a tracked key: for a window below half the range of a duration, a
  request at or after the clean-up gets the same decision as without it.
\<close>

theorem cleanup_transparent:
  assumes "rl_bounded rl" "0 < Window (rl_cfg rl)" "2 * Window (rl_cfg rl) < max_int64"
    and "fmlookup (rl_entries rl) k = Some e" "ns now \<le> ns later"
  shows "fst (rl_admit (cleanup rl now) k later) = fst (rl_admit rl k later)"
proof -
  let ?w = "Window (rl_cfg rl)"
  have w: "wrap64 (?w * 2) = ?w * 2" using assms(2,3) by (intro wrap64_id) (simp add: in_int64_def go_int)
  have stale: "Time_Sub now u > ?w * 2 \<longleftrightarrow> ns now - ns u > ?w * 2" "Time_Sub later u > ?w \<longleftrightarrow> ns later - ns u > ?w" for u
    using assms(2,3) by (simp_all add: Time_Sub_gt)
  show ?thesis
  proof (cases "ns now - ns (rl_windowAt e) > ?w * 2")
    case True
    then have "fcard (fmdom (rl_entries (cleanup rl now))) < fcard (fmdom (rl_entries rl))"
      using fcard_fmfilter_less [OF assms(4)] assms(4) by (simp add: cleanup_def w stale del: fmdom_filter)
    then have "\<not> int (fcard (fmdom (rl_entries (cleanup rl now)))) \<ge> MaxEntries (rl_cfg rl)"
      using assms(1) by (simp add: rl_bounded_def)
    moreover have "fmlookup (rl_entries (cleanup rl now)) k = None" "rl_cfg (cleanup rl now) = rl_cfg rl"
      using True assms(4) by (simp_all add: cleanup_def w stale)
    ultimately show ?thesis using True assms by (simp add: rl_admit_def stale)
  next
    case False
    then show ?thesis using assms(4) by (simp add: rl_admit_def cleanup_def w stale Let_def)
  qed
qed

theorem cleanup_transparent_witness:
  "fst (rl_admit (cleanup (full_rl Minute) (at_sec 121)) ''k'' (at_sec 122)) =
   fst (rl_admit (full_rl Minute) ''k'' (at_sec 122))"
  by (rule cleanup_transparent [of _ _ "\<lparr>rl_count = 2, rl_windowAt = at_sec 0\<rparr>"])
    (simp_all add: rl_bounded_def full_rl_def at_sec_def go_int fcard_finsert_if fcard_fempty)

text \<open>
  With a window of \<open>2\<^sup>6\<^sup>2\<close> nanoseconds or more, \<open>Window * 2\<close> wraps to a negative number and
  every clean-up forgets all counters, those of running windows too.
\<close>

theorem cleanup_overflow:
  assumes "2 ^ 62 \<le> Window (rl_cfg rl)" "Window (rl_cfg rl) \<le> max_int64"
    and "fmpred (\<lambda>k e. ns (rl_windowAt e) \<le> ns now) (rl_entries rl)"
  shows "rl_entries (cleanup rl now) = fmempty"
proof -
  have "wrap64 (Window (rl_cfg rl) * 2) = Window (rl_cfg rl) * 2 - 2 ^ 64"
    using assms(1,2) unfolding wrap64_eq by (subst mod_pos_geq) (simp_all add: go_int)
  moreover have "0 \<le> Time_Sub now (rl_windowAt e)" if "fmlookup (rl_entries rl) k = Some e" for k e
    using assms(3) that sat64_mono [of 0 "ns now - ns (rl_windowAt e)"]
    by (auto simp: Time_Sub_def fmpred_iff sat64_id in_int64_def go_int)
  ultimately have "fmlookup (rl_entries (cleanup rl now)) k = None" for k
    using assms(2) by (fastforce simp: cleanup_def go_int split: option.splits)
  then show ?thesis by (intro fmap_ext) simp
qed

theorem cleanup_overflow_witness:
  "rl_entries (cleanup (full_rl (2 ^ 62)) (at_sec 1)) = fmempty"
  by (rule cleanup_overflow) (simp_all add: full_rl_def at_sec_def go_int fmpred_iff)

subsection \<open>Keys do not disturb each other\<close>

text \<open>
  A request of another key does not change the next decision on a tracked key, nor on a key that
  is not tracked while the table has room for both.
\<close>

theorem rl_keys_independent:
  assumes "k' \<noteq> k" "fmlookup (rl_entries rl) k \<noteq> None \<or> int (fcard (fmdom (rl_entries rl))) + 1 < MaxEntries (rl_cfg rl)"
  shows "fst (rl_admit (snd (rl_admit rl k' now)) k later) = fst (rl_admit rl k later)"
proof -
  let ?rl = "snd (rl_admit rl k' now)"
  have same: "fmlookup (rl_entries ?rl) k = fmlookup (rl_entries rl) k"
    using assms(1) by (intro lookup_admit_other) simp
  have "fcard (fmdom (rl_entries ?rl)) \<le> fcard (fmdom (rl_entries rl)) + 1"
    by (auto simp: rl_admit_def Let_def fcard_finsert_if split: option.splits)
  then have "fmlookup (rl_entries rl) k = None \<longrightarrow> \<not> int (fcard (fmdom (rl_entries ?rl))) \<ge> MaxEntries (rl_cfg rl)
      \<and> \<not> int (fcard (fmdom (rl_entries rl))) \<ge> MaxEntries (rl_cfg rl)"
    using assms(2) by auto
  then show ?thesis
    unfolding rl_admit_def [of ?rl k] rl_admit_def [of rl k] same cfg_rl_admit
    by (auto simp: Let_def split: option.splits)
qed

theorem rl_keys_independent_witness:
  "fst (rl_admit (snd (rl_admit (full_rl Minute) ''other'' (at_sec 1))) ''k'' (at_sec 2)) =
   fst (rl_admit (full_rl Minute) ''k'' (at_sec 2))"
  by (rule rl_keys_independent) simp_all

section \<open>The middleware in front of a handler\<close>

definition rl_gate :: "'a rl_env_scheme gate" where
  "rl_gate r sw =
     (let (s, w) = sw;
          c = rl_cfg (limiter s);
          now = clock s 0;
          (d, rl') = rl_admit (limiter s) (rate_key c r) now;
          s2 = (snd (time_Now s))\<lparr>limiter := rl'\<rparr>
      in case d of
           TooManyKeys \<Rightarrow>
             Inl (s2, writeAuthError 429 ''rate limit exceeded''
               (SetHeader ''Retry-After'' ''60'' (setRateLimitHeaders (RequestsPerWindow c) 0 (Window c) w)))
         | NewWindow \<Rightarrow>
             Inr (r, s2, setRateLimitHeaders (RequestsPerWindow c) (wrap64 (RequestsPerWindow c - 1)) (Window c) w)
         | Counted count start ok \<Rightarrow>
             let w1 = setRateLimitHeaders (RequestsPerWindow c)
                        (max 0 (wrap64 (RequestsPerWindow c - count))) (Window c) w
             in if ok then Inr (r, s2, w1)
                else Inl (s2, writeAuthError 429 ''rate limit exceeded''
                       (SetHeader ''Retry-After'' (Itoa (retry_after c now start)) w1)))"

lemma limiter_time_Now [simp]: "limiter (snd (time_Now s)) = limiter s" "fst (time_Now s) = clock s 0"
  by (simp_all add: time_Now_def)

interpretation rlim: middleware RateLimiter_Middleware rl_gate
proof unfold_locales
  fix "next" :: "'a rl_env_scheme handler" and r and sw :: "'a rl_env_scheme \<times> rw"
  obtain s w where sw: "sw = (s, w)" by (cases sw)
  obtain d rl' where d: "rl_admit (limiter s) (rate_key (rl_cfg (limiter s)) r) (clock s 0) = (d, rl')"
    by (cases "rl_admit (limiter s) (rate_key (rl_cfg (limiter s)) r) (clock s 0)")
  have m: "(if x < 0 then 0 else x) = max 0 x" for x :: int by simp
  show "RateLimiter_Middleware next r sw =
      (case rl_gate r sw of Inl sw' \<Rightarrow> sw' | Inr (r', sw') \<Rightarrow> next r' sw')"
    unfolding RateLimiter_Middleware_def rl_gate_def sw Let_def m
    using d by (cases d) (simp_all add: split_def)
qed

lemmas header_rules = Header_Get_Set sent_header_def rw_status_def writeAuthError_def setRateLimitHeaders_def

lemma retry_after_pos: "0 < retry_after c now start"
proof -
  define m where "m = (let x = wrap64 (Window c - Time_Sub now start) in if x < 0 then 0 else x)"
  have r: "retry_after c now start = wrap64 (int_of_float (Duration_Seconds m) + 1)"
    by (simp add: retry_after_def m_def Let_def)
  have "in_int64 (wrap64 (Window c - Time_Sub now start))" by simp
  then have m: "0 \<le> m" "m \<le> max_int64" by (simp_all add: m_def Let_def in_int64_def go_int)
  note b = int_Duration_Seconds_bounds [OF m]
  have "m div 1000000000 \<le> max_int64 div 1000000000" using m(2) by (rule zdiv_mono1) simp
  then have "in_int64 (int_of_float (Duration_Seconds m) + 1)" using b m(1) by (simp add: in_int64_def go_int)
  moreover have "0 \<le> m div 1000000000" using m(1) by simp
  ultimately show ?thesis using b(1) r by (simp add: wrap64_id)
qed

lemma refused_none_left:
  assumes "rl_admit rl k now = (Counted n start False, rl')" "0 < RequestsPerWindow (rl_cfg rl)"
  shows "max 0 (wrap64 (RequestsPerWindow (rl_cfg rl) - n)) = 0"
proof -
  have "\<exists>x. n = wrap64 x" "RequestsPerWindow (rl_cfg rl) < n"
    using assms(1) by (auto simp: rl_admit_def Let_def split: option.splits if_splits)
  then have "in_int64 n" "RequestsPerWindow (rl_cfg rl) < n" by auto
  then have "wrap64 (RequestsPerWindow (rl_cfg rl) - n) = RequestsPerWindow (rl_cfg rl) - n"
    using assms(2) by (intro wrap64_id) (simp add: in_int64_def go_int)
  with \<open>RequestsPerWindow (rl_cfg rl) < n\<close> show ?thesis by simp
qed

text \<open>The gate by cases of the decision.\<close>

lemma rl_gate_admitted:
  assumes "rl_admit (limiter s) (rate_key (rl_cfg (limiter s)) r) (clock s 0) = (d, rl')" "admitted d"
  shows "\<exists>s' w'. rl_gate r (s, w) = Inr (r, s', w') \<and> limiter s' = rl' \<and> rw_sent w' = rw_sent w
    \<and> rw_body w' = rw_body w
    \<and> Header_Get (rw_header w') ''X-RateLimit-Limit'' = Itoa (RequestsPerWindow (rl_cfg (limiter s)))"
  using assms by (cases d) (auto simp: rl_gate_def admitted_def header_rules Let_def)

lemma rl_gate_refused:
  assumes "rl_admit (limiter s) (rate_key (rl_cfg (limiter s)) r) (clock s 0) = (d, rl')" "\<not> admitted d"
    and "rw_sent w = None" "0 < RequestsPerWindow (rl_cfg (limiter s))"
  shows "\<exists>s' w' v. rl_gate r (s, w) = Inl (s', w') \<and> limiter s' = rl' \<and> rw_status w' = Some 429
    \<and> sent_header w' ''Retry-After'' = Itoa v \<and> 0 < v \<and> sent_header w' ''X-RateLimit-Remaining'' = Itoa 0"
proof (cases d)
  case TooManyKeys
  have "Itoa 60 = ''60''" by code_simp
  with TooManyKeys assms show ?thesis
    by (auto simp: rl_gate_def header_rules Let_def intro!: exI [of _ 60])
next
  case (Counted n t ok)
  with assms(2) have ok: "ok = False" by (simp add: admitted_def)
  note none = refused_none_left [OF assms(1) [unfolded Counted ok] assms(4)]
  show ?thesis
    using Counted ok assms(1,3) retry_after_pos
    by (auto simp: rl_gate_def header_rules Let_def none)
qed (use assms in \<open>simp add: admitted_def\<close>)

text \<open>
  C16. The middleware calls the next handler exactly when the limiter admits the key of the request,
  with the request unchanged and the limit in \<open>X-RateLimit-Limit\<close>; otherwise it answers 429 itself,
  with a positive number of seconds in \<open>Retry-After\<close> and no request remaining. In both cases the
  limiter's state is the one after the decision.
\<close>

theorem RateLimiter_Middleware_admits:
  assumes "rl_admit (limiter s) (rate_key (rl_cfg (limiter s)) r) (clock s 0) = (d, rl')"
    and "rw_sent w = None" "0 < RequestsPerWindow (rl_cfg (limiter s))"
  shows "if admitted d
    then \<exists>s' w'. (\<forall>next. RateLimiter_Middleware next r (s, w) = next r (s', w')) \<and> limiter s' = rl'
      \<and> rw_sent w' = None \<and> rw_body w' = rw_body w
      \<and> Header_Get (rw_header w') ''X-RateLimit-Limit'' = Itoa (RequestsPerWindow (rl_cfg (limiter s)))
    else \<exists>s' w' v. (\<forall>next. RateLimiter_Middleware next r (s, w) = (s', w')) \<and> limiter s' = rl'
      \<and> rw_status w' = Some 429 \<and> sent_header w' ''Retry-After'' = Itoa v \<and> 0 < v
      \<and> sent_header w' ''X-RateLimit-Remaining'' = Itoa 0"
proof (cases "admitted d")
  case True
  show ?thesis
    using rl_gate_admitted [OF assms(1) True, of w] True assms(2)
    by (simp, elim exE conjE) (blast dest: rlim.passed)
next
  case False
  show ?thesis
    using rl_gate_refused [OF assms(1) False assms(2,3)] False
    by (simp, elim exE conjE) (blast dest: rlim.rejected)
qed

definition demo_rl_env :: rl_env where
  "demo_rl_env = \<lparr>clock = (\<lambda>i. at_sec (int i)), new_uuids = of_nat, limiter = NewRateLimiter demo_rl\<rparr>"

theorem RateLimiter_Middleware_admits_witness:
  "\<exists>s' w'. (\<forall>next. RateLimiter_Middleware next demo_request (demo_rl_env, rw_new) = next demo_request (s', w'))
     \<and> rw_sent w' = None \<and> Header_Get (rw_header w') ''X-RateLimit-Limit'' = Itoa 2"
  using RateLimiter_Middleware_admits [of demo_rl_env demo_request NewWindow _ rw_new]
  by (auto simp: rl_admit_def demo_rl_env_def NewRateLimiter_def normalize_demo_rl fcard_fempty admitted_def
      rw_new_def)

section \<open>Shutdown\<close>

text \<open>
  Once the channel is closed, a second \<open>Stop\<close> panics (no step), the goroutine can always leave
  its loop, and after it left no clean-up runs; it never leaves before \<open>Stop\<close> was called.
\<close>

theorem rl_shutdown:
  assumes "rl_reachable c s"
  shows "(\<not> goroutine s \<longrightarrow> rl_done (sys_rl s)) \<and>
    (rl_done (sys_rl s) \<longrightarrow> \<not> (\<exists>t. rl_step s StopCall t)
       \<and> (goroutine s \<longrightarrow> rl_step s GoExit (s\<lparr>goroutine := False\<rparr>))) \<and>
    (\<not> goroutine s \<longrightarrow> \<not> (\<exists>now t. rl_step s (Tick now) t))"
proof -
  have done_stable: "rl_done (rl_apply e rl)" if "rl_done rl" for e rl
    using that by (cases e) (auto simp: cleanup_def RateLimiter_Stop_def rl_admit_def Let_def split: option.splits)
  have "\<not> goroutine s \<longrightarrow> rl_done (sys_rl s)"
    using assms
  proof (induction rule: rl_reachable.induct)
    case (step s e t)
    from step.hyps(2) show ?case
      using step.IH done_stable [of "sys_rl s" e] rl_step_apply [OF step.hyps(2)] by cases auto
  qed simp
  then show ?thesis by (auto simp: RateLimiter_Stop_def intro: rl_step.exit elim!: rl_tickE rl_stopE)
qed

definition stopped_sys :: rl_sys where
  "stopped_sys = \<lparr>sys_rl = (NewRateLimiter DefaultRateLimitConfig)\<lparr>rl_done := True\<rparr>, goroutine = True\<rparr>"

lemma stopped_reachable: "rl_reachable DefaultRateLimitConfig stopped_sys"
proof -
  let ?s = "\<lparr>sys_rl = NewRateLimiter DefaultRateLimitConfig, goroutine = True\<rparr>"
  have "rl_step ?s StopCall (?s\<lparr>sys_rl := (NewRateLimiter DefaultRateLimitConfig)\<lparr>rl_done := True\<rparr>\<rparr>)"
    by (rule rl_step.stop) (simp add: RateLimiter_Stop_def NewRateLimiter_def)
  then show ?thesis by (auto simp: stopped_sys_def intro: rl_reachable.intros)
qed

theorem rl_shutdown_witness:
  "\<not> (\<exists>t. rl_step stopped_sys StopCall t) \<and> rl_step stopped_sys GoExit (stopped_sys\<lparr>goroutine := False\<rparr>)"
  using rl_shutdown [OF stopped_reachable] by (simp add: stopped_sys_def)

text \<open>
  C20. A client that is refused because its key is over the limit, and then waits as many seconds as the Retry-After
  header of the answer says, gets in again, with a new window. In the meantime requests of other
  keys, clean-ups and the shutdown may happen in any number and order, but no request of the same key. The
  one exception: when a clean-up more than two windows after the start of its old window forgets the key
  and other keys fill the table, the limiter refuses it as one key too many. (For windows of less than 146 years
  and a clock that is not behind the start of the window.)
\<close>

theorem retry_after_admits:
  fixes s :: "'a rl_env_scheme"
  assumes "rl_admit (limiter s) (rate_key (rl_cfg (limiter s)) r) (clock s 0) = (Counted n start False, rl')"
    and "0 < Window (rl_cfg (limiter s))" "2 * Window (rl_cfg (limiter s)) < max_int64" "ns start \<le> ns (clock s 0)"
    and "rw_sent w = None" "list_all (spares (rate_key (rl_cfg (limiter s)) r)) es"
  shows "\<exists>v. sent_header (snd (RateLimiter_Middleware next r (s, w))) ''Retry-After'' = Itoa v \<and>
    (\<forall>later. ns (clock s 0) + v * 1000000000 \<le> ns later \<longrightarrow>
      (let rl2 = run_steps rl_apply es (limiter (fst (RateLimiter_Middleware next r (s, w))));
           d = fst (rl_admit rl2 (rate_key (rl_cfg (limiter s)) r) later) in
       (list_all (tick_by (ns start + 2 * Window (rl_cfg (limiter s)))) es \<longrightarrow> d = NewWindow) \<and>
       (d \<noteq> NewWindow \<longrightarrow> d = TooManyKeys \<and> fmlookup (rl_entries rl2) (rate_key (rl_cfg (limiter s)) r) = None \<and>
          MaxEntries (rl_cfg (limiter s)) \<le> int (fcard (fmdom (rl_entries rl2))))))"
proof -
  let ?c = "rl_cfg (limiter s)"
  have "sent_header (snd (RateLimiter_Middleware next r (s, w))) ''Retry-After'' = Itoa (retry_after ?c (clock s 0) start)"
    "limiter (fst (RateLimiter_Middleware next r (s, w))) = rl'"
    using assms(1,5) by (simp_all add: RateLimiter_Middleware_def header_rules Let_def split_def)
  then show ?thesis
    using waited_out [OF assms(1-4,6)]
    by (intro exI [of _ "retry_after ?c (clock s 0) start"]) (auto simp: Let_def)
qed

text \<open>Two requests a minute and room for one key: refused at second 59, admitted when the header's seconds are over.\<close>

definition full_env :: rl_env where
  "full_env = \<lparr>clock = \<lambda>_. at_sec 59, new_uuids = \<lambda>_. 0, limiter = full_rl Minute\<rparr>"

definition rl_request :: request where
  "rl_request = \<lparr>Method = ''GET'', URLPath = ''/'', RawQuery = [], ReqHeader = Map.empty, Body = [], BodyMax = None, ContentLength = 0,
     RemoteAddr = ''k'', Ctx = Map.empty, URLParams = Map.empty\<rparr>"

theorem retry_after_admits_witness:
  "\<exists>v. sent_header (snd (RateLimiter_Middleware (\<lambda>r sw. sw) rl_request (full_env, rw_new))) ''Retry-After'' = Itoa v \<and>
     fst (rl_admit (run_steps rl_apply [Request ''other'' (at_sec 60), Tick (at_sec 61)]
       (limiter (fst (RateLimiter_Middleware (\<lambda>r sw. sw) rl_request (full_env, rw_new))))) ''k''
       (at_sec (59 + v))) = NewWindow"
proof -
  let ?es = "[Request ''other'' (at_sec 60), Tick (at_sec 61)]"
  have key: "rate_key (rl_cfg (limiter full_env)) rl_request = ''k''" by (simp add: rate_key_def full_env_def full_rl_def rl_request_def)
  have "rl_admit (limiter full_env) (rate_key (rl_cfg (limiter full_env)) rl_request) (clock full_env 0) =
      (Counted 3 (at_sec 0) False, snd (rl_admit (limiter full_env) ''k'' (at_sec 59)))"
    by (simp add: key, simp add: full_env_def rl_admit_def at_sec_def Time_Sub_def sat64_def go_int wrap64_eq)
  moreover have "0 < Window (rl_cfg (limiter full_env))" "2 * Window (rl_cfg (limiter full_env)) < max_int64"
    "ns (at_sec 0) \<le> ns (clock full_env 0)" "rw_sent rw_new = None" "list_all (spares (rate_key (rl_cfg (limiter full_env)) rl_request)) ?es"
    by (simp_all add: key spares_def, simp_all add: full_env_def at_sec_def go_int)
  ultimately obtain v where v: "sent_header (snd (RateLimiter_Middleware (\<lambda>r sw. sw) rl_request (full_env, rw_new))) ''Retry-After'' = Itoa v"
    "\<forall>later. ns (clock full_env 0) + v * 1000000000 \<le> ns later \<longrightarrow>
      list_all (tick_by (ns (at_sec 0) + 2 * Window (rl_cfg (limiter full_env)))) ?es \<longrightarrow>
      fst (rl_admit (run_steps rl_apply ?es (limiter (fst (RateLimiter_Middleware (\<lambda>r sw. sw) rl_request (full_env, rw_new)))))
        (rate_key (rl_cfg (limiter full_env)) rl_request) later) = NewWindow"
    using retry_after_admits [of full_env rl_request 3 "at_sec 0" _ rw_new ?es "\<lambda>r sw. sw"] unfolding Let_def by blast
  moreover have "ns (clock full_env 0) + v * 1000000000 \<le> ns (at_sec (59 + v))"
    "list_all (tick_by (ns (at_sec 0) + 2 * Window (rl_cfg (limiter full_env)))) ?es"
    by (simp_all add: full_env_def at_sec_def tick_by_def go_int)
  ultimately show ?thesis unfolding key by blast
qed

end
