(* ===== verification/Ratelimit_Late.thy ===== *)
theory Ratelimit_Late
  imports Ratelimit
begin

text \<open>
  The rate limiter under concurrent requests: \<open>Middleware\<close> and \<open>cleanup\<close> read the clock before they take
  the lock, so the times that reach the critical section can be out of order. The two moments are
  separate steps here, and a bound on the delay between them gives a bound on the requests of one
  window, which is weaker than the one for times in order.
\<close>

section \<open>Reading the clock and taking the lock\<close>

text \<open>\<open>present\<close> is the time of the clock, \<open>waiting\<close> are the requests and ticks that have read it and wait for the lock.\<close>

record late_sys =
  late_rl :: RateLimiter
  present :: int
  waiting :: "rl_event list"

inductive late_step :: "int \<Rightarrow> late_sys \<Rightarrow> rl_event option \<Rightarrow> late_sys \<Rightarrow> bool" for D where
  advance: "present s \<le> t \<Longrightarrow> late_step D s None (s\<lparr>present := t\<rparr>)"
| read_request: "ns now = present s \<Longrightarrow> late_step D s None (s\<lparr>waiting := Request k now # waiting s\<rparr>)"
| read_tick: "ns now = present s \<Longrightarrow> late_step D s None (s\<lparr>waiting := Tick now # waiting s\<rparr>)"
| lock: "e \<in> set (waiting s) \<Longrightarrow> event_time e = Some now \<Longrightarrow> present s - ns now \<le> D \<Longrightarrow>
     late_step D s (Some e) (s\<lparr>late_rl := rl_apply e (late_rl s), waiting := remove1 e (waiting s)\<rparr>)"

inductive late_run :: "int \<Rightarrow> RateLimitConfig \<Rightarrow> rl_event list \<Rightarrow> late_sys \<Rightarrow> bool" for D c where
  late_start: "late_run D c [] \<lparr>late_rl = NewRateLimiter c, present = t, waiting = []\<rparr>"
| late_quiet: "late_run D c es s \<Longrightarrow> late_step D s None s' \<Longrightarrow> late_run D c es s'"
| late_lock: "late_run D c es s \<Longrightarrow> late_step D s (Some e) s' \<Longrightarrow> late_run D c (es @ [e]) s'"

inductive_cases quietE: "late_step D s None s'"
inductive_cases lockE: "late_step D s (Some e) s'"

definition latest :: "int \<Rightarrow> rl_event list \<Rightarrow> int" where
  "latest hi es = foldl (\<lambda>h e. case event_time e of None \<Rightarrow> h | Some t \<Rightarrow> max h (ns t)) hi es"

lemma late_from_snoc:
  "late_from D hi (es @ [e]) \<longleftrightarrow> late_from D hi es \<and>
     (case event_time e of None \<Rightarrow> True | Some t \<Rightarrow> latest hi es - D \<le> ns t)"
  by (induction es arbitrary: hi) (auto simp: latest_def split: option.splits)

lemma latest_snoc: "latest hi (es @ [e]) = (case event_time e of None \<Rightarrow> latest hi es | Some t \<Rightarrow> max (latest hi es) (ns t))"
  by (simp add: latest_def split: option.splits)

lemma late_run_order:
  assumes "late_run D c es s" "0 \<le> D"
  shows "\<exists>hi. late_from D hi es \<and> latest hi es \<le> present s \<and>
    (\<forall>e \<in> set (waiting s). \<exists>t. event_time e = Some t \<and> ns t \<le> present s)"
  using assms(1)
proof (induction rule: late_run.induct)
  case (late_start t)
  show ?case by (rule exI [of _ t]) (simp add: latest_def)
next
  case (late_quiet es s s')
  then obtain hi where hi: "late_from D hi es" "latest hi es \<le> present s"
    "\<forall>e \<in> set (waiting s). \<exists>t. event_time e = Some t \<and> ns t \<le> present s" by blast
  from late_quiet.hyps(2) show ?case
    by (elim quietE) (use hi in \<open>auto intro!: exI [of _ hi] intro: order_trans\<close>)
next
  case (late_lock es s e s')
  then obtain hi where hi: "late_from D hi es" "latest hi es \<le> present s"
    "\<forall>e \<in> set (waiting s). \<exists>t. event_time e = Some t \<and> ns t \<le> present s" by blast
  from late_lock.hyps(2) show ?case
  proof (elim lockE)
    fix now
    assume s': "s' = s\<lparr>late_rl := rl_apply e (late_rl s), waiting := remove1 e (waiting s)\<rparr>"
      and e: "e \<in> set (waiting s)" "event_time e = Some now" "present s - ns now \<le> D"
    have "ns now \<le> present s" using hi(3) e(1,2) by force
    then have "late_from D hi (es @ [e])" "latest hi (es @ [e]) \<le> present s"
      using hi(1,2) e by (simp_all add: late_from_snoc latest_snoc)
    then show ?thesis using s' hi(3) notin_set_remove1 by (intro exI [of _ hi]) fastforce
  qed
qed

section \<open>How many requests one window lets through\<close>

text \<open>
  An interval of one window's length from \<open>a\<close> on meets at most three windows of a key, which begin in
  the window's length before the interval, in the interval, and in the one after it. The first
  request of the first and of the last one is not in the interval. \<open>full\<close> bounds the requests of the
  interval that were let through when the last window of the key began at \<open>v\<close>, \<open>part\<close> when it has
  counted \<open>c\<close> requests.
\<close>

definition full :: "int \<Rightarrow> int \<Rightarrow> int \<Rightarrow> int \<Rightarrow> int" where
  "full N W a v = (if v < a - W then 0 else if v < a then N - 1 else if v \<le> a + W then 2 * N - 1 else 3 * N - 2)"

definition part :: "int \<Rightarrow> int \<Rightarrow> int \<Rightarrow> int \<Rightarrow> int \<Rightarrow> int" where
  "part N W a v c =
     (if v < a - W then 0 else if v < a then min c N - 1 else if v \<le> a + W then N - 1 + min c N
      else if v \<le> a + 2 * W then 2 * N - 2 + min c N else 3 * N - 2)"

fun late_inv :: "int \<Rightarrow> int \<Rightarrow> int \<Rightarrow> int \<Rightarrow> int \<Rightarrow> rateLimitEntry option \<Rightarrow> bool" where
  "late_inv N W a hi n None \<longleftrightarrow> n \<le> 0 \<or> (\<exists>v. n \<le> full N W a v \<and> v + 2 * W < hi)"
| "late_inv N W a hi n (Some e) \<longleftrightarrow>
     1 \<le> rl_count e \<and> ns (rl_windowAt e) \<le> hi \<and> n \<le> part N W a (ns (rl_windowAt e)) (rl_count e)"

lemma part_full: "0 < N \<Longrightarrow> 1 \<le> c \<Longrightarrow> part N W a v c \<le> full N W a v"
  by (auto simp: part_def full_def)

lemma full_new:
  assumes "0 < N" "0 < W" "n \<le> full N W a v" "v + W < t"
  shows "(if a \<le> t \<and> t \<le> a + W then n + 1 else n) \<le> part N W a t 1"
  using assms by (auto simp: part_def full_def split: if_splits)

lemma part_first: "0 < N \<Longrightarrow> n \<le> 0 \<Longrightarrow> (if a \<le> t \<and> t \<le> a + W then n + 1 else n) \<le> part N W a t 1"
  by (auto simp: part_def)

lemma late_bound: "0 < N \<Longrightarrow> late_inv N W a hi n e \<Longrightarrow> n \<le> 3 * N - 2"
  by (cases e) (auto simp: part_def full_def split: if_splits)

lemma late_later: "late_inv N W a hi n e \<Longrightarrow> hi \<le> hi' \<Longrightarrow> late_inv N W a hi' n e"
  by (cases e) (auto intro: less_le_trans)

lemma late_new:
  assumes "late_inv N W a hi n e" "0 < N" "0 < W" "hi - W \<le> ns now"
    and "\<And>x. e = Some x \<Longrightarrow> ns now - ns (rl_windowAt x) > W"
  shows "late_inv N W a (max hi (ns now)) (if a \<le> ns now \<and> ns now \<le> a + W then n + 1 else n)
    (Some \<lparr>rl_count = 1, rl_windowAt = now\<rparr>)"
proof (cases e)
  case None
  then consider "n \<le> 0" | v where "n \<le> full N W a v" "v + W < ns now" using assms(1,4) by force
  then show ?thesis using full_new [OF assms(2,3)] part_first [OF assms(2)] by cases simp_all
next
  case (Some x)
  then have "n \<le> full N W a (ns (rl_windowAt x))"
    using assms(1) part_full [OF assms(2), of "rl_count x" W a "ns (rl_windowAt x)"] by auto
  then show ?thesis using full_new [OF assms(2,3)] assms(5) [OF Some] by simp
qed

lemma late_count:
  assumes "late_inv N W a hi n (Some e)" "0 < N" "0 < W" "hi - W \<le> ns now" "ns now - ns (rl_windowAt e) \<le> W"
  shows "late_inv N W a (max hi (ns now)) (if rl_count e + 1 \<le> N \<and> a \<le> ns now \<and> ns now \<le> a + W then n + 1 else n)
    (Some (e\<lparr>rl_count := rl_count e + 1\<rparr>))"
  using assms by (auto simp: part_def split: if_splits)

lemma late_drop:
  assumes "late_inv N W a hi n (Some e)" "0 < N" "t - ns (rl_windowAt e) > 2 * W"
  shows "late_inv N W a (max hi t) n None"
proof -
  have "n \<le> full N W a (ns (rl_windowAt e))"
    using assms(1) part_full [OF assms(2), of "rl_count e" W a "ns (rl_windowAt e)"] by auto
  then show ?thesis using assms(3) by (auto intro!: exI [of _ "ns (rl_windowAt e)"])
qed

interpretation late: window_counter N W a W "3 * N - 2" "late_inv N W a" for N W a
proof unfold_locales
  fix hi n e and now :: Time
  assume "0 < N" "0 < W" "late_inv N W a hi n e" "hi - W \<le> ns now" "\<And>x. e = Some x \<Longrightarrow> ns now - ns (rl_windowAt x) > W"
  then show "late_inv N W a (max hi (ns now)) (if a \<le> ns now \<and> ns now \<le> a + W then n + 1 else n)
      (Some \<lparr>rl_count = 1, rl_windowAt = now\<rparr>)"
    by (intro late_new)
next
  fix hi n x and now :: Time
  assume "0 < N" "0 < W" "late_inv N W a hi n (Some x)" "hi - W \<le> ns now" "ns now - ns (rl_windowAt x) \<le> W"
  then show "late_inv N W a (max hi (ns now)) (if rl_count x + 1 \<le> N \<and> a \<le> ns now \<and> ns now \<le> a + W then n + 1 else n)
      (Some (x\<lparr>rl_count := rl_count x + 1\<rparr>))"
    by (intro late_count)
qed (fact late_later, rule late_drop, assumption+, rule late_bound)

lemma late_from_delay: "late_from D hi es \<Longrightarrow> D \<le> D' \<Longrightarrow> late_from D' hi es"
  by (induction es arbitrary: hi) (auto split: option.splits)

text \<open>
  C15. Requests and clean-ups read the clock first and take the lock later, in any order, each at most one
  window after its reading; two windows are shorter than 2^63 nanoseconds, and there are at most 2^63 - 1
  events. Then among the requests of one key whose readings lie in an interval of one
  window's length at most \<open>3 \<cdot> RequestsPerWindow - 2\<close> are let through (with times in order it is
  \<open>2 \<cdot> RequestsPerWindow - 1\<close>): a clean-up keeps entries for two windows, so it never forgets a window
  that a late request belongs to.
\<close>

theorem rl_late_bound:
  assumes "late_run D c es s" "0 \<le> D" "D \<le> Window (normalize_config c)"
    and "int (length es) \<le> max_int64" "2 * Window (normalize_config c) < max_int64"
  shows "int (length (filter (counts k a (Window (normalize_config c))) (let_through es (NewRateLimiter c))))
    \<le> 3 * RequestsPerWindow (normalize_config c) - 2"
proof -
  obtain hi where "late_from D hi es" using late_run_order [OF assms(1,2)] by blast
  then have "late_from (Window (normalize_config c)) hi es" using assms(3) by (rule late_from_delay)
  then show ?thesis using late.new_limiter_run [of _ c _ es hi a k] assms(4,5) by simp
qed

section \<open>The bound is reached\<close>

definition late_events :: "rl_event list" where
  "late_events = map (\<lambda>t. Request ''k'' (at_sec t)) [0, 60, 61, 62, 122, 120]"

text \<open>Five requests take the lock at once; one that read the clock at second 120 is overtaken by one of second 122.\<close>

lemma late_request:
  assumes "late_run D c es s" "ns now = present s" "0 \<le> D"
  shows "late_run D c (es @ [Request k now]) (s\<lparr>late_rl := rl_apply (Request k now) (late_rl s)\<rparr>)"
proof -
  have "late_run D c es (s\<lparr>waiting := Request k now # waiting s\<rparr>)"
    using late_quiet [OF assms(1) read_request [OF assms(2)]] .
  from late_lock [OF this lock [of "Request k now"]] show ?thesis using assms(2,3) by simp
qed

lemma late_events_run: "\<exists>s. late_run (2 * Second) demo_rl late_events s"
proof -
  let ?c = demo_rl and ?D = "2 * Second" and ?e = "\<lambda>t. Request ''k'' (at_sec t)"
  have wait: "\<exists>s'. late_run ?D ?c es s' \<and> present s' = t \<and> waiting s' = waiting s"
    if "late_run ?D ?c es s" "present s \<le> t" for es s t
    using late_quiet [OF that(1) advance [OF that(2)]] by (auto intro!: exI [of _ "s\<lparr>present := t\<rparr>"])
  have next_request: "\<exists>s'. late_run ?D ?c (es @ [?e t]) s' \<and> present s' = t * 1000000000 \<and> waiting s' = waiting s"
    if r: "late_run ?D ?c es s" and t: "present s \<le> t * 1000000000" for es s t
  proof -
    obtain s1 where s1: "late_run ?D ?c es s1" "present s1 = t * 1000000000" "waiting s1 = waiting s"
      using wait [OF r t] by blast
    then show ?thesis using late_request [OF s1(1), of "at_sec t" "''k''"] by (auto simp: at_sec_def)
  qed
  have "late_run ?D ?c [] \<lparr>late_rl = NewRateLimiter ?c, present = 0, waiting = []\<rparr>" by (rule late_start)
  from next_request [OF this, of 0] obtain s0 where "late_run ?D ?c [?e 0] s0" "present s0 = 0" "waiting s0 = []" by auto
  from next_request [OF this(1), of 60] this obtain s1 where
    "late_run ?D ?c [?e 0, ?e 60] s1" "present s1 = 60000000000" "waiting s1 = []" by auto
  from next_request [OF this(1), of 61] this obtain s2 where
    "late_run ?D ?c [?e 0, ?e 60, ?e 61] s2" "present s2 = 61000000000" "waiting s2 = []" by auto
  from next_request [OF this(1), of 62] this obtain s3 where
    "late_run ?D ?c [?e 0, ?e 60, ?e 61, ?e 62] s3" "present s3 = 62000000000" "waiting s3 = []" by auto
  from wait [OF this(1), of 120000000000] this obtain s4 where
    s4: "late_run ?D ?c [?e 0, ?e 60, ?e 61, ?e 62] s4" "present s4 = 120000000000" "waiting s4 = []" by auto
  have "late_run ?D ?c [?e 0, ?e 60, ?e 61, ?e 62] (s4\<lparr>waiting := ?e 120 # waiting s4\<rparr>)"
    by (rule late_quiet [OF s4(1) read_request]) (simp add: s4(2) at_sec_def)
  from next_request [OF this, of 122] s4 obtain s5 where
    "late_run ?D ?c [?e 0, ?e 60, ?e 61, ?e 62, ?e 122] s5" "present s5 = 122000000000" "waiting s5 = [?e 120]" by auto
  from late_lock [OF this(1) lock [of "?e 120" _ "at_sec 120"]] this(2,3) show ?thesis
    by (auto simp: late_events_def at_sec_def)
qed

lemma late_events_through:
  "filter (counts ''k'' 60000000000 (Window (normalize_config demo_rl))) (let_through late_events (NewRateLimiter demo_rl))
   = [(''k'', at_sec 60), (''k'', at_sec 61), (''k'', at_sec 62), (''k'', at_sec 120)]"
  by (simp add: late_events_def rl_admit_def NewRateLimiter_def normalize_demo_rl admitted_def at_sec_def Time_Sub_def
      sat64_def go_int wrap64_eq fcard_fempty)

theorem rl_late_bound_witness:
  "int (length (filter (counts ''k'' 60000000000 (Window (normalize_config demo_rl)))
     (let_through late_events (NewRateLimiter demo_rl)))) \<le> 3 * RequestsPerWindow (normalize_config demo_rl) - 2"
proof -
  obtain s where "late_run (2 * Second) demo_rl late_events s" using late_events_run by blast
  then show ?thesis by (rule rl_late_bound) (simp_all add: normalize_demo_rl late_events_def go_int)
qed

end
