(* ===== verification/Pagination.thy ===== *)
theory Pagination
  imports Http
begin

text \<open>
  Pagination parameters of the list endpoints, \<open>src/shared/go/middleware/pagination.go\<close>: the query
  parameters \<open>offset\<close> and \<open>limit\<close> are read with \<open>strconv.Atoi\<close> and forced into their ranges.
\<close>

definition DefaultPageLimit :: int where "DefaultPageLimit = 20"

definition MaxPageLimit :: int where "MaxPageLimit = 100"

definition MaxOffset :: int where "MaxOffset = 1000000"

definition DefaultOffset :: int where "DefaultOffset = 0"

record Pagination =
  pg_Offset :: int
  pg_Limit :: int

definition page_offset :: "int \<times> num_error option \<Rightarrow> int" where
  "page_offset x =
     (let offset = (if snd x \<noteq> None \<or> fst x < 0 then DefaultOffset else fst x)
      in if offset > MaxOffset then MaxOffset else offset)"

definition page_limit :: "int \<times> num_error option \<Rightarrow> int" where
  "page_limit x =
     (let limit = (if snd x \<noteq> None \<or> fst x \<le> 0 then DefaultPageLimit else fst x)
      in if limit > MaxPageLimit then MaxPageLimit else limit)"

definition ParsePagination :: "request \<Rightarrow> Pagination" where
  "ParsePagination r =
     \<lparr>pg_Offset = page_offset (Atoi (Query_Get (URL_Query r) ''offset'')),
      pg_Limit = page_limit (Atoi (Query_Get (URL_Query r) ''limit''))\<rparr>"

lemmas page_defs = page_offset_def page_limit_def DefaultPageLimit_def MaxPageLimit_def MaxOffset_def
  DefaultOffset_def

lemma page_offset_bounds: "0 \<le> page_offset x \<and> page_offset x \<le> 1000000"
  by (simp add: page_defs Let_def)

lemma page_limit_bounds: "1 \<le> page_limit x \<and> page_limit x \<le> 100"
  by (simp add: page_defs Let_def)

text \<open>
  Whatever the query string, the offset is between 0 and 1,000,000 and the limit between 1
  and 100.
\<close>

lemma ParsePagination_bounds:
  "0 \<le> pg_Offset (ParsePagination r) \<and> pg_Offset (ParsePagination r) \<le> 1000000 \<and>
   1 \<le> pg_Limit (ParsePagination r) \<and> pg_Limit (ParsePagination r) \<le> 100"
  by (simp add: ParsePagination_def page_offset_bounds page_limit_bounds)

text \<open>Decimal numerals pass through a query string as they are.\<close>

lemma Itoa_bytes: "c \<in> set (Itoa n) \<Longrightarrow> is_digit c \<or> c = CHR ''-''"
  using show_nat_digits by (auto simp: Itoa_def split: if_splits)

lemma Itoa_not_special:
  "CHR ''%'' \<notin> set (Itoa n)" "CHR ''+'' \<notin> set (Itoa n)" "CHR ''&'' \<notin> set (Itoa n)"
  "CHR '';'' \<notin> set (Itoa n)" "CHR ''='' \<notin> set (Itoa n)"
  using Itoa_bytes by (fastforce simp: is_digit_def)+

lemma query_unescape_plain:
  "CHR ''%'' \<notin> set s \<Longrightarrow> CHR ''+'' \<notin> set s \<Longrightarrow> query_unescape s = Some s"
  by (induction s) auto

lemma query_pair_Itoa:
  assumes "CHR ''='' \<notin> set k" "CHR '';'' \<notin> set k" "CHR ''%'' \<notin> set k" "CHR ''+'' \<notin> set k"
  shows "query_pair (k @ ''='' @ Itoa n) = Some (k, Itoa n)"
proof -
  have "takeWhile (\<lambda>c. c \<noteq> CHR ''='') (k @ ''='' @ Itoa n) = k"
    "dropWhile (\<lambda>c. c \<noteq> CHR ''='') (k @ ''='' @ Itoa n) = ''='' @ Itoa n"
    using assms(1) by (induction k) auto
  then show ?thesis
    using assms Itoa_not_special [of n] by (simp add: query_pair_def query_unescape_plain)
qed

lemma URL_Query_offset_limit:
  assumes "RawQuery r = ''offset='' @ Itoa n @ ''&limit='' @ Itoa m"
  shows "URL_Query r = [(''offset'', Itoa n), (''limit'', Itoa m)]"
proof -
  have "Split CHR ''&'' (RawQuery r) = [''offset'' @ ''='' @ Itoa n, ''limit'' @ ''='' @ Itoa m]"
    using Split_append_sep [of "CHR ''&''" "''offset='' @ Itoa n" "''limit='' @ Itoa m"]
      Split_no_sep [of "CHR ''&''" "''limit='' @ Itoa m"] Itoa_not_special
    by (simp add: assms del: Split.simps)
  then show ?thesis
    using query_pair_Itoa [of "''offset''" n] query_pair_Itoa [of "''limit''" m]
    by (simp add: URL_Query_def List.map_filter_def)
qed

text \<open>
  A query \<open>offset=n&limit=m\<close> with 64-bit numbers gives the offset \<open>n\<close> clamped to
  [0, 1,000,000], and the limit \<open>m\<close> if it is in [1, 100], 100 if it is above, 20 if it is not
  positive.
\<close>

theorem ParsePagination_value:
  assumes "RawQuery r = ''offset='' @ Itoa n @ ''&limit='' @ Itoa m" "in_int64 n" "in_int64 m"
  shows "ParsePagination r =
    \<lparr>pg_Offset = max 0 (min n 1000000), pg_Limit = (if m \<le> 0 then 20 else min m 100)\<rparr>"
  using assms(2,3) unfolding ParsePagination_def URL_Query_offset_limit [OF assms(1)]
  by (simp add: Query_Get_def Atoi_Itoa page_defs Let_def)

definition page_request :: request where
  "page_request =
     \<lparr>Method = ''GET'', URLPath = ''/api/v1/gateways'', RawQuery = ''offset=-3&limit=250'',
      ReqHeader = Map.empty, Body = [], BodyMax = None, ContentLength = 0,
      RemoteAddr = ''10.0.0.1:4242'', Ctx = Map.empty, URLParams = Map.empty\<rparr>"

theorem ParsePagination_value_witness:
  "ParsePagination page_request = \<lparr>pg_Offset = 0, pg_Limit = 100\<rparr>"
proof -
  have "Itoa (-3) = ''-3''" "Itoa 250 = ''250''" by code_simp+
  then show ?thesis
    using ParsePagination_value [of page_request "-3" 250]
    by (simp add: page_request_def in_int64_def go_int)
qed

end
