(* ===== verification/Security.thy ===== *)
theory Security
  imports Auth
begin

text \<open>
  The middleware of \<open>src/shared/go/middleware/security.go\<close>: security response headers, cross-origin
  resource sharing and the limit on request bodies. Each is shown to be a \<open>middleware\<close> with an
  explicit gate.
\<close>

section \<open>Security headers\<close>

record SecurityHeadersConfig =
  ContentSecurityPolicy :: string
  HSTSMaxAge :: int
  FrameOptions :: string

definition DefaultSecurityHeadersConfig :: SecurityHeadersConfig where
  "DefaultSecurityHeadersConfig =
     \<lparr>ContentSecurityPolicy = ''default-src '' @ [CHR 0x27] @ ''none'' @ [CHR 0x27], HSTSMaxAge = 63072000,
      FrameOptions = ''DENY''\<rparr>"

definition normalize_security :: "SecurityHeadersConfig \<Rightarrow> SecurityHeadersConfig" where
  "normalize_security cfg =
     (let c1 = (if ContentSecurityPolicy cfg = []
                then cfg\<lparr>ContentSecurityPolicy := ''default-src '' @ [CHR 0x27] @ ''none'' @ [CHR 0x27]\<rparr> else cfg)
      in if FrameOptions c1 = [] then c1\<lparr>FrameOptions := ''DENY''\<rparr> else c1)"

definition hstsValue :: "SecurityHeadersConfig \<Rightarrow> string" where
  "hstsValue cfg =
     (if HSTSMaxAge cfg > 0 then ''max-age='' @ Itoa (HSTSMaxAge cfg) @ ''; includeSubDomains'' else [])"

definition set_security_headers :: "SecurityHeadersConfig \<Rightarrow> rw \<Rightarrow> rw" where
  "set_security_headers cfg w =
     (let w1 = SetHeader ''X-Content-Type-Options'' ''nosniff'' w;
          w2 = SetHeader ''X-Frame-Options'' (FrameOptions cfg) w1;
          w3 = SetHeader ''X-XSS-Protection'' ''0'' w2;
          w4 = SetHeader ''Content-Security-Policy'' (ContentSecurityPolicy cfg) w3;
          w5 = SetHeader ''Referrer-Policy'' ''strict-origin-when-cross-origin'' w4;
          w6 = SetHeader ''Permissions-Policy'' ''geolocation=(), camera=(), microphone=()'' w5;
          w7 = SetHeader ''Cache-Control'' ''no-store'' w6
      in if hstsValue cfg \<noteq> [] then SetHeader ''Strict-Transport-Security'' (hstsValue cfg) w7 else w7)"

definition SecurityHeaders :: "SecurityHeadersConfig \<Rightarrow> 's handler \<Rightarrow> 's handler" where
  "SecurityHeaders cfg next r sw = next r (fst sw, set_security_headers (normalize_security cfg) (snd sw))"

section \<open>Cross-origin resource sharing\<close>

record CORSConfig =
  AllowedOrigins :: "string list"
  AllowedMethods :: "string list"
  AllowedHeaders :: "string list"
  ExposedHeaders :: "string list"
  AllowCredentials :: bool
  MaxAge :: int

definition DefaultCORSConfig :: CORSConfig where
  "DefaultCORSConfig =
     \<lparr>AllowedOrigins = [], AllowedMethods = [''GET'', ''POST'', ''PUT'', ''DELETE'', ''OPTIONS''],
      AllowedHeaders = [''Accept'', ''Authorization'', ''Content-Type'', ''X-Request-ID''],
      ExposedHeaders = [''X-Request-ID''], AllowCredentials = False, MaxAge = 86400\<rparr>"

definition cors_wildcard :: "CORSConfig \<Rightarrow> bool" where
  "cors_wildcard cfg \<longleftrightarrow> ''*'' \<in> set (AllowedOrigins cfg)"

definition normalize_cors :: "CORSConfig \<Rightarrow> CORSConfig" where
  "normalize_cors cfg =
     (let c1 = (if AllowedMethods cfg = []
                then cfg\<lparr>AllowedMethods := [''GET'', ''POST'', ''PUT'', ''DELETE'', ''OPTIONS'']\<rparr> else cfg);
          c2 = (if AllowedHeaders c1 = []
                then c1\<lparr>AllowedHeaders := [''Accept'', ''Authorization'', ''Content-Type'']\<rparr> else c1);
          c3 = (if MaxAge c2 = 0 then c2\<lparr>MaxAge := 86400\<rparr> else c2)
      in if cors_wildcard c3 \<and> AllowCredentials c3 then c3\<lparr>AllowCredentials := False\<rparr> else c3)"

definition cors_headers :: "CORSConfig \<Rightarrow> string \<Rightarrow> rw \<Rightarrow> rw" where
  "cors_headers cfg origin w =
     (let w1 = (if cors_wildcard cfg then SetHeader ''Access-Control-Allow-Origin'' ''*'' w
                else AddHeader ''Vary'' ''Origin'' (SetHeader ''Access-Control-Allow-Origin'' origin w));
          w2 = (if AllowCredentials cfg then SetHeader ''Access-Control-Allow-Credentials'' ''true'' w1 else w1);
          exposedStr = Join '', '' (ExposedHeaders cfg)
      in if exposedStr \<noteq> [] then SetHeader ''Access-Control-Expose-Headers'' exposedStr w2 else w2)"

definition CORS :: "CORSConfig \<Rightarrow> 's handler \<Rightarrow> 's handler" where
  "CORS cfg0 next r sw =
     (let cfg = normalize_cors cfg0;
          (s, w) = sw;
          origin = Header_Get (ReqHeader r) ''Origin''
      in if origin = [] then next r (s, w)
         else if \<not> (cors_wildcard cfg \<or> origin \<in> set (AllowedOrigins cfg)) then next r (s, w)
         else let w1 = cors_headers cfg origin w in
           if Method r = ''OPTIONS'' then
             let w2 = SetHeader ''Access-Control-Allow-Methods'' (Join '', '' (AllowedMethods cfg)) w1;
                 w3 = SetHeader ''Access-Control-Allow-Headers'' (Join '', '' (AllowedHeaders cfg)) w2;
                 w4 = SetHeader ''Access-Control-Max-Age'' (Itoa (MaxAge cfg)) w3
             in (s, WriteHeader 204 w4)
           else next r (s, w1))"

section \<open>Size of request bodies\<close>

definition MaxBodySize :: "int \<Rightarrow> 's handler \<Rightarrow> 's handler" where
  "MaxBodySize maxBytes next r sw =
     (if ContentLength r > maxBytes
      then (fst sw, writeAuthError 413 (''request body too large (max '' @ Itoa maxBytes @ '' bytes)'') (snd sw))
      else next (r\<lparr>BodyMax := Some (case BodyMax r of None \<Rightarrow> maxBytes | Some m \<Rightarrow> min m maxBytes)\<rparr>) sw)"

section \<open>Gates\<close>

definition security_gate :: "SecurityHeadersConfig \<Rightarrow> 's gate" where
  "security_gate cfg r sw = Inr (r, fst sw, set_security_headers (normalize_security cfg) (snd sw))"

interpretation sec: middleware "SecurityHeaders cfg" "security_gate cfg" for cfg
  by unfold_locales (simp add: SecurityHeaders_def security_gate_def)

text \<open>An origin that the configuration allows; the empty header means no cross-origin request.\<close>

definition cors_allowed :: "CORSConfig \<Rightarrow> request \<Rightarrow> bool" where
  "cors_allowed cfg r \<longleftrightarrow>
     (let origin = Header_Get (ReqHeader r) ''Origin'' in
      origin \<noteq> [] \<and> (cors_wildcard cfg \<or> origin \<in> set (AllowedOrigins cfg)))"

definition preflight_headers :: "CORSConfig \<Rightarrow> rw \<Rightarrow> rw" where
  "preflight_headers cfg w =
     SetHeader ''Access-Control-Max-Age'' (Itoa (MaxAge cfg))
       (SetHeader ''Access-Control-Allow-Headers'' (Join '', '' (AllowedHeaders cfg))
         (SetHeader ''Access-Control-Allow-Methods'' (Join '', '' (AllowedMethods cfg)) w))"

definition cors_gate :: "CORSConfig \<Rightarrow> 's gate" where
  "cors_gate cfg0 r sw =
     (let cfg = normalize_cors cfg0; w1 = cors_headers cfg (Header_Get (ReqHeader r) ''Origin'') (snd sw) in
      if \<not> cors_allowed cfg r then Inr (r, sw)
      else if Method r = ''OPTIONS'' then Inl (fst sw, WriteHeader 204 (preflight_headers cfg w1))
      else Inr (r, fst sw, w1))"

interpretation cors: middleware "CORS cfg" "cors_gate cfg" for cfg
  by unfold_locales
    (auto simp: CORS_def cors_gate_def cors_allowed_def preflight_headers_def Let_def split: prod.splits)

definition body_gate :: "int \<Rightarrow> 's gate" where
  "body_gate maxBytes r sw =
     (if ContentLength r > maxBytes
      then Inl (fst sw, writeAuthError 413 (''request body too large (max '' @ Itoa maxBytes @ '' bytes)'') (snd sw))
      else Inr (r\<lparr>BodyMax := Some (case BodyMax r of None \<Rightarrow> maxBytes | Some m \<Rightarrow> min m maxBytes)\<rparr>, sw))"

interpretation mbs: middleware "MaxBodySize n" "body_gate n" for n
  by unfold_locales (simp add: MaxBodySize_def body_gate_def)

section \<open>What the headers are\<close>

lemma rw_header_AddHeader [simp]: "rw_header (AddHeader k v w) = Header_Add (rw_header w) k v"
  by (simp add: AddHeader_def)

lemma rw_sent_AddHeader [simp]: "rw_sent (AddHeader k v w) = rw_sent w"
  by (simp add: AddHeader_def)

lemma rw_body_AddHeader [simp]: "rw_body (AddHeader k v w) = rw_body w"
  by (simp add: AddHeader_def)

lemma Header_Get_Add_other:
  "CanonicalHeaderKey k' \<noteq> CanonicalHeaderKey k \<Longrightarrow> Header_Get (Header_Add h k v) k' = Header_Get h k'"
  by (simp add: Header_Get_def Header_Add_def)

lemma normalize_cors_simps [simp]:
  "AllowedOrigins (normalize_cors cfg) = AllowedOrigins cfg"
  "cors_wildcard (normalize_cors cfg) = cors_wildcard cfg"
  "AllowCredentials (normalize_cors cfg) \<longleftrightarrow> AllowCredentials cfg \<and> \<not> cors_wildcard cfg"
  by (auto simp: normalize_cors_def cors_wildcard_def Let_def)

text \<open>The set of headers every response gets when the middleware runs before everything else.\<close>

definition has_security_headers :: "SecurityHeadersConfig \<Rightarrow> header \<Rightarrow> bool" where
  "has_security_headers cfg h \<longleftrightarrow>
     Header_Get h ''X-Content-Type-Options'' = ''nosniff'' \<and>
     Header_Get h ''X-Frame-Options'' = FrameOptions (normalize_security cfg) \<and>
     Header_Get h ''X-XSS-Protection'' = ''0'' \<and>
     Header_Get h ''Content-Security-Policy'' = ContentSecurityPolicy (normalize_security cfg) \<and>
     Header_Get h ''Referrer-Policy'' = ''strict-origin-when-cross-origin'' \<and>
     Header_Get h ''Permissions-Policy'' = ''geolocation=(), camera=(), microphone=()'' \<and>
     Header_Get h ''Cache-Control'' = ''no-store'' \<and>
     (HSTSMaxAge cfg > 0 \<longrightarrow>
        Header_Get h ''Strict-Transport-Security'' = ''max-age='' @ Itoa (HSTSMaxAge cfg) @ ''; includeSubDomains'')"

lemma has_security_headers_set: "has_security_headers cfg (rw_header (set_security_headers (normalize_security cfg) w))"
proof -
  have "HSTSMaxAge (normalize_security cfg) = HSTSMaxAge cfg"
    by (simp add: normalize_security_def Let_def)
  then show ?thesis
    by (simp add: has_security_headers_def set_security_headers_def Let_def Header_Get_Set hstsValue_def)
qed

text \<open>The values that replace empty ones are never empty.\<close>

lemma normalize_security_nonempty:
  "ContentSecurityPolicy (normalize_security cfg) \<noteq> []" "FrameOptions (normalize_security cfg) \<noteq> []"
  by (simp_all add: normalize_security_def Let_def)

text \<open>
  \<open>SecurityHeaders\<close> calls the next handler once with the request unchanged and with all seven
  fixed headers in place, none of them empty, and the HSTS header exactly when its age is positive.
\<close>

theorem SecurityHeaders_sets:
  "\<exists>w'. (\<forall>next. SecurityHeaders cfg next r (s, w) = next r (s, w')) \<and> has_security_headers cfg (rw_header w')
    \<and> Header_Get (rw_header w') ''Content-Security-Policy'' \<noteq> [] \<and> Header_Get (rw_header w') ''X-Frame-Options'' \<noteq> []
    \<and> Header_Get (rw_header w') ''Strict-Transport-Security'' =
        (if HSTSMaxAge cfg > 0 then ''max-age='' @ Itoa (HSTSMaxAge cfg) @ ''; includeSubDomains''
         else Header_Get (rw_header w) ''Strict-Transport-Security'')
    \<and> rw_sent w' = rw_sent w \<and> rw_body w' = rw_body w"
proof (intro exI conjI)
  let ?w = "set_security_headers (normalize_security cfg) w"
  show "\<forall>next. SecurityHeaders cfg next r (s, w) = next r (s, ?w)"
    by (auto intro: sec.passed simp: security_gate_def)
  show h: "has_security_headers cfg (rw_header ?w)" by (rule has_security_headers_set)
  show "Header_Get (rw_header ?w) ''Content-Security-Policy'' \<noteq> []"
    "Header_Get (rw_header ?w) ''X-Frame-Options'' \<noteq> []"
    using h normalize_security_nonempty by (simp_all add: has_security_headers_def)
  show "Header_Get (rw_header ?w) ''Strict-Transport-Security'' =
      (if HSTSMaxAge cfg > 0 then ''max-age='' @ Itoa (HSTSMaxAge cfg) @ ''; includeSubDomains''
       else Header_Get (rw_header w) ''Strict-Transport-Security'')"
    by (simp add: set_security_headers_def Let_def Header_Get_Set hstsValue_def normalize_security_def)
  show "rw_sent ?w = rw_sent w" "rw_body ?w = rw_body w"
    by (simp_all add: set_security_headers_def Let_def)
qed

lemma cors_headers_get:
  "Header_Get (rw_header (cors_headers cfg origin w)) ''Access-Control-Allow-Origin'' =
     (if cors_wildcard cfg then ''*'' else origin)"
  "Header_Get (rw_header (cors_headers cfg origin w)) ''Access-Control-Allow-Credentials'' =
     (if AllowCredentials cfg then ''true'' else Header_Get (rw_header w) ''Access-Control-Allow-Credentials'')"
  by (simp_all add: cors_headers_def Let_def Header_Get_Set Header_Get_Add_other)

lemma cors_headers_sent [simp]:
  "rw_sent (cors_headers cfg origin w) = rw_sent w" "rw_body (cors_headers cfg origin w) = rw_body w"
  by (simp_all add: cors_headers_def Let_def)

lemma preflight_headers_get:
  "Header_Get (rw_header (preflight_headers cfg w)) ''Access-Control-Allow-Origin'' =
     Header_Get (rw_header w) ''Access-Control-Allow-Origin''"
  "Header_Get (rw_header (preflight_headers cfg w)) ''Access-Control-Allow-Credentials'' =
     Header_Get (rw_header w) ''Access-Control-Allow-Credentials''"
  "Header_Get (rw_header (preflight_headers cfg w)) ''Access-Control-Allow-Methods'' = Join '', '' (AllowedMethods cfg)"
  "rw_sent (preflight_headers cfg w) = rw_sent w" "rw_body (preflight_headers cfg w) = rw_body w"
  by (simp_all add: preflight_headers_def Header_Get_Set)

text \<open>
  C22. \<open>CORS\<close> leaves a request alone unless its origin is allowed. For an allowed origin it sets
  \<open>Access-Control-Allow-Origin\<close> to \<open>*\<close> or to that origin, answers a preflight itself with 204, no
  body and the allowed methods, and hands any other request on.
\<close>

theorem CORS_behaviour:
  assumes "rw_sent w = None"
  shows "if \<not> cors_allowed cfg r then \<forall>next. CORS cfg next r (s, w) = next r (s, w)
    else if Method r = ''OPTIONS'' then
      \<exists>w'. (\<forall>next. CORS cfg next r (s, w) = (s, w')) \<and> rw_status w' = Some 204 \<and> rw_body w' = rw_body w
        \<and> sent_header w' ''Access-Control-Allow-Origin'' =
            (if cors_wildcard cfg then ''*'' else Header_Get (ReqHeader r) ''Origin'')
        \<and> sent_header w' ''Access-Control-Allow-Methods'' = Join '', '' (AllowedMethods (normalize_cors cfg))
    else
      \<exists>w'. (\<forall>next. CORS cfg next r (s, w) = next r (s, w')) \<and> rw_sent w' = None \<and> rw_body w' = rw_body w
        \<and> Header_Get (rw_header w') ''Access-Control-Allow-Origin'' =
            (if cors_wildcard cfg then ''*'' else Header_Get (ReqHeader r) ''Origin'')"
proof -
  have allowed: "cors_allowed (normalize_cors cfg) r = cors_allowed cfg r"
    by (simp add: cors_allowed_def)
  show ?thesis
    unfolding cors.mw_gate cors_gate_def allowed Let_def
    using assms by (auto simp: cors_headers_get preflight_headers_get rw_status_def sent_header_def
      intro!: exI [of _ "cors_headers (normalize_cors cfg) (Header_Get (ReqHeader r) ''Origin'') w"])
qed

definition demo_cors :: CORSConfig where
  "demo_cors = DefaultCORSConfig\<lparr>AllowedOrigins := [''https://admin.example''], AllowCredentials := True\<rparr>"

definition cors_request :: request where
  "cors_request = demo_request\<lparr>Method := ''OPTIONS'', ReqHeader := [''Origin'' \<mapsto> [''https://admin.example'']]\<rparr>"

lemma cors_request_allowed: "cors_allowed demo_cors cors_request" "\<not> cors_wildcard demo_cors"
  by (simp_all add: cors_allowed_def cors_request_def demo_cors_def Header_Get_def cors_wildcard_def DefaultCORSConfig_def)

theorem CORS_behaviour_witness:
  "\<exists>w'. (\<forall>next. CORS demo_cors next cors_request (demo_env, rw_new) = (demo_env, w')) \<and> rw_status w' = Some 204
     \<and> sent_header w' ''Access-Control-Allow-Origin'' = ''https://admin.example''"
  using CORS_behaviour [of rw_new demo_cors cors_request demo_env] cors_request_allowed
  by (auto simp: rw_new_def cors_request_def Header_Get_def)

text \<open>
  C21. Credentials are never shared with an arbitrary origin: if a response carries
  \<open>Access-Control-Allow-Credentials\<close> and neither an outer middleware nor the next handler put it
  there (nor does the next handler touch \<open>Access-Control-Allow-Origin\<close>), the configuration asks for credentials and has no wildcard, the origin of the request is
  in its list, and \<open>Access-Control-Allow-Origin\<close> names this very origin.
\<close>

theorem CORS_credentials:
  assumes "\<And>r sw. Header_Get (rw_header (snd (next r sw))) ''Access-Control-Allow-Credentials'' =
      Header_Get (rw_header (snd sw)) ''Access-Control-Allow-Credentials''"
    and "\<And>r sw. Header_Get (rw_header (snd (next r sw))) ''Access-Control-Allow-Origin'' =
      Header_Get (rw_header (snd sw)) ''Access-Control-Allow-Origin''"
    and "Header_Get (rw_header w) ''Access-Control-Allow-Credentials'' = []"
    and "CORS cfg next r (s, w) = (s', w')" "Header_Get (rw_header w') ''Access-Control-Allow-Credentials'' \<noteq> []"
  shows "AllowCredentials cfg \<and> \<not> cors_wildcard cfg
    \<and> Header_Get (ReqHeader r) ''Origin'' \<in> set (AllowedOrigins cfg)
    \<and> Header_Get (rw_header w') ''Access-Control-Allow-Origin'' = Header_Get (ReqHeader r) ''Origin''"
proof -
  let ?h = "\<lambda>sw k. Header_Get (rw_header (snd sw)) k"
  obtain sw1 where g: "cors_gate cfg r (s, w) = Inl sw1 \<or> cors_gate cfg r (s, w) = Inr (r, sw1)"
    unfolding cors_gate_def Let_def by metis
  then have h: "?h (s', w') ''Access-Control-Allow-Credentials'' = ?h sw1 ''Access-Control-Allow-Credentials''"
    "?h (s', w') ''Access-Control-Allow-Origin'' = ?h sw1 ''Access-Control-Allow-Origin''"
    unfolding assms(4) [symmetric] using assms(1,2) [of r sw1] by (auto simp: cors.rejected cors.passed)
  have "cors_allowed cfg r" "AllowCredentials cfg" "\<not> cors_wildcard cfg"
    "?h sw1 ''Access-Control-Allow-Origin'' = Header_Get (ReqHeader r) ''Origin''"
    using g h(1) assms(3,5)
    by (auto simp: cors_gate_def cors_headers_get preflight_headers_get cors_allowed_def Let_def split: if_splits)
  with h show ?thesis by (auto simp: cors_allowed_def Let_def)
qed

theorem CORS_credentials_witness:
  "Header_Get (rw_header (snd (CORS demo_cors (\<lambda>r sw. sw) cors_request (demo_env, rw_new))))
     ''Access-Control-Allow-Origin'' = ''https://admin.example''"
proof -
  have "Header_Get (rw_header (snd (CORS demo_cors (\<lambda>r sw. sw) cors_request (demo_env, rw_new))))
     ''Access-Control-Allow-Credentials'' \<noteq> []"
    using cors_request_allowed
    by (simp add: cors.mw_gate cors_gate_def cors_allowed_def cors_headers_get preflight_headers_get Let_def)
      (simp add: demo_cors_def)
  moreover obtain s' w' where "CORS demo_cors (\<lambda>r sw. sw) cors_request (demo_env, rw_new) = (s', w')"
    by (cases "CORS demo_cors (\<lambda>r sw. sw) cors_request (demo_env, rw_new)")
  ultimately show ?thesis
    using CORS_credentials [of "\<lambda>r sw. sw" rw_new demo_cors cors_request demo_env s' w']
    by (simp add: rw_new_def Header_Get_def cors_request_def)
qed

text \<open>
  C23. Behind \<open>MaxBodySize\<close> no handler reads more than the limit: a declared length above it is
  answered with 413, and otherwise reading the body yields the whole of it if it fits, and
  the first \<open>n\<close> bytes followed by an error if it does not.
\<close>

theorem MaxBodySize_limits:
  assumes "BodyMax r = None" "0 \<le> n"
  shows "if ContentLength r > n
    then \<exists>m. \<forall>next. MaxBodySize n next r (s, w) = (s, writeAuthError 413 m w)
    else \<exists>r'. (\<forall>next. MaxBodySize n next r (s, w) = next r' (s, w)) \<and> r'\<lparr>BodyMax := None\<rparr> = r
      \<and> body_view r' = (if int (length (Body r)) \<le> n then (Body r, False) else (take (nat n) (Body r), True))"
proof (cases "ContentLength r > n")
  case True
  then show ?thesis by (auto simp: mbs.mw_gate body_gate_def)
next
  case False
  have "r\<lparr>BodyMax := None\<rparr> = r" using assms(1) by (cases r) simp
  with False assms show ?thesis
    by (auto simp: mbs.mw_gate body_gate_def body_view_def nat_less_iff intro!: exI [of _ "r\<lparr>BodyMax := Some n\<rparr>"])
qed

theorem MaxBodySize_limits_witness:
  "\<exists>r'. (\<forall>next. MaxBodySize 2 next (demo_request\<lparr>Body := ''abc''\<rparr>) (demo_env, rw_new) = next r' (demo_env, rw_new))
     \<and> body_view r' = (''ab'', True)"
  using MaxBodySize_limits [of "demo_request\<lparr>Body := ''abc''\<rparr>" 2 demo_env rw_new]
  by (auto simp: demo_request_def numeral_2_eq_2)

end
