(* ===== verification/Config.thy ===== *)
theory Config
  imports Auth
begin

text \<open>
  The configuration of the control plane, \<open>src/control-plane/internal/config/config.go\<close>. The process
  environment is an argument, a map from names to values. The lemmas say when loading fails, what
  the API keys of the environment become after parsing, and when authentication is on.
\<close>

record Config =
  cfg_Port :: string
  cfg_DatabaseURL :: string
  cfg_EtcdAddr :: string
  cfg_LogLevel :: string
  cfg_JWTSecret :: string
  cfg_JWTIssuer :: string
  cfg_APIKeys :: "string list"
  cfg_CORSOrigins :: "string list"
  cfg_MaxBodyBytes :: int

type_synonym environment = "string \<rightharpoonup> string"

definition getEnv :: "environment \<Rightarrow> string \<Rightarrow> string \<Rightarrow> string" where
  "getEnv env key defaultValue = (case env key of Some value \<Rightarrow> value | None \<Rightarrow> defaultValue)"

definition Load :: "environment \<Rightarrow> string + Config" where
  "Load env =
     (let cfg = \<lparr>cfg_Port = getEnv env ''QSGW_PORT'' ''8085'',
                 cfg_DatabaseURL = getEnv env ''QSGW_DATABASE_URL'' [],
                 cfg_EtcdAddr = getEnv env ''QSGW_ETCD_ADDR'' ''http://127.0.0.1:2379'',
                 cfg_LogLevel = getEnv env ''QSGW_LOG_LEVEL'' ''info'',
                 cfg_JWTSecret = getEnv env ''QUANTUN_JWT_SECRET'' [],
                 cfg_JWTIssuer = getEnv env ''QUANTUN_JWT_ISSUER'' ''quantun'',
                 cfg_APIKeys = [], cfg_CORSOrigins = [], cfg_MaxBodyBytes = 2 ^ 20\<rparr>
      in if cfg_DatabaseURL cfg = [] then Inl ''QSGW_DATABASE_URL is required''
         else
           let apiKeysStr = getEnv env ''QUANTUN_API_KEYS'' [];
               cfg1 = (if apiKeysStr \<noteq> [] then cfg\<lparr>cfg_APIKeys := Split CHR '','' apiKeysStr\<rparr> else cfg);
               corsStr = getEnv env ''QUANTUN_CORS_ORIGINS'' [];
               cfg2 = (if corsStr \<noteq> [] then cfg1\<lparr>cfg_CORSOrigins := Split CHR '','' corsStr\<rparr> else cfg1)
           in Inr cfg2)"

text \<open>
  Loading fails exactly when no database URL is set; otherwise the keys and origins are the
  comma-separated parts of their variables, none when the variable is empty or missing, and the
  body limit is always one mebibyte.
\<close>

lemma Load_result:
  "(\<exists>e. Load env = Inl e) = (getEnv env ''QSGW_DATABASE_URL'' [] = []) \<and>
   (case Load env of
      Inl e \<Rightarrow> e = ''QSGW_DATABASE_URL is required''
    | Inr c \<Rightarrow>
        cfg_DatabaseURL c = getEnv env ''QSGW_DATABASE_URL'' [] \<and>
        cfg_MaxBodyBytes c = 1048576 \<and>
        Join '','' (cfg_APIKeys c) = getEnv env ''QUANTUN_API_KEYS'' [] \<and>
        (cfg_APIKeys c = []) = (getEnv env ''QUANTUN_API_KEYS'' [] = []) \<and>
        Join '','' (cfg_CORSOrigins c) = getEnv env ''QUANTUN_CORS_ORIGINS'' [] \<and>
        (cfg_CORSOrigins c = []) = (getEnv env ''QUANTUN_CORS_ORIGINS'' [] = []))"
  using Join_Split [of "CHR '',''" "getEnv env ''QUANTUN_API_KEYS'' []"]
    Join_Split [of "CHR '',''" "getEnv env ''QUANTUN_CORS_ORIGINS'' []"]
  by (auto simp: Load_def Let_def)

lemma Join_Nil_iff: "Join [c] ps = [] \<longleftrightarrow> ps = [] \<or> ps = [[]]"
  by (induction "[c]" ps rule: Join.induct) auto

text \<open>
  C40. API keys written to \<open>QUANTUN_API_KEYS\<close> as key:subject:role with commas between them are the
  keys that the server authenticates against: every entry comes back, in order, when no part of it
  has white space at its ends, its key and subject have no colon and it has no comma.
\<close>

theorem Load_APIKeys:
  assumes "es \<noteq> []" "getEnv env ''QSGW_DATABASE_URL'' [] \<noteq> []"
    and "getEnv env ''QUANTUN_API_KEYS'' [] = Join '','' (map format_entry es)"
    and "\<forall>e \<in> set es. plain_entry e \<and> CHR '','' \<notin> set (format_entry e)"
  shows "\<exists>c. Load env = Inr c \<and> ParseAPIKeyEntries (cfg_APIKeys c) = es"
proof -
  let ?fs = "map format_entry es"
  have "?fs \<noteq> [[]]" by (cases es) (auto simp: format_entry_def)
  then have "Join '','' ?fs \<noteq> []" using assms(1) by (simp add: Join_Nil_iff)
  moreover have "Split CHR '','' (Join '','' ?fs) = ?fs"
    using assms(1,4) by (intro Split_Join) auto
  moreover have "ParseAPIKeyEntries ?fs = es"
    using assms(4) by (intro ParseAPIKeyEntries_format_entry) simp
  ultimately show ?thesis
    using assms(2,3) by (simp add: Load_def Let_def)
qed

definition demo_keys :: "APIKeyEntry list" where
  "demo_keys =
     [\<lparr>key_Key = ''k1'', key_Subject = ''alice'', key_Role = ''admin''\<rparr>,
      \<lparr>key_Key = ''k2'', key_Subject = ''bob'', key_Role = ''svc:rw''\<rparr>]"

definition demo_environment :: environment where
  "demo_environment =
     [''QSGW_DATABASE_URL'' \<mapsto> ''postgres://db/qsgw'', ''QUANTUN_API_KEYS'' \<mapsto> ''k1:alice:admin,k2:bob:svc:rw'']"

theorem Load_APIKeys_witness:
  "\<exists>c. Load demo_environment = Inr c \<and> ParseAPIKeyEntries (cfg_APIKeys c) = demo_keys"
proof -
  have "TrimSpace ''k1'' = ''k1''" "TrimSpace ''k2'' = ''k2''" "TrimSpace ''alice'' = ''alice''"
    "TrimSpace ''bob'' = ''bob''" "TrimSpace ''admin'' = ''admin''" "TrimSpace ''svc:rw'' = ''svc:rw''"
    by code_simp+
  then show ?thesis
    by (intro Load_APIKeys)
      (simp_all add: demo_keys_def demo_environment_def getEnv_def plain_entry_def format_entry_def)
qed

end
