(* ===== verification/Pool.thy ===== *)
theory Pool
  imports Prelude
begin

text \<open>
  The connection pool, \<open>src/shared/go/database/pool.go\<close>. Package \<open>pgxpool\<close> is a parameter: the record
  \<open>pgxpool\<close> holds the functions that \<open>NewPool\<close> calls, on a state \<open>'w\<close> of the outside world. The lemma
  shows that a pool whose ping fails is closed again.
\<close>

record PoolConfig =
  pool_DatabaseURL :: string
  pool_MaxConns :: int
  pool_MinConns :: int
  pool_MaxConnLifetime :: duration
  pool_MaxConnIdleTime :: duration
  pool_HealthCheckPeriod :: duration
  pool_ConnectTimeout :: duration

definition DefaultPoolConfig :: "string \<Rightarrow> PoolConfig" where
  "DefaultPoolConfig databaseURL =
     \<lparr>pool_DatabaseURL = databaseURL, pool_MaxConns = 25, pool_MinConns = 5, pool_MaxConnLifetime = 1 * Hour,
      pool_MaxConnIdleTime = 30 * Minute, pool_HealthCheckPeriod = 1 * Minute, pool_ConnectTimeout = 5 * Second\<rparr>"

text \<open>The settings of a parsed \<open>pgxpool.Config\<close> that the code writes; the rest of it is \<open>'r\<close>.\<close>

record pgxpool_Config =
  pc_MaxConns :: int
  pc_MinConns :: int
  pc_MaxConnLifetime :: duration
  pc_MaxConnIdleTime :: duration
  pc_HealthCheckPeriod :: duration
  pc_ConnectTimeout :: duration

record ('r, 'p, 'w) pgxpool =
  ParseConfig :: "string \<Rightarrow> string + 'r pgxpool_Config_scheme"
  NewWithConfig :: "'r pgxpool_Config_scheme \<Rightarrow> 'w \<Rightarrow> (string + 'p) \<times> 'w"
  Ping :: "'p \<Rightarrow> 'w \<Rightarrow> string option \<times> 'w"
  Close :: "'p \<Rightarrow> 'w \<Rightarrow> 'w"

definition apply_settings :: "PoolConfig \<Rightarrow> 'r pgxpool_Config_scheme \<Rightarrow> 'r pgxpool_Config_scheme" where
  "apply_settings cfg pc =
     (let pc1 = pc\<lparr>pc_MaxConns := pool_MaxConns cfg, pc_MinConns := pool_MinConns cfg,
                   pc_MaxConnLifetime := pool_MaxConnLifetime cfg, pc_MaxConnIdleTime := pool_MaxConnIdleTime cfg,
                   pc_HealthCheckPeriod := pool_HealthCheckPeriod cfg\<rparr>
      in if pool_ConnectTimeout cfg > 0 then pc1\<lparr>pc_ConnectTimeout := pool_ConnectTimeout cfg\<rparr> else pc1)"

definition NewPool :: "('r, 'p, 'w) pgxpool \<Rightarrow> PoolConfig \<Rightarrow> 'w \<Rightarrow> (string + 'p) \<times> 'w" where
  "NewPool pg cfg w =
     (case ParseConfig pg (pool_DatabaseURL cfg) of
        Inl e \<Rightarrow> (Inl (''parse database URL: '' @ e), w)
      | Inr pc \<Rightarrow>
          (case NewWithConfig pg (apply_settings cfg pc) w of
             (Inl e, w1) \<Rightarrow> (Inl (''create connection pool: '' @ e), w1)
           | (Inr pool, w1) \<Rightarrow>
               (case Ping pg pool w1 of
                  (Some e, w2) \<Rightarrow> (Inl (''ping database: '' @ e), Close pg pool w2)
                | (None, w2) \<Rightarrow> (Inr pool, w2))))"

text \<open>
  What is relied on of the package: \<open>op\<close> counts the open pools of the world; creating a pool opens
  one, a failed creation none, a ping changes nothing and closing closes one.
\<close>

definition pool_counts :: "('r, 'p, 'w) pgxpool \<Rightarrow> ('w \<Rightarrow> int) \<Rightarrow> bool" where
  "pool_counts pg op \<longleftrightarrow>
     (\<forall>pc w. op (snd (NewWithConfig pg pc w)) = op w + (case fst (NewWithConfig pg pc w) of Inr _ \<Rightarrow> 1 | Inl _ \<Rightarrow> 0)) \<and>
     (\<forall>q w. op (snd (Ping pg q w)) = op w) \<and> (\<forall>q w. op (Close pg q w) = op w - 1)"

lemma apply_settings_simps [simp]:
  "pc_MaxConns (apply_settings cfg pc) = pool_MaxConns cfg" "pc_MinConns (apply_settings cfg pc) = pool_MinConns cfg"
  "pc_MaxConnLifetime (apply_settings cfg pc) = pool_MaxConnLifetime cfg"
  "pc_MaxConnIdleTime (apply_settings cfg pc) = pool_MaxConnIdleTime cfg"
  "pc_HealthCheckPeriod (apply_settings cfg pc) = pool_HealthCheckPeriod cfg"
  by (simp_all add: apply_settings_def Let_def)

lemma NewPool_counts:
  assumes "pool_counts pg op" "NewPool pg cfg w = (res, w')"
  shows "op w' = op w + (case res of Inr _ \<Rightarrow> 1 | Inl _ \<Rightarrow> 0)"
proof (cases "ParseConfig pg (pool_DatabaseURL cfg)")
  case (Inl e)
  then show ?thesis using assms(2) by (auto simp: NewPool_def)
next
  case (Inr pc)
  obtain r1 w1 where new: "NewWithConfig pg (apply_settings cfg pc) w = (r1, w1)" by fastforce
  have "op w1 = op w + (case r1 of Inr _ \<Rightarrow> 1 | Inl _ \<Rightarrow> 0)"
    using assms(1) new unfolding pool_counts_def by (metis fst_conv snd_conv)
  moreover have "op w2 = op w1" if "Ping pg q w1 = (r2, w2)" for q r2 w2
    using assms(1) that unfolding pool_counts_def by (metis snd_conv)
  moreover have "op (Close pg q w2) = op w2 - 1" for q w2 using assms(1) unfolding pool_counts_def by blast
  ultimately show ?thesis
    using assms(2) Inr new by (auto simp: NewPool_def split: sum.splits prod.splits option.splits)
qed

text \<open>
  C38. \<open>NewPool\<close> leaks no pool: when it returns one, exactly one more pool is open than before, with
  the sizes and lifetimes of the configuration, and it has answered a ping; when it fails, for
  whatever reason, none is.
\<close>

theorem NewPool_no_leak:
  assumes "pool_counts pg op" "NewPool pg cfg w = (res, w')"
  shows "case res of
      Inl e \<Rightarrow> op w' = op w
    | Inr q \<Rightarrow> op w' = op w + 1 \<and>
        (\<exists>pc w1. NewWithConfig pg pc w = (Inr q, w1) \<and> pc_MaxConns pc = pool_MaxConns cfg \<and>
           pc_MinConns pc = pool_MinConns cfg \<and> pc_MaxConnLifetime pc = pool_MaxConnLifetime cfg \<and>
           pc_MaxConnIdleTime pc = pool_MaxConnIdleTime cfg \<and>
           pc_HealthCheckPeriod pc = pool_HealthCheckPeriod cfg \<and> Ping pg q w1 = (None, w'))"
proof (cases res)
  case (Inl e)
  then show ?thesis using NewPool_counts [OF assms] by simp
next
  case (Inr q)
  then obtain pc w1 where "NewWithConfig pg (apply_settings cfg pc) w = (Inr q, w1)" "Ping pg q w1 = (None, w')"
    using assms(2) by (auto simp: NewPool_def split: sum.splits prod.splits option.splits)
  then show ?thesis using NewPool_counts [OF assms] Inr by (auto intro!: exI [of _ "apply_settings cfg pc"])
qed

text \<open>A package whose servers never answer a ping, on a world that counts open pools.\<close>

definition mute_pgxpool :: "(unit, nat, int) pgxpool" where
  "mute_pgxpool =
     \<lparr>ParseConfig = (\<lambda>_. Inr \<lparr>pc_MaxConns = 4, pc_MinConns = 0, pc_MaxConnLifetime = 0, pc_MaxConnIdleTime = 0,
        pc_HealthCheckPeriod = 0, pc_ConnectTimeout = 0\<rparr>),
      NewWithConfig = (\<lambda>_ w. (Inr 0, w + 1)), Ping = (\<lambda>_ w. (Some ''timeout'', w)), Close = (\<lambda>_ w. w - 1)\<rparr>"

theorem NewPool_no_leak_witness:
  "snd (NewPool mute_pgxpool (DefaultPoolConfig ''postgres://db/qsgw'') 7) = 7"
proof -
  let ?r = "NewPool mute_pgxpool (DefaultPoolConfig ''postgres://db/qsgw'') 7"
  have "pool_counts mute_pgxpool (\<lambda>w. w)" by (simp add: pool_counts_def mute_pgxpool_def)
  moreover have "fst ?r = Inl ''ping database: timeout''" by (simp add: NewPool_def mute_pgxpool_def)
  ultimately show ?thesis
    using NewPool_no_leak [of mute_pgxpool "\<lambda>w. w" "DefaultPoolConfig ''postgres://db/qsgw''" 7 "fst ?r" "snd ?r"] by (simp add: prod_eq_iff)
qed

end
