(* ===== verification/Model.thy ===== *)
theory Model
  imports Http Go_Time
begin

text \<open>
  The data of the management API, \<open>src/control-plane/internal/model\<close>: gateways, routes, upstreams and
  threat events, the bodies of create requests with their JSON names, and the responses with their
  JSON form. A pointer that may be nil is an option. Marshalling of a UUID (its canonical text) is
  the argument \<open>us\<close>; slices that were never appended to are encoded as null.
\<close>

section \<open>Gateways\<close>

record Gateway =
  gw_ID :: uuid
  gw_Name :: string
  gw_Hostname :: string
  gw_Port :: int
  gw_Status :: string
  gw_TlsPolicy :: string
  gw_MaxConnections :: int
  gw_CreatedBy :: string
  gw_CreatedAt :: Time
  gw_UpdatedAt :: Time

record CreateGatewayRequest =
  cg_Name :: string
  cg_Hostname :: string
  cg_Port :: int
  cg_TlsPolicy :: string
  cg_MaxConnections :: int
  cg_CreatedBy :: string

definition cg_zero :: CreateGatewayRequest where
  "cg_zero = \<lparr>cg_Name = [], cg_Hostname = [], cg_Port = 0, cg_TlsPolicy = [], cg_MaxConnections = 0,
    cg_CreatedBy = []\<rparr>"

definition cg_fields :: "CreateGatewayRequest field list" where
  "cg_fields =
     [(''name'', set_str (\<lambda>v r. r\<lparr>cg_Name := v\<rparr>)),
      (''hostname'', set_str (\<lambda>v r. r\<lparr>cg_Hostname := v\<rparr>)),
      (''port'', set_int (\<lambda>v r. r\<lparr>cg_Port := v\<rparr>)),
      (''tls_policy'', set_str (\<lambda>v r. r\<lparr>cg_TlsPolicy := v\<rparr>)),
      (''max_connections'', set_int (\<lambda>v r. r\<lparr>cg_MaxConnections := v\<rparr>)),
      (''created_by'', set_str (\<lambda>v r. r\<lparr>cg_CreatedBy := v\<rparr>))]"

record GatewayResponse =
  gr_ID :: uuid
  gr_Name :: string
  gr_Hostname :: string
  gr_Port :: int
  gr_Status :: string
  gr_TlsPolicy :: string
  gr_MaxConnections :: int
  gr_CreatedAt :: string
  gr_UpdatedAt :: string

definition Gateway_ToResponse :: "Gateway \<Rightarrow> GatewayResponse" where
  "Gateway_ToResponse g =
     \<lparr>gr_ID = gw_ID g, gr_Name = gw_Name g, gr_Hostname = gw_Hostname g, gr_Port = gw_Port g,
      gr_Status = gw_Status g, gr_TlsPolicy = gw_TlsPolicy g, gr_MaxConnections = gw_MaxConnections g,
      gr_CreatedAt = Format_RFC3339 (gw_CreatedAt g), gr_UpdatedAt = Format_RFC3339 (gw_UpdatedAt g)\<rparr>"

definition GatewayResponse_json :: "(uuid \<Rightarrow> string) \<Rightarrow> GatewayResponse \<Rightarrow> json" where
  "GatewayResponse_json us g =
     JObj [(''id'', JStr (us (gr_ID g))), (''name'', JStr (gr_Name g)), (''hostname'', JStr (gr_Hostname g)),
           (''port'', json_int (gr_Port g)), (''status'', JStr (gr_Status g)),
           (''tls_policy'', JStr (gr_TlsPolicy g)), (''max_connections'', json_int (gr_MaxConnections g)),
           (''created_at'', JStr (gr_CreatedAt g)), (''updated_at'', JStr (gr_UpdatedAt g))]"

text \<open>A slice of responses built by \<open>append\<close> from nil.\<close>

definition slice_json :: "('a \<Rightarrow> json) \<Rightarrow> 'a list \<Rightarrow> json" where
  "slice_json f xs = (if xs = [] then JNull else JArr (map f xs))"

record GatewayListResponse =
  gl_Gateways :: "GatewayResponse list"
  gl_TotalCount :: int
  gl_Offset :: int
  gl_Limit :: int

definition GatewayListResponse_json :: "(uuid \<Rightarrow> string) \<Rightarrow> GatewayListResponse \<Rightarrow> json" where
  "GatewayListResponse_json us l =
     JObj [(''gateways'', slice_json (GatewayResponse_json us) (gl_Gateways l)),
           (''total_count'', json_int (gl_TotalCount l)), (''offset'', json_int (gl_Offset l)),
           (''limit'', json_int (gl_Limit l))]"

section \<open>Routes\<close>

record Route =
  rt_ID :: uuid
  rt_GatewayID :: uuid
  rt_UpstreamID :: uuid
  rt_PathPrefix :: string
  rt_StripPrefix :: bool
  rt_Priority :: int
  rt_TlsPolicy :: "string option"
  rt_RateLimitRPS :: "int option"
  rt_Enabled :: bool
  rt_CreatedAt :: Time
  rt_UpdatedAt :: Time

record CreateRouteRequest =
  cr_GatewayID :: string
  cr_UpstreamID :: string
  cr_PathPrefix :: string
  cr_StripPrefix :: bool
  cr_Priority :: int
  cr_TlsPolicy :: string
  cr_RateLimitRPS :: int

definition cr_zero :: CreateRouteRequest where
  "cr_zero = \<lparr>cr_GatewayID = [], cr_UpstreamID = [], cr_PathPrefix = [], cr_StripPrefix = False,
    cr_Priority = 0, cr_TlsPolicy = [], cr_RateLimitRPS = 0\<rparr>"

definition cr_fields :: "CreateRouteRequest field list" where
  "cr_fields =
     [(''gateway_id'', set_str (\<lambda>v r. r\<lparr>cr_GatewayID := v\<rparr>)),
      (''upstream_id'', set_str (\<lambda>v r. r\<lparr>cr_UpstreamID := v\<rparr>)),
      (''path_prefix'', set_str (\<lambda>v r. r\<lparr>cr_PathPrefix := v\<rparr>)),
      (''strip_prefix'', set_bool (\<lambda>v r. r\<lparr>cr_StripPrefix := v\<rparr>)),
      (''priority'', set_int (\<lambda>v r. r\<lparr>cr_Priority := v\<rparr>)),
      (''tls_policy'', set_str (\<lambda>v r. r\<lparr>cr_TlsPolicy := v\<rparr>)),
      (''rate_limit_rps'', set_int (\<lambda>v r. r\<lparr>cr_RateLimitRPS := v\<rparr>))]"

record RouteResponse =
  rr_ID :: uuid
  rr_GatewayID :: uuid
  rr_UpstreamID :: uuid
  rr_PathPrefix :: string
  rr_StripPrefix :: bool
  rr_Priority :: int
  rr_TlsPolicy :: "string option"
  rr_RateLimitRPS :: "int option"
  rr_Enabled :: bool
  rr_CreatedAt :: string

definition Route_ToResponse :: "Route \<Rightarrow> RouteResponse" where
  "Route_ToResponse r =
     \<lparr>rr_ID = rt_ID r, rr_GatewayID = rt_GatewayID r, rr_UpstreamID = rt_UpstreamID r,
      rr_PathPrefix = rt_PathPrefix r, rr_StripPrefix = rt_StripPrefix r, rr_Priority = rt_Priority r,
      rr_TlsPolicy = rt_TlsPolicy r, rr_RateLimitRPS = rt_RateLimitRPS r, rr_Enabled = rt_Enabled r,
      rr_CreatedAt = Format_RFC3339 (rt_CreatedAt r)\<rparr>"

text \<open>A nil pointer with \<open>omitempty\<close> leaves its member out.\<close>

definition opt_member :: "string \<Rightarrow> ('a \<Rightarrow> json) \<Rightarrow> 'a option \<Rightarrow> (string \<times> json) list" where
  "opt_member k f x = (case x of None \<Rightarrow> [] | Some v \<Rightarrow> [(k, f v)])"

definition RouteResponse_json :: "(uuid \<Rightarrow> string) \<Rightarrow> RouteResponse \<Rightarrow> json" where
  "RouteResponse_json us r =
     JObj ([(''id'', JStr (us (rr_ID r))), (''gateway_id'', JStr (us (rr_GatewayID r))),
            (''upstream_id'', JStr (us (rr_UpstreamID r))), (''path_prefix'', JStr (rr_PathPrefix r)),
            (''strip_prefix'', JBool (rr_StripPrefix r)), (''priority'', json_int (rr_Priority r))]
           @ opt_member ''tls_policy'' JStr (rr_TlsPolicy r)
           @ opt_member ''rate_limit_rps'' json_int (rr_RateLimitRPS r)
           @ [(''enabled'', JBool (rr_Enabled r)), (''created_at'', JStr (rr_CreatedAt r))])"

record RouteListResponse =
  rl_Routes :: "RouteResponse list"
  rl_TotalCount :: int

definition RouteListResponse_json :: "(uuid \<Rightarrow> string) \<Rightarrow> RouteListResponse \<Rightarrow> json" where
  "RouteListResponse_json us l =
     JObj [(''routes'', slice_json (RouteResponse_json us) (rl_Routes l)),
           (''total_count'', json_int (rl_TotalCount l))]"

section \<open>Threat events\<close>

record ThreatEvent =
  te_ID :: uuid
  te_GatewayID :: uuid
  te_ThreatType :: string
  te_Severity :: string
  te_SourceIP :: "string option"
  te_Description :: string
  te_Mitigated :: bool
  te_DetectedAt :: Time

record ThreatEventResponse =
  tr_ID :: uuid
  tr_GatewayID :: uuid
  tr_ThreatType :: string
  tr_Severity :: string
  tr_SourceIP :: "string option"
  tr_Description :: string
  tr_Mitigated :: bool
  tr_DetectedAt :: string

definition ThreatEvent_ToResponse :: "ThreatEvent \<Rightarrow> ThreatEventResponse" where
  "ThreatEvent_ToResponse t =
     \<lparr>tr_ID = te_ID t, tr_GatewayID = te_GatewayID t, tr_ThreatType = te_ThreatType t,
      tr_Severity = te_Severity t, tr_SourceIP = te_SourceIP t, tr_Description = te_Description t,
      tr_Mitigated = te_Mitigated t, tr_DetectedAt = Format_RFC3339 (te_DetectedAt t)\<rparr>"

definition ThreatEventResponse_json :: "(uuid \<Rightarrow> string) \<Rightarrow> ThreatEventResponse \<Rightarrow> json" where
  "ThreatEventResponse_json us t =
     JObj ([(''id'', JStr (us (tr_ID t))), (''gateway_id'', JStr (us (tr_GatewayID t))),
            (''threat_type'', JStr (tr_ThreatType t)), (''severity'', JStr (tr_Severity t))]
           @ opt_member ''source_ip'' JStr (tr_SourceIP t)
           @ [(''description'', JStr (tr_Description t)), (''mitigated'', JBool (tr_Mitigated t)),
              (''detected_at'', JStr (tr_DetectedAt t))])"

record ThreatEventListResponse =
  tl_Events :: "ThreatEventResponse list"
  tl_TotalCount :: int
  tl_Offset :: int
  tl_Limit :: int

definition ThreatEventListResponse_json :: "(uuid \<Rightarrow> string) \<Rightarrow> ThreatEventListResponse \<Rightarrow> json" where
  "ThreatEventListResponse_json us l =
     JObj [(''events'', slice_json (ThreatEventResponse_json us) (tl_Events l)),
           (''total_count'', json_int (tl_TotalCount l)), (''offset'', json_int (tl_Offset l)),
           (''limit'', json_int (tl_Limit l))]"

section \<open>Upstreams\<close>

record Upstream =
  up_ID :: uuid
  up_Name :: string
  up_Host :: string
  up_Port :: int
  up_Protocol :: string
  up_TlsVerify :: bool
  up_HealthCheckPath :: string
  up_HealthCheckIntervalS :: int
  up_IsHealthy :: bool
  up_CreatedAt :: Time
  up_UpdatedAt :: Time

record CreateUpstreamRequest =
  cu_Name :: string
  cu_Host :: string
  cu_Port :: int
  cu_Protocol :: string
  cu_TlsVerify :: bool
  cu_HealthCheckPath :: string
  cu_HealthCheckIntervalS :: int

definition cu_zero :: CreateUpstreamRequest where
  "cu_zero = \<lparr>cu_Name = [], cu_Host = [], cu_Port = 0, cu_Protocol = [], cu_TlsVerify = False,
    cu_HealthCheckPath = [], cu_HealthCheckIntervalS = 0\<rparr>"

definition cu_fields :: "CreateUpstreamRequest field list" where
  "cu_fields =
     [(''name'', set_str (\<lambda>v r. r\<lparr>cu_Name := v\<rparr>)),
      (''host'', set_str (\<lambda>v r. r\<lparr>cu_Host := v\<rparr>)),
      (''port'', set_int (\<lambda>v r. r\<lparr>cu_Port := v\<rparr>)),
      (''protocol'', set_str (\<lambda>v r. r\<lparr>cu_Protocol := v\<rparr>)),
      (''tls_verify'', set_bool (\<lambda>v r. r\<lparr>cu_TlsVerify := v\<rparr>)),
      (''health_check_path'', set_str (\<lambda>v r. r\<lparr>cu_HealthCheckPath := v\<rparr>)),
      (''health_check_interval_secs'', set_int (\<lambda>v r. r\<lparr>cu_HealthCheckIntervalS := v\<rparr>))]"

record UpstreamResponse =
  ur_ID :: uuid
  ur_Name :: string
  ur_Host :: string
  ur_Port :: int
  ur_Protocol :: string
  ur_TlsVerify :: bool
  ur_HealthCheckPath :: string
  ur_IsHealthy :: bool
  ur_CreatedAt :: string

definition Upstream_ToResponse :: "Upstream \<Rightarrow> UpstreamResponse" where
  "Upstream_ToResponse u =
     \<lparr>ur_ID = up_ID u, ur_Name = up_Name u, ur_Host = up_Host u, ur_Port = up_Port u,
      ur_Protocol = up_Protocol u, ur_TlsVerify = up_TlsVerify u, ur_HealthCheckPath = up_HealthCheckPath u,
      ur_IsHealthy = up_IsHealthy u, ur_CreatedAt = Format_RFC3339 (up_CreatedAt u)\<rparr>"

definition UpstreamResponse_json :: "(uuid \<Rightarrow> string) \<Rightarrow> UpstreamResponse \<Rightarrow> json" where
  "UpstreamResponse_json us u =
     JObj [(''id'', JStr (us (ur_ID u))), (''name'', JStr (ur_Name u)), (''host'', JStr (ur_Host u)),
           (''port'', json_int (ur_Port u)), (''protocol'', JStr (ur_Protocol u)),
           (''tls_verify'', JBool (ur_TlsVerify u)), (''health_check_path'', JStr (ur_HealthCheckPath u)),
           (''is_healthy'', JBool (ur_IsHealthy u)), (''created_at'', JStr (ur_CreatedAt u))]"

record UpstreamListResponse =
  ul_Upstreams :: "UpstreamResponse list"
  ul_TotalCount :: int

definition UpstreamListResponse_json :: "(uuid \<Rightarrow> string) \<Rightarrow> UpstreamListResponse \<Rightarrow> json" where
  "UpstreamListResponse_json us l =
     JObj [(''upstreams'', slice_json (UpstreamResponse_json us) (ul_Upstreams l)),
           (''total_count'', json_int (ul_TotalCount l))]"

end
