(* ===== verification/Repository.thy ===== *)
theory Repository
  imports Ratelimit Model "HOL-Library.Monad_Syntax"
begin

text \<open>
  The repositories, \<open>src/control-plane/internal/repository\<close>: one SQL statement with its arguments per
  operation, the scan of the rows and the errors they return. The driver \<open>pgx\<close> with the database
  behind it, and the package \<open>uuid\<close>, are parameters: the record \<open>pkgs\<close> holds what the program calls
  of them. \<open>'d\<close> is the content of the database; a query does not change it. Contexts (deadlines,
  cancellation) are left out.
\<close>

section \<open>The packages the program calls\<close>

datatype sqlval = SqlNull | SqlUuid uuid | SqlText string | SqlInt int | SqlBool bool | SqlTime Time

type_synonym sqlrow = "sqlval list"

datatype pgx_error = ErrNoRows | ScanError | PgError string

text \<open>
  \<open>Exec\<close> returns the number of affected rows, \<open>QueryRow\<close> the first row or \<open>ErrNoRows\<close>, \<open>Query\<close> the
  rows and the error that reading them ended with.
\<close>

record 'd pkgs =
  pgx_Exec :: "'d \<Rightarrow> string \<Rightarrow> sqlval list \<Rightarrow> (pgx_error + int) \<times> 'd"
  pgx_QueryRow :: "'d \<Rightarrow> string \<Rightarrow> sqlval list \<Rightarrow> pgx_error + sqlrow"
  pgx_Query :: "'d \<Rightarrow> string \<Rightarrow> sqlval list \<Rightarrow> pgx_error + sqlrow list \<times> pgx_error option"
  uuid_String :: "uuid \<Rightarrow> string"
  uuid_Parse :: "string \<Rightarrow> uuid option"

record 'd app = rl_env +
  app_db :: 'd

text \<open>\<open>fmt.Errorf\<close> with a message in front of the driver's error, the not-found errors, and errors passed on.\<close>

datatype repo_error = Wrapped string pgx_error | NotFound string uuid | Unwrapped pgx_error

definition pool_Exec :: "'d pkgs \<Rightarrow> string \<Rightarrow> sqlval list \<Rightarrow> ('d, 'a) app_scheme \<Rightarrow>
    (pgx_error + int) \<times> ('d, 'a) app_scheme" where
  "pool_Exec pk sql args s = (let (res, d) = pgx_Exec pk (app_db s) sql args in (res, s\<lparr>app_db := d\<rparr>))"

section \<open>Scanning\<close>

definition as_uuid :: "sqlval \<Rightarrow> uuid option" where
  "as_uuid v = (case v of SqlUuid u \<Rightarrow> Some u | _ \<Rightarrow> None)"

definition as_text :: "sqlval \<Rightarrow> string option" where
  "as_text v = (case v of SqlText s \<Rightarrow> Some s | _ \<Rightarrow> None)"

definition as_int :: "sqlval \<Rightarrow> int option" where
  "as_int v = (case v of SqlInt n \<Rightarrow> Some n | _ \<Rightarrow> None)"

definition as_bool :: "sqlval \<Rightarrow> bool option" where
  "as_bool v = (case v of SqlBool b \<Rightarrow> Some b | _ \<Rightarrow> None)"

definition as_time :: "sqlval \<Rightarrow> Time option" where
  "as_time v = (case v of SqlTime t \<Rightarrow> Some t | _ \<Rightarrow> None)"

text \<open>A pointer destination takes NULL as nil.\<close>

definition as_ptr :: "(sqlval \<Rightarrow> 'a option) \<Rightarrow> sqlval \<Rightarrow> 'a option option" where
  "as_ptr f v = (if v = SqlNull then Some None else map_option Some (f v))"

definition ptr_val :: "('a \<Rightarrow> sqlval) \<Rightarrow> 'a option \<Rightarrow> sqlval" where
  "ptr_val f x = (case x of None \<Rightarrow> SqlNull | Some v \<Rightarrow> f v)"

text \<open>A call of \<open>Scan\<close> fails when the number of columns or a type does not fit its destinations.\<close>

definition scan_gateway :: "sqlrow \<Rightarrow> Gateway option" where
  "scan_gateway row =
     (if length row \<noteq> 10 then None
      else do {
        i \<leftarrow> as_uuid (row ! 0); n \<leftarrow> as_text (row ! 1); h \<leftarrow> as_text (row ! 2); p \<leftarrow> as_int (row ! 3);
        st \<leftarrow> as_text (row ! 4); tp \<leftarrow> as_text (row ! 5); mc \<leftarrow> as_int (row ! 6); cb \<leftarrow> as_text (row ! 7);
        ca \<leftarrow> as_time (row ! 8); ua \<leftarrow> as_time (row ! 9);
        Some \<lparr>gw_ID = i, gw_Name = n, gw_Hostname = h, gw_Port = p, gw_Status = st, gw_TlsPolicy = tp,
              gw_MaxConnections = mc, gw_CreatedBy = cb, gw_CreatedAt = ca, gw_UpdatedAt = ua\<rparr>
      })"

definition scan_route :: "sqlrow \<Rightarrow> Route option" where
  "scan_route row =
     (if length row \<noteq> 11 then None
      else do {
        i \<leftarrow> as_uuid (row ! 0); g \<leftarrow> as_uuid (row ! 1); u \<leftarrow> as_uuid (row ! 2); pp \<leftarrow> as_text (row ! 3);
        sp \<leftarrow> as_bool (row ! 4); pr \<leftarrow> as_int (row ! 5); tp \<leftarrow> as_ptr as_text (row ! 6);
        rps \<leftarrow> as_ptr as_int (row ! 7); en \<leftarrow> as_bool (row ! 8); ca \<leftarrow> as_time (row ! 9); ua \<leftarrow> as_time (row ! 10);
        Some \<lparr>rt_ID = i, rt_GatewayID = g, rt_UpstreamID = u, rt_PathPrefix = pp, rt_StripPrefix = sp,
              rt_Priority = pr, rt_TlsPolicy = tp, rt_RateLimitRPS = rps, rt_Enabled = en,
              rt_CreatedAt = ca, rt_UpdatedAt = ua\<rparr>
      })"

definition scan_threat :: "sqlrow \<Rightarrow> ThreatEvent option" where
  "scan_threat row =
     (if length row \<noteq> 8 then None
      else do {
        i \<leftarrow> as_uuid (row ! 0); g \<leftarrow> as_uuid (row ! 1); tt \<leftarrow> as_text (row ! 2); sv \<leftarrow> as_text (row ! 3);
        ip \<leftarrow> as_ptr as_text (row ! 4); de \<leftarrow> as_text (row ! 5); mi \<leftarrow> as_bool (row ! 6); da \<leftarrow> as_time (row ! 7);
        Some \<lparr>te_ID = i, te_GatewayID = g, te_ThreatType = tt, te_Severity = sv, te_SourceIP = ip,
              te_Description = de, te_Mitigated = mi, te_DetectedAt = da\<rparr>
      })"

definition scan_upstream :: "sqlrow \<Rightarrow> Upstream option" where
  "scan_upstream row =
     (if length row \<noteq> 11 then None
      else do {
        i \<leftarrow> as_uuid (row ! 0); n \<leftarrow> as_text (row ! 1); h \<leftarrow> as_text (row ! 2); p \<leftarrow> as_int (row ! 3);
        pr \<leftarrow> as_text (row ! 4); tv \<leftarrow> as_bool (row ! 5); hp \<leftarrow> as_text (row ! 6); hi \<leftarrow> as_int (row ! 7);
        ih \<leftarrow> as_bool (row ! 8); ca \<leftarrow> as_time (row ! 9); ua \<leftarrow> as_time (row ! 10);
        Some \<lparr>up_ID = i, up_Name = n, up_Host = h, up_Port = p, up_Protocol = pr, up_TlsVerify = tv,
              up_HealthCheckPath = hp, up_HealthCheckIntervalS = hi, up_IsHealthy = ih, up_CreatedAt = ca,
              up_UpdatedAt = ua\<rparr>
      })"

definition scan_count :: "sqlrow \<Rightarrow> int option" where
  "scan_count row = (case row of [v] \<Rightarrow> as_int v | _ \<Rightarrow> None)"

text \<open>\<open>QueryRow(...).Scan(...)\<close> and the loop over \<open>rows.Next\<close>.\<close>

definition query_scan :: "'d pkgs \<Rightarrow> (sqlrow \<Rightarrow> 'r option) \<Rightarrow> string \<Rightarrow> sqlval list \<Rightarrow>
    ('d, 'a) app_scheme \<Rightarrow> pgx_error + 'r" where
  "query_scan pk scan sql args s =
     (case pgx_QueryRow pk (app_db s) sql args of
        Inl e \<Rightarrow> Inl e
      | Inr row \<Rightarrow> (case scan row of None \<Rightarrow> Inl ScanError | Some x \<Rightarrow> Inr x))"

fun scan_rows :: "(sqlrow \<Rightarrow> 'r option) \<Rightarrow> sqlrow list \<Rightarrow> 'r list option" where
  "scan_rows scan [] = Some []"
| "scan_rows scan (row # rows) =
     (case scan row of None \<Rightarrow> None | Some x \<Rightarrow> map_option ((#) x) (scan_rows scan rows))"

definition query_rows :: "'d pkgs \<Rightarrow> (sqlrow \<Rightarrow> 'r option) \<Rightarrow> string \<Rightarrow> string \<Rightarrow> string \<Rightarrow> sqlval list \<Rightarrow>
    ('d, 'a) app_scheme \<Rightarrow> repo_error + 'r list" where
  "query_rows pk scan list_msg scan_msg sql args s =
     (case pgx_Query pk (app_db s) sql args of
        Inl e \<Rightarrow> Inl (Wrapped list_msg e)
      | Inr (rows, err) \<Rightarrow>
          (case scan_rows scan rows of
             None \<Rightarrow> Inl (Wrapped scan_msg ScanError)
           | Some xs \<Rightarrow> (case err of None \<Rightarrow> Inr xs | Some e \<Rightarrow> Inl (Unwrapped e))))"

text \<open>The error of a lookup by primary key.\<close>

definition lookup_error :: "string \<Rightarrow> string \<Rightarrow> uuid \<Rightarrow> pgx_error \<Rightarrow> repo_error" where
  "lookup_error missing_msg fail_msg i e = (if e = ErrNoRows then NotFound missing_msg i else Wrapped fail_msg e)"

section \<open>Gateways\<close>

definition sql_block :: "string \<Rightarrow> string \<Rightarrow> string" where
  "sql_block l1 l2 =
     (let nl = [CHR 0x0A, CHR 0x09] in nl @ [CHR 0x09] @ l1 @ nl @ [CHR 0x09] @ l2 @ nl)"

definition sql_gateway_insert :: string where
  "sql_gateway_insert = sql_block
     ''INSERT INTO gateways (id, name, hostname, port, status, tls_policy, max_connections, created_by, created_at)''
     ''VALUES ($1, $2, $3, $4, $5, $6, $7, $8, $9)''"

definition sql_gateway_columns :: string where
  "sql_gateway_columns = ''SELECT id, name, hostname, port, status, tls_policy, max_connections, created_by, created_at, updated_at FROM gateways''"

definition sql_gateway_get :: string where
  "sql_gateway_get = sql_gateway_columns @ '' WHERE id = $1''"

definition sql_gateway_count :: string where
  "sql_gateway_count = ''SELECT COUNT(*) FROM gateways''"

definition sql_gateway_list :: string where
  "sql_gateway_list = sql_gateway_columns @ '' ORDER BY created_at DESC OFFSET $1 LIMIT $2''"

definition sql_gateway_status :: string where
  "sql_gateway_status = ''UPDATE gateways SET status = $1, updated_at = $2 WHERE id = $3''"

definition gateway_args :: "Gateway \<Rightarrow> sqlval list" where
  "gateway_args g =
     [SqlUuid (gw_ID g), SqlText (gw_Name g), SqlText (gw_Hostname g), SqlInt (gw_Port g),
      SqlText (gw_Status g), SqlText (gw_TlsPolicy g), SqlInt (gw_MaxConnections g),
      SqlText (gw_CreatedBy g), SqlTime (gw_CreatedAt g)]"

definition GatewayRepository_Create :: "'d pkgs \<Rightarrow> Gateway \<Rightarrow> ('d, 'a) app_scheme \<Rightarrow>
    repo_error option \<times> ('d, 'a) app_scheme" where
  "GatewayRepository_Create pk g s =
     (case pool_Exec pk sql_gateway_insert (gateway_args g) s of
        (Inl e, s') \<Rightarrow> (Some (Wrapped ''failed to insert gateway'' e), s')
      | (Inr _, s') \<Rightarrow> (None, s'))"

definition GatewayRepository_GetByID :: "'d pkgs \<Rightarrow> uuid \<Rightarrow> ('d, 'a) app_scheme \<Rightarrow> repo_error + Gateway" where
  "GatewayRepository_GetByID pk i s =
     (case query_scan pk scan_gateway sql_gateway_get [SqlUuid i] s of
        Inl e \<Rightarrow> Inl (lookup_error ''gateway not found'' ''failed to get gateway'' i e)
      | Inr g \<Rightarrow> Inr g)"

definition GatewayRepository_List :: "'d pkgs \<Rightarrow> int \<Rightarrow> int \<Rightarrow> ('d, 'a) app_scheme \<Rightarrow>
    repo_error + Gateway list \<times> int" where
  "GatewayRepository_List pk offset limit s =
     (case query_scan pk scan_count sql_gateway_count [] s of
        Inl e \<Rightarrow> Inl (Wrapped ''failed to count gateways'' e)
      | Inr n \<Rightarrow>
          (case query_rows pk scan_gateway ''failed to list gateways'' ''failed to scan gateway''
                  sql_gateway_list [SqlInt offset, SqlInt limit] s of
             Inl e \<Rightarrow> Inl e
           | Inr gateways \<Rightarrow> Inr (gateways, n)))"

definition GatewayRepository_UpdateStatus :: "'d pkgs \<Rightarrow> uuid \<Rightarrow> string \<Rightarrow> ('d, 'a) app_scheme \<Rightarrow>
    repo_error option \<times> ('d, 'a) app_scheme" where
  "GatewayRepository_UpdateStatus pk i status s =
     (let (now, s1) = time_Now s in
      case pool_Exec pk sql_gateway_status [SqlText status, SqlTime (Time_UTC now), SqlUuid i] s1 of
        (Inl e, s2) \<Rightarrow> (Some (Wrapped ''failed to update gateway status'' e), s2)
      | (Inr n, s2) \<Rightarrow> if n = 0 then (Some (NotFound ''gateway not found'' i), s2) else (None, s2))"

section \<open>Routes\<close>

definition sql_route_insert :: string where
  "sql_route_insert = sql_block
     ''INSERT INTO routes (id, gateway_id, upstream_id, path_prefix, strip_prefix, priority, tls_policy, rate_limit_rps, enabled, created_at)''
     ''VALUES ($1, $2, $3, $4, $5, $6, $7, $8, $9, $10)''"

definition sql_route_columns :: string where
  "sql_route_columns = ''SELECT id, gateway_id, upstream_id, path_prefix, strip_prefix, priority, tls_policy, rate_limit_rps, enabled, created_at, updated_at FROM routes''"

definition sql_route_get :: string where
  "sql_route_get = sql_route_columns @ '' WHERE id = $1''"

definition sql_route_list :: string where
  "sql_route_list = sql_route_columns @ '' WHERE gateway_id = $1 ORDER BY priority DESC''"

definition sql_route_delete :: string where
  "sql_route_delete = ''DELETE FROM routes WHERE id = $1''"

definition route_args :: "Route \<Rightarrow> sqlval list" where
  "route_args r =
     [SqlUuid (rt_ID r), SqlUuid (rt_GatewayID r), SqlUuid (rt_UpstreamID r), SqlText (rt_PathPrefix r),
      SqlBool (rt_StripPrefix r), SqlInt (rt_Priority r), ptr_val SqlText (rt_TlsPolicy r),
      ptr_val SqlInt (rt_RateLimitRPS r), SqlBool (rt_Enabled r), SqlTime (rt_CreatedAt r)]"

definition RouteRepository_Create :: "'d pkgs \<Rightarrow> Route \<Rightarrow> ('d, 'a) app_scheme \<Rightarrow>
    repo_error option \<times> ('d, 'a) app_scheme" where
  "RouteRepository_Create pk r s =
     (case pool_Exec pk sql_route_insert (route_args r) s of
        (Inl e, s') \<Rightarrow> (Some (Wrapped ''failed to insert route'' e), s')
      | (Inr _, s') \<Rightarrow> (None, s'))"

definition RouteRepository_GetByID :: "'d pkgs \<Rightarrow> uuid \<Rightarrow> ('d, 'a) app_scheme \<Rightarrow> repo_error + Route" where
  "RouteRepository_GetByID pk i s =
     (case query_scan pk scan_route sql_route_get [SqlUuid i] s of
        Inl e \<Rightarrow> Inl (lookup_error ''route not found'' ''failed to get route'' i e)
      | Inr r \<Rightarrow> Inr r)"

definition RouteRepository_ListByGateway :: "'d pkgs \<Rightarrow> uuid \<Rightarrow> ('d, 'a) app_scheme \<Rightarrow> repo_error + Route list" where
  "RouteRepository_ListByGateway pk gatewayID s =
     query_rows pk scan_route ''failed to list routes'' ''failed to scan route'' sql_route_list [SqlUuid gatewayID] s"

definition RouteRepository_Delete :: "'d pkgs \<Rightarrow> uuid \<Rightarrow> ('d, 'a) app_scheme \<Rightarrow>
    repo_error option \<times> ('d, 'a) app_scheme" where
  "RouteRepository_Delete pk i s =
     (case pool_Exec pk sql_route_delete [SqlUuid i] s of
        (Inl e, s') \<Rightarrow> (Some (Wrapped ''failed to delete route'' e), s')
      | (Inr n, s') \<Rightarrow> if n = 0 then (Some (NotFound ''route not found'' i), s') else (None, s'))"

section \<open>Threat events\<close>

definition sql_threat_insert :: string where
  "sql_threat_insert = sql_block
     ''INSERT INTO threat_events (id, gateway_id, threat_type, severity, source_ip, description, mitigated, detected_at)''
     ''VALUES ($1, $2, $3, $4, $5, $6, $7, $8)''"

definition threat_args :: "ThreatEvent \<Rightarrow> sqlval list" where
  "threat_args t =
     [SqlUuid (te_ID t), SqlUuid (te_GatewayID t), SqlText (te_ThreatType t), SqlText (te_Severity t),
      ptr_val SqlText (te_SourceIP t), SqlText (te_Description t), SqlBool (te_Mitigated t),
      SqlTime (te_DetectedAt t)]"

definition ThreatRepository_Create :: "'d pkgs \<Rightarrow> ThreatEvent \<Rightarrow> ('d, 'a) app_scheme \<Rightarrow>
    repo_error option \<times> ('d, 'a) app_scheme" where
  "ThreatRepository_Create pk t s =
     (case pool_Exec pk sql_threat_insert (threat_args t) s of
        (Inl e, s') \<Rightarrow> (Some (Wrapped ''failed to insert threat event'' e), s')
      | (Inr _, s') \<Rightarrow> (None, s'))"

text \<open>The two statements of \<open>ListByGateway\<close> and their arguments, with the number of the next placeholder.\<close>

definition threat_filter :: "string \<Rightarrow> string \<times> sqlval list \<times> int" where
  "threat_filter severity =
     (if severity \<noteq> [] then ('' AND severity = $'' @ Itoa 2, [SqlText severity], 3) else ([], [], 2))"

definition threat_count_stmt :: "uuid \<Rightarrow> string \<Rightarrow> string \<times> sqlval list" where
  "threat_count_stmt gatewayID severity =
     (let (flt, extra, _) = threat_filter severity in
      (''SELECT COUNT(*) FROM threat_events WHERE gateway_id = $1'' @ flt, SqlUuid gatewayID # extra))"

definition threat_list_stmt :: "uuid \<Rightarrow> string \<Rightarrow> int \<Rightarrow> int \<Rightarrow> string \<times> sqlval list" where
  "threat_list_stmt gatewayID severity offset limit =
     (let (flt, extra, argIdx) = threat_filter severity in
      (''SELECT id, gateway_id, threat_type, severity, source_ip, description, mitigated, detected_at FROM threat_events WHERE gateway_id = $1''
         @ flt @ '' ORDER BY detected_at DESC OFFSET $'' @ Itoa argIdx @ '' LIMIT $'' @ Itoa (argIdx + 1),
       SqlUuid gatewayID # extra @ [SqlInt offset, SqlInt limit]))"

definition ThreatRepository_ListByGateway :: "'d pkgs \<Rightarrow> uuid \<Rightarrow> string \<Rightarrow> int \<Rightarrow> int \<Rightarrow> ('d, 'a) app_scheme \<Rightarrow>
    repo_error + ThreatEvent list \<times> int" where
  "ThreatRepository_ListByGateway pk gatewayID severity offset limit s =
     (let (countQuery, countArgs) = threat_count_stmt gatewayID severity;
          (listQuery, listArgs) = threat_list_stmt gatewayID severity offset limit
      in case query_scan pk scan_count countQuery countArgs s of
           Inl e \<Rightarrow> Inl (Wrapped ''failed to count threats'' e)
         | Inr n \<Rightarrow>
             (case query_rows pk scan_threat ''failed to list threats'' ''failed to scan threat'' listQuery listArgs s of
                Inl e \<Rightarrow> Inl e
              | Inr events \<Rightarrow> Inr (events, n)))"

section \<open>Upstreams\<close>

definition sql_upstream_insert :: string where
  "sql_upstream_insert = sql_block
     ''INSERT INTO upstreams (id, name, host, port, protocol, tls_verify, health_check_path, health_check_interval_secs, created_at)''
     ''VALUES ($1, $2, $3, $4, $5, $6, $7, $8, $9)''"

definition sql_upstream_columns :: string where
  "sql_upstream_columns = ''SELECT id, name, host, port, protocol, tls_verify, health_check_path, health_check_interval_secs, is_healthy, created_at, updated_at FROM upstreams''"

definition sql_upstream_get :: string where
  "sql_upstream_get = sql_upstream_columns @ '' WHERE id = $1''"

definition sql_upstream_count :: string where
  "sql_upstream_count = ''SELECT COUNT(*) FROM upstreams''"

definition sql_upstream_list :: string where
  "sql_upstream_list = sql_upstream_columns @ '' ORDER BY created_at DESC OFFSET $1 LIMIT $2''"

definition sql_upstream_health :: string where
  "sql_upstream_health = ''UPDATE upstreams SET is_healthy = $1 WHERE id = $2''"

definition upstream_args :: "Upstream \<Rightarrow> sqlval list" where
  "upstream_args u =
     [SqlUuid (up_ID u), SqlText (up_Name u), SqlText (up_Host u), SqlInt (up_Port u),
      SqlText (up_Protocol u), SqlBool (up_TlsVerify u), SqlText (up_HealthCheckPath u),
      SqlInt (up_HealthCheckIntervalS u), SqlTime (up_CreatedAt u)]"

definition UpstreamRepository_Create :: "'d pkgs \<Rightarrow> Upstream \<Rightarrow> ('d, 'a) app_scheme \<Rightarrow>
    repo_error option \<times> ('d, 'a) app_scheme" where
  "UpstreamRepository_Create pk u s =
     (case pool_Exec pk sql_upstream_insert (upstream_args u) s of
        (Inl e, s') \<Rightarrow> (Some (Wrapped ''failed to insert upstream'' e), s')
      | (Inr _, s') \<Rightarrow> (None, s'))"

definition UpstreamRepository_GetByID :: "'d pkgs \<Rightarrow> uuid \<Rightarrow> ('d, 'a) app_scheme \<Rightarrow> repo_error + Upstream" where
  "UpstreamRepository_GetByID pk i s =
     (case query_scan pk scan_upstream sql_upstream_get [SqlUuid i] s of
        Inl e \<Rightarrow> Inl (lookup_error ''upstream not found'' ''failed to get upstream'' i e)
      | Inr u \<Rightarrow> Inr u)"

definition UpstreamRepository_List :: "'d pkgs \<Rightarrow> int \<Rightarrow> int \<Rightarrow> ('d, 'a) app_scheme \<Rightarrow>
    repo_error + Upstream list \<times> int" where
  "UpstreamRepository_List pk offset limit s =
     (case query_scan pk scan_count sql_upstream_count [] s of
        Inl e \<Rightarrow> Inl (Wrapped ''failed to count upstreams'' e)
      | Inr n \<Rightarrow>
          (case query_rows pk scan_upstream ''failed to list upstreams'' ''failed to scan upstream''
                  sql_upstream_list [SqlInt offset, SqlInt limit] s of
             Inl e \<Rightarrow> Inl e
           | Inr upstreams \<Rightarrow> Inr (upstreams, n)))"

definition UpstreamRepository_UpdateHealth :: "'d pkgs \<Rightarrow> uuid \<Rightarrow> bool \<Rightarrow> ('d, 'a) app_scheme \<Rightarrow>
    repo_error option \<times> ('d, 'a) app_scheme" where
  "UpstreamRepository_UpdateHealth pk i healthy s =
     (case pool_Exec pk sql_upstream_health [SqlBool healthy, SqlUuid i] s of
        (Inl e, s') \<Rightarrow> (Some (Unwrapped e), s')
      | (Inr _, s') \<Rightarrow> (None, s'))"

lemmas sql_texts =
  sql_gateway_insert_def sql_gateway_get_def sql_gateway_columns_def sql_gateway_count_def sql_gateway_list_def
  sql_gateway_status_def sql_route_insert_def sql_route_get_def sql_route_columns_def sql_route_list_def
  sql_route_delete_def sql_threat_insert_def sql_upstream_insert_def sql_upstream_columns_def sql_upstream_get_def
  sql_upstream_count_def sql_upstream_list_def sql_upstream_health_def sql_block_def

section \<open>The contract of a repository\<close>

text \<open>
  What a service relies on: \<open>view\<close> is the table by primary key and \<open>read\<close> what a row gives to the
  program, an error when it does not fit the variables it is scanned into. A successful \<open>create\<close> adds
  one readable row that was not there, as the database stores the entity (\<open>stored\<close>), a failed one changes
  nothing, and \<open>get\<close> reads the table. \<open>fits\<close> are the entities whose texts the columns can hold.
\<close>

locale entity_store =
  fixes ident :: "'e \<Rightarrow> uuid"
    and create :: "'e \<Rightarrow> 's \<Rightarrow> repo_error option \<times> 's"
    and get :: "uuid \<Rightarrow> 's \<Rightarrow> repo_error + 'e"
    and view :: "'s \<Rightarrow> uuid \<Rightarrow> 'r option"
    and read :: "'r \<Rightarrow> repo_error + 'e"
    and fits :: "'e \<Rightarrow> bool"
    and stored :: "'e \<Rightarrow> 'e \<Rightarrow> bool"
    and missing :: string
  assumes create_ok: "fits e \<Longrightarrow> create e s = (None, s') \<Longrightarrow>
      view s (ident e) = None \<and> (\<exists>x e'. read x = Inr e' \<and> stored e e' \<and> view s' = (view s)(ident e \<mapsto> x))"
    and create_error: "create e s = (Some x, s') \<Longrightarrow> view s' = view s"
    and get_view: "get i s = (case view s i of Some x \<Rightarrow> read x | None \<Rightarrow> Inl (NotFound missing i))"
begin

lemma create_get:
  assumes "fits e" "create e s = (None, s')"
  shows "\<exists>e'. get (ident e) s' = Inr e' \<and> stored e e'"
proof -
  obtain x e' where "read x = Inr e'" "stored e e'" "view s' = (view s)(ident e \<mapsto> x)"
    using create_ok [OF assms] by blast
  then show ?thesis by (auto simp: get_view)
qed

lemma create_get_other:
  assumes "fits e" "create e s = (x, s')" "i \<noteq> ident e"
  shows "get i s' = get i s"
proof (cases x)
  case None
  then obtain y where "view s' = (view s)(ident e \<mapsto> y)" using create_ok [of e s s'] assms(1,2) by blast
  then show ?thesis using assms(3) by (simp add: get_view)
next
  case (Some y)
  then show ?thesis using create_error [of e s y s'] assms(2) by (simp add: get_view)
qed

lemma create_existing:
  assumes "fits e" "get (ident e) s = Inr e'"
  shows "\<exists>x s'. create e s = (Some x, s') \<and> view s' = view s"
proof -
  obtain x s' where c: "create e s = (x, s')" by fastforce
  have "view s (ident e) \<noteq> None" using assms(2) by (auto simp: get_view split: option.splits)
  then have "x \<noteq> None" using create_ok [of e s s'] assms(1) c by (cases x) auto
  then show ?thesis using create_error c by blast
qed

end

text \<open>A table whose entities have a status that can be set.\<close>

locale status_store = entity_store +
  fixes set_status :: "uuid \<Rightarrow> string \<Rightarrow> 's \<Rightarrow> repo_error option \<times> 's"
    and with_status :: "string \<Rightarrow> Time \<Rightarrow> 'r \<Rightarrow> 'r"
    and valid_status :: "string \<Rightarrow> bool"
  assumes set_status_found: "valid_status st \<Longrightarrow> view s i = Some x \<Longrightarrow>
      \<exists>t s'. set_status i st s = (None, s') \<and> view s' = (view s)(i \<mapsto> with_status st t x)"
    and set_status_missing: "view s i = None \<Longrightarrow> \<exists>x s'. set_status i st s = (Some x, s') \<and> view s' = view s"
begin

lemma set_status_get:
  assumes "valid_status st" "view s i = Some x"
  shows "\<exists>t s'. set_status i st s = (None, s') \<and> get i s' = read (with_status st t x)
    \<and> (\<forall>j. j \<noteq> i \<longrightarrow> get j s' = get j s)"
  using set_status_found [OF assms] by (auto simp: get_view)

end

end
