(* ===== verification/Service.thy ===== *)
theory Service
  imports Repository
begin

text \<open>
  The services, \<open>src/control-plane/internal/service\<close>: defaults of create requests, new identifiers and
  creation times, and the calls of the repositories. The logger is left out.
\<close>

section \<open>Gateways\<close>

definition gateway_defaults :: "CreateGatewayRequest \<Rightarrow> CreateGatewayRequest" where
  "gateway_defaults req =
     (let r1 = (if cg_Port req = 0 then req\<lparr>cg_Port := 443\<rparr> else req);
          r2 = (if cg_TlsPolicy r1 = [] then r1\<lparr>cg_TlsPolicy := ''PQC_PREFERRED''\<rparr> else r1)
      in if cg_MaxConnections r2 = 0 then r2\<lparr>cg_MaxConnections := 10000\<rparr> else r2)"

definition new_gateway :: "CreateGatewayRequest \<Rightarrow> uuid \<Rightarrow> Time \<Rightarrow> Gateway" where
  "new_gateway req i now =
     \<lparr>gw_ID = i, gw_Name = cg_Name req, gw_Hostname = cg_Hostname req, gw_Port = cg_Port req,
      gw_Status = ''INACTIVE'', gw_TlsPolicy = cg_TlsPolicy req, gw_MaxConnections = cg_MaxConnections req,
      gw_CreatedBy = cg_CreatedBy req, gw_CreatedAt = Time_UTC now, gw_UpdatedAt = Time_zero\<rparr>"

definition GatewayService_Create :: "'d pkgs \<Rightarrow> CreateGatewayRequest \<Rightarrow> ('d, 'a) app_scheme \<Rightarrow>
    (repo_error + Gateway) \<times> ('d, 'a) app_scheme" where
  "GatewayService_Create pk req s =
     (let (i, s1) = uuid_New s;
          (now, s2) = time_Now s1;
          g = new_gateway (gateway_defaults req) i now;
          (err, s3) = GatewayRepository_Create pk g s2
      in case err of Some e \<Rightarrow> (Inl e, s3) | None \<Rightarrow> (Inr g, s3))"

definition GatewayService_Get :: "'d pkgs \<Rightarrow> uuid \<Rightarrow> ('d, 'a) app_scheme \<Rightarrow> repo_error + Gateway" where
  "GatewayService_Get pk i s = GatewayRepository_GetByID pk i s"

definition GatewayService_List :: "'d pkgs \<Rightarrow> int \<Rightarrow> int \<Rightarrow> ('d, 'a) app_scheme \<Rightarrow>
    repo_error + Gateway list \<times> int" where
  "GatewayService_List pk offset limit s =
     GatewayRepository_List pk offset (if limit \<le> 0 \<or> limit > 100 then 50 else limit) s"

definition GatewayService_Activate :: "'d pkgs \<Rightarrow> uuid \<Rightarrow> ('d, 'a) app_scheme \<Rightarrow>
    repo_error option \<times> ('d, 'a) app_scheme" where
  "GatewayService_Activate pk i s = GatewayRepository_UpdateStatus pk i ''ACTIVE'' s"

definition GatewayService_Deactivate :: "'d pkgs \<Rightarrow> uuid \<Rightarrow> ('d, 'a) app_scheme \<Rightarrow>
    repo_error option \<times> ('d, 'a) app_scheme" where
  "GatewayService_Deactivate pk i s = GatewayRepository_UpdateStatus pk i ''INACTIVE'' s"

section \<open>Routes\<close>

datatype service_error = InvalidGatewayID | InvalidUpstreamID | RepoError repo_error

definition new_route :: "CreateRouteRequest \<Rightarrow> uuid \<Rightarrow> uuid \<Rightarrow> uuid \<Rightarrow> Time \<Rightarrow> Route" where
  "new_route req gatewayID upstreamID i now =
     \<lparr>rt_ID = i, rt_GatewayID = gatewayID, rt_UpstreamID = upstreamID, rt_PathPrefix = cr_PathPrefix req,
      rt_StripPrefix = cr_StripPrefix req, rt_Priority = cr_Priority req,
      rt_TlsPolicy = (if cr_TlsPolicy req \<noteq> [] then Some (cr_TlsPolicy req) else None),
      rt_RateLimitRPS = (if cr_RateLimitRPS req > 0 then Some (cr_RateLimitRPS req) else None),
      rt_Enabled = True, rt_CreatedAt = Time_UTC now, rt_UpdatedAt = Time_zero\<rparr>"

definition RouteService_Create :: "'d pkgs \<Rightarrow> CreateRouteRequest \<Rightarrow> ('d, 'a) app_scheme \<Rightarrow>
    (service_error + Route) \<times> ('d, 'a) app_scheme" where
  "RouteService_Create pk req s =
     (case uuid_Parse pk (cr_GatewayID req) of
        None \<Rightarrow> (Inl InvalidGatewayID, s)
      | Some gatewayID \<Rightarrow>
     (case uuid_Parse pk (cr_UpstreamID req) of
        None \<Rightarrow> (Inl InvalidUpstreamID, s)
      | Some upstreamID \<Rightarrow>
          (let (i, s1) = uuid_New s;
               (now, s2) = time_Now s1;
               route = new_route req gatewayID upstreamID i now;
               (err, s3) = RouteRepository_Create pk route s2
           in case err of Some e \<Rightarrow> (Inl (RepoError e), s3) | None \<Rightarrow> (Inr route, s3))))"

definition RouteService_ListByGateway :: "'d pkgs \<Rightarrow> uuid \<Rightarrow> ('d, 'a) app_scheme \<Rightarrow> repo_error + Route list" where
  "RouteService_ListByGateway pk gatewayID s = RouteRepository_ListByGateway pk gatewayID s"

definition RouteService_Delete :: "'d pkgs \<Rightarrow> uuid \<Rightarrow> ('d, 'a) app_scheme \<Rightarrow>
    repo_error option \<times> ('d, 'a) app_scheme" where
  "RouteService_Delete pk i s = RouteRepository_Delete pk i s"

section \<open>Upstreams\<close>

definition upstream_defaults :: "CreateUpstreamRequest \<Rightarrow> CreateUpstreamRequest" where
  "upstream_defaults req =
     (let r1 = (if cu_Protocol req = [] then req\<lparr>cu_Protocol := ''HTTPS''\<rparr> else req);
          r2 = (if cu_HealthCheckPath r1 = [] then r1\<lparr>cu_HealthCheckPath := ''/health''\<rparr> else r1)
      in if cu_HealthCheckIntervalS r2 = 0 then r2\<lparr>cu_HealthCheckIntervalS := 30\<rparr> else r2)"

definition new_upstream :: "CreateUpstreamRequest \<Rightarrow> uuid \<Rightarrow> Time \<Rightarrow> Upstream" where
  "new_upstream req i now =
     \<lparr>up_ID = i, up_Name = cu_Name req, up_Host = cu_Host req, up_Port = cu_Port req,
      up_Protocol = cu_Protocol req, up_TlsVerify = cu_TlsVerify req,
      up_HealthCheckPath = cu_HealthCheckPath req, up_HealthCheckIntervalS = cu_HealthCheckIntervalS req,
      up_IsHealthy = True, up_CreatedAt = Time_UTC now, up_UpdatedAt = Time_zero\<rparr>"

definition UpstreamService_Create :: "'d pkgs \<Rightarrow> CreateUpstreamRequest \<Rightarrow> ('d, 'a) app_scheme \<Rightarrow>
    (repo_error + Upstream) \<times> ('d, 'a) app_scheme" where
  "UpstreamService_Create pk req s =
     (let (i, s1) = uuid_New s;
          (now, s2) = time_Now s1;
          u = new_upstream (upstream_defaults req) i now;
          (err, s3) = UpstreamRepository_Create pk u s2
      in case err of Some e \<Rightarrow> (Inl e, s3) | None \<Rightarrow> (Inr u, s3))"

definition UpstreamService_Get :: "'d pkgs \<Rightarrow> uuid \<Rightarrow> ('d, 'a) app_scheme \<Rightarrow> repo_error + Upstream" where
  "UpstreamService_Get pk i s = UpstreamRepository_GetByID pk i s"

definition UpstreamService_List :: "'d pkgs \<Rightarrow> int \<Rightarrow> int \<Rightarrow> ('d, 'a) app_scheme \<Rightarrow>
    repo_error + Upstream list \<times> int" where
  "UpstreamService_List pk offset limit s =
     UpstreamRepository_List pk offset (if limit \<le> 0 \<or> limit > 100 then 50 else limit) s"

end
