(* ===== verification/Handler.thy ===== *)
theory Handler
  imports Service Pagination
begin

text \<open>
  The HTTP handlers, \<open>src/control-plane/internal/handler\<close>: decoding and checking of requests, the calls
  of the services and the answers on every branch.
\<close>

section \<open>Answers\<close>

definition writeJSON :: "int \<Rightarrow> json \<Rightarrow> rw \<Rightarrow> rw" where
  "writeJSON status v w = EncodeTo v (WriteHeader status (SetHeader ''Content-Type'' ''application/json'' w))"

definition writeError :: "int \<Rightarrow> string \<Rightarrow> rw \<Rightarrow> rw" where
  "writeError status message w =
     EncodeTo (JObj [(''error'', JStr message)])
       (WriteHeader status (SetHeader ''Content-Type'' ''application/json'' w))"

definition actorFromRequest :: "request \<Rightarrow> string" where
  "actorFromRequest r = (let subject = SubjectFromContext (Ctx r) in if subject \<noteq> [] then subject else ''system'')"

text \<open>\<open>json.Encoder\<close> writes a map with its keys sorted.\<close>

definition HealthHandler_Check :: "'s handler" where
  "HealthHandler_Check r sw =
     (fst sw, writeJSON 200 (JObj [(''service'', JStr ''qsgw-control-plane''), (''status'', JStr ''ok'')]) (snd sw))"

section \<open>Gateways\<close>

definition maxNameLength :: nat where
  "maxNameLength = 255"

definition GatewayHandler_Create :: "'d pkgs \<Rightarrow> ('d, 'a) app_scheme handler" where
  "GatewayHandler_Create pk r sw =
     (let (s, w) = sw in
      case decode_body cg_fields r cg_zero of
        None \<Rightarrow> (s, writeError 400 ''invalid request body'' w)
      | Some req \<Rightarrow>
          if cg_Name req = [] \<or> cg_Hostname req = [] then
            (s, writeError 400 ''name and hostname are required'' w)
          else if length (cg_Name req) > maxNameLength \<or> length (cg_Hostname req) > maxNameLength then
            (s, writeError 400 ''name or hostname exceeds maximum length'' w)
          else
            let req' = (if cg_CreatedBy req = [] then req\<lparr>cg_CreatedBy := actorFromRequest r\<rparr> else req)
            in case GatewayService_Create pk req' s of
                 (Inl _, s') \<Rightarrow> (s', writeError 500 ''failed to create gateway'' w)
               | (Inr gw, s') \<Rightarrow>
                   (s', writeJSON 201 (GatewayResponse_json (uuid_String pk) (Gateway_ToResponse gw)) w))"

definition GatewayHandler_Get :: "'d pkgs \<Rightarrow> ('d, 'a) app_scheme handler" where
  "GatewayHandler_Get pk r sw =
     (let (s, w) = sw in
      case uuid_Parse pk (URLParam r ''id'') of
        None \<Rightarrow> (s, writeError 400 ''invalid gateway ID'' w)
      | Some i \<Rightarrow>
          (case GatewayService_Get pk i s of
             Inl _ \<Rightarrow> (s, writeError 404 ''gateway not found'' w)
           | Inr gw \<Rightarrow> (s, writeJSON 200 (GatewayResponse_json (uuid_String pk) (Gateway_ToResponse gw)) w)))"

definition GatewayHandler_List :: "'d pkgs \<Rightarrow> ('d, 'a) app_scheme handler" where
  "GatewayHandler_List pk r sw =
     (let (s, w) = sw; pg = ParsePagination r in
      case GatewayService_List pk (pg_Offset pg) (pg_Limit pg) s of
        Inl _ \<Rightarrow> (s, writeError 500 ''failed to list gateways'' w)
      | Inr (gateways, n) \<Rightarrow>
          (s, writeJSON 200 (GatewayListResponse_json (uuid_String pk)
                \<lparr>gl_Gateways = map Gateway_ToResponse gateways, gl_TotalCount = n, gl_Offset = pg_Offset pg,
                 gl_Limit = pg_Limit pg\<rparr>) w))"

definition GatewayHandler_Activate :: "'d pkgs \<Rightarrow> ('d, 'a) app_scheme handler" where
  "GatewayHandler_Activate pk r sw =
     (let (s, w) = sw in
      case uuid_Parse pk (URLParam r ''id'') of
        None \<Rightarrow> (s, writeError 400 ''invalid gateway ID'' w)
      | Some i \<Rightarrow>
          (case GatewayService_Activate pk i s of
             (Some _, s') \<Rightarrow> (s', writeError 500 ''failed to activate gateway'' w)
           | (None, s') \<Rightarrow> (s', writeJSON 200 (JObj [(''status'', JStr ''activated'')]) w)))"

definition GatewayHandler_Deactivate :: "'d pkgs \<Rightarrow> ('d, 'a) app_scheme handler" where
  "GatewayHandler_Deactivate pk r sw =
     (let (s, w) = sw in
      case uuid_Parse pk (URLParam r ''id'') of
        None \<Rightarrow> (s, writeError 400 ''invalid gateway ID'' w)
      | Some i \<Rightarrow>
          (case GatewayService_Deactivate pk i s of
             (Some _, s') \<Rightarrow> (s', writeError 500 ''failed to deactivate gateway'' w)
           | (None, s') \<Rightarrow> (s', writeJSON 200 (JObj [(''status'', JStr ''deactivated'')]) w)))"

section \<open>Routes\<close>

definition RouteHandler_Create :: "'d pkgs \<Rightarrow> ('d, 'a) app_scheme handler" where
  "RouteHandler_Create pk r sw =
     (let (s, w) = sw in
      case decode_body cr_fields r cr_zero of
        None \<Rightarrow> (s, writeError 400 ''invalid request body'' w)
      | Some req \<Rightarrow>
          if cr_GatewayID req = [] \<or> cr_UpstreamID req = [] \<or> cr_PathPrefix req = [] then
            (s, writeError 400 ''gateway_id, upstream_id, and path_prefix are required'' w)
          else
            (case RouteService_Create pk req s of
               (Inl _, s') \<Rightarrow> (s', writeError 500 ''failed to create route'' w)
             | (Inr route, s') \<Rightarrow>
                 (s', writeJSON 201 (RouteResponse_json (uuid_String pk) (Route_ToResponse route)) w)))"

definition RouteHandler_List :: "'d pkgs \<Rightarrow> ('d, 'a) app_scheme handler" where
  "RouteHandler_List pk r sw =
     (let (s, w) = sw; gatewayIDStr = Query_Get (URL_Query r) ''gateway_id'' in
      if gatewayIDStr = [] then (s, writeError 400 ''gateway_id is required'' w)
      else case uuid_Parse pk gatewayIDStr of
        None \<Rightarrow> (s, writeError 400 ''invalid gateway_id'' w)
      | Some gatewayID \<Rightarrow>
          (case RouteService_ListByGateway pk gatewayID s of
             Inl _ \<Rightarrow> (s, writeError 500 ''failed to list routes'' w)
           | Inr routes \<Rightarrow>
               (s, writeJSON 200 (RouteListResponse_json (uuid_String pk)
                     \<lparr>rl_Routes = map Route_ToResponse routes, rl_TotalCount = int (length routes)\<rparr>) w)))"

definition RouteHandler_Delete :: "'d pkgs \<Rightarrow> ('d, 'a) app_scheme handler" where
  "RouteHandler_Delete pk r sw =
     (let (s, w) = sw in
      case uuid_Parse pk (URLParam r ''id'') of
        None \<Rightarrow> (s, writeError 400 ''invalid route ID'' w)
      | Some i \<Rightarrow>
          (case RouteService_Delete pk i s of
             (Some _, s') \<Rightarrow> (s', writeError 500 ''failed to delete route'' w)
           | (None, s') \<Rightarrow> (s', writeJSON 200 (JObj [(''status'', JStr ''deleted'')]) w)))"

section \<open>Threat events\<close>

definition ThreatHandler_List :: "'d pkgs \<Rightarrow> ('d, 'a) app_scheme handler" where
  "ThreatHandler_List pk r sw =
     (let (s, w) = sw; q = URL_Query r; gatewayIDStr = Query_Get q ''gateway_id'' in
      if gatewayIDStr = [] then (s, writeError 400 ''gateway_id is required'' w)
      else case uuid_Parse pk gatewayIDStr of
        None \<Rightarrow> (s, writeError 400 ''invalid gateway_id'' w)
      | Some gatewayID \<Rightarrow>
          let offset = fst (Atoi (Query_Get q ''offset''));
              limit0 = fst (Atoi (Query_Get q ''limit''));
              severity = Query_Get q ''severity'';
              limit = (if limit0 \<le> 0 \<or> limit0 > 100 then 50 else limit0)
          in case ThreatRepository_ListByGateway pk gatewayID severity offset limit s of
               Inl _ \<Rightarrow> (s, writeError 500 ''failed to list threats'' w)
             | Inr (events, n) \<Rightarrow>
                 (s, writeJSON 200 (ThreatEventListResponse_json (uuid_String pk)
                       \<lparr>tl_Events = map ThreatEvent_ToResponse events, tl_TotalCount = n, tl_Offset = offset,
                        tl_Limit = limit\<rparr>) w))"

section \<open>Upstreams\<close>

definition UpstreamHandler_Create :: "'d pkgs \<Rightarrow> ('d, 'a) app_scheme handler" where
  "UpstreamHandler_Create pk r sw =
     (let (s, w) = sw in
      case decode_body cu_fields r cu_zero of
        None \<Rightarrow> (s, writeError 400 ''invalid request body'' w)
      | Some req \<Rightarrow>
          if cu_Name req = [] \<or> cu_Host req = [] \<or> cu_Port req = 0 then
            (s, writeError 400 ''name, host, and port are required'' w)
          else
            (case UpstreamService_Create pk req s of
               (Inl _, s') \<Rightarrow> (s', writeError 500 ''failed to create upstream'' w)
             | (Inr u, s') \<Rightarrow>
                 (s', writeJSON 201 (UpstreamResponse_json (uuid_String pk) (Upstream_ToResponse u)) w)))"

definition UpstreamHandler_Get :: "'d pkgs \<Rightarrow> ('d, 'a) app_scheme handler" where
  "UpstreamHandler_Get pk r sw =
     (let (s, w) = sw in
      case uuid_Parse pk (URLParam r ''id'') of
        None \<Rightarrow> (s, writeError 400 ''invalid upstream ID'' w)
      | Some i \<Rightarrow>
          (case UpstreamService_Get pk i s of
             Inl _ \<Rightarrow> (s, writeError 404 ''upstream not found'' w)
           | Inr u \<Rightarrow> (s, writeJSON 200 (UpstreamResponse_json (uuid_String pk) (Upstream_ToResponse u)) w)))"

definition UpstreamHandler_List :: "'d pkgs \<Rightarrow> ('d, 'a) app_scheme handler" where
  "UpstreamHandler_List pk r sw =
     (let (s, w) = sw;
          offset = fst (Atoi (Query_Get (URL_Query r) ''offset''));
          limit = fst (Atoi (Query_Get (URL_Query r) ''limit''))
      in case UpstreamService_List pk offset limit s of
           Inl _ \<Rightarrow> (s, writeError 500 ''failed to list upstreams'' w)
         | Inr (upstreams, n) \<Rightarrow>
             (s, writeJSON 200 (UpstreamListResponse_json (uuid_String pk)
                   \<lparr>ul_Upstreams = map Upstream_ToResponse upstreams, ul_TotalCount = n\<rparr>) w))"

section \<open>Every handler answers once\<close>

text \<open>
  What the router and the middleware rely on: a handler writes exactly one JSON answer on the
  writer it is given. \<open>writeError\<close> is the same answer with an error object.
\<close>

lemma writeError_eq: "writeError st msg w = writeJSON st (JObj [(''error'', JStr msg)]) w"
  by (simp add: writeError_def writeJSON_def)

definition answers :: "'s handler \<Rightarrow> bool" where
  "answers h \<longleftrightarrow> (\<forall>r s w. \<exists>s' st v. h r (s, w) = (s', writeJSON st v w))"

lemma answersI: "(\<And>r s w. \<exists>s' st v. h r (s, w) = (s', writeJSON st v w)) \<Longrightarrow> answers h"
  by (simp add: answers_def)

lemma answers_handlers:
  "answers HealthHandler_Check"
  "answers (GatewayHandler_Create pk)" "answers (GatewayHandler_Get pk)" "answers (GatewayHandler_List pk)"
  "answers (GatewayHandler_Activate pk)" "answers (GatewayHandler_Deactivate pk)"
  "answers (RouteHandler_Create pk)" "answers (RouteHandler_List pk)" "answers (RouteHandler_Delete pk)"
  "answers (ThreatHandler_List pk)"
  "answers (UpstreamHandler_Create pk)" "answers (UpstreamHandler_Get pk)" "answers (UpstreamHandler_List pk)"
proof -
  show "answers HealthHandler_Check" by (rule answersI) (auto simp: HealthHandler_Check_def)
  show "answers (GatewayHandler_Create pk)"
    by (rule answersI) (auto simp: GatewayHandler_Create_def writeError_eq Let_def split: option.splits sum.splits prod.splits)
  show "answers (GatewayHandler_Get pk)"
    by (rule answersI) (auto simp: GatewayHandler_Get_def writeError_eq split: option.splits sum.splits)
  show "answers (GatewayHandler_List pk)"
    by (rule answersI) (auto simp: GatewayHandler_List_def writeError_eq Let_def split: sum.splits prod.splits)
  show "answers (GatewayHandler_Activate pk)"
    by (rule answersI) (auto simp: GatewayHandler_Activate_def writeError_eq split: option.splits prod.splits)
  show "answers (GatewayHandler_Deactivate pk)"
    by (rule answersI) (auto simp: GatewayHandler_Deactivate_def writeError_eq split: option.splits prod.splits)
  show "answers (RouteHandler_Create pk)"
    by (rule answersI) (auto simp: RouteHandler_Create_def writeError_eq split: option.splits sum.splits prod.splits)
  show "answers (RouteHandler_List pk)"
    by (rule answersI) (auto simp: RouteHandler_List_def writeError_eq Let_def split: option.splits sum.splits)
  show "answers (RouteHandler_Delete pk)"
    by (rule answersI) (auto simp: RouteHandler_Delete_def writeError_eq split: option.splits prod.splits)
  show "answers (ThreatHandler_List pk)"
    by (rule answersI) (auto simp: ThreatHandler_List_def writeError_eq Let_def split: option.splits sum.splits prod.splits)
  show "answers (UpstreamHandler_Create pk)"
    by (rule answersI) (auto simp: UpstreamHandler_Create_def writeError_eq split: option.splits sum.splits prod.splits)
  show "answers (UpstreamHandler_Get pk)"
    by (rule answersI) (auto simp: UpstreamHandler_Get_def writeError_eq split: option.splits sum.splits)
  show "answers (UpstreamHandler_List pk)"
    by (rule answersI) (auto simp: UpstreamHandler_List_def writeError_eq Let_def split: sum.splits prod.splits)
qed

lemma rw_status_writeJSON [simp]: "rw_sent w = None \<Longrightarrow> rw_status (writeJSON st v w) = Some st"
  by (simp add: writeJSON_def rw_status_def)

lemma rw_body_writeJSON [simp]: "rw_body (writeJSON st v w) = rw_body w @ json_encode v @ [CHR 0x0A]"
  by (simp add: writeJSON_def)

lemma rw_sent_writeJSON:
  "rw_sent w = None \<Longrightarrow> rw_sent (writeJSON st v w) = Some (st, Header_Set (rw_header w) ''Content-Type'' ''application/json'')"
  by (simp add: writeJSON_def)

section \<open>Creating gateways\<close>

definition gateway_request_ok :: "CreateGatewayRequest \<Rightarrow> bool" where
  "gateway_request_ok req \<longleftrightarrow> cg_Name req \<noteq> [] \<and> cg_Hostname req \<noteq> []
     \<and> length (cg_Name req) \<le> 255 \<and> length (cg_Hostname req) \<le> 255"

text \<open>The gateway that a request asks for.\<close>

definition gateway_for :: "request \<Rightarrow> CreateGatewayRequest \<Rightarrow> uuid \<Rightarrow> Time \<Rightarrow> Gateway" where
  "gateway_for r req i now =
     \<lparr>gw_ID = i, gw_Name = cg_Name req, gw_Hostname = cg_Hostname req,
      gw_Port = (if cg_Port req = 0 then 443 else cg_Port req), gw_Status = ''INACTIVE'',
      gw_TlsPolicy = (if cg_TlsPolicy req = [] then ''PQC_PREFERRED'' else cg_TlsPolicy req),
      gw_MaxConnections = (if cg_MaxConnections req = 0 then 10000 else cg_MaxConnections req),
      gw_CreatedBy = (if cg_CreatedBy req \<noteq> [] then cg_CreatedBy req else actorFromRequest r),
      gw_CreatedAt = Time_UTC now, gw_UpdatedAt = Time_zero\<rparr>"

lemma new_gateway_for:
  "new_gateway (gateway_defaults (if cg_CreatedBy req = [] then req\<lparr>cg_CreatedBy := actorFromRequest r\<rparr> else req)) i now
     = gateway_for r req i now"
  by (simp add: new_gateway_def gateway_defaults_def gateway_for_def Let_def)

lemma app_db_sources [simp]:
  "app_db (snd (uuid_New s)) = app_db s" "app_db (snd (time_Now s)) = app_db s"
  "clock (snd (uuid_New s)) = clock s" "new_uuids (snd (time_Now s)) = new_uuids s"
  "fst (uuid_New s) = new_uuids s 0"
  by (simp_all add: uuid_New_def time_Now_def)

lemma GatewayHandler_Create_cases:
  "GatewayHandler_Create pk r (s, w) =
     (case decode_body cg_fields r cg_zero of
        None \<Rightarrow> (s, writeError 400 ''invalid request body'' w)
      | Some req \<Rightarrow>
          if gateway_request_ok req then
            let g = gateway_for r req (new_uuids s 0) (clock s 0);
                (res, d) = pgx_Exec pk (app_db s) sql_gateway_insert (gateway_args g);
                s' = (snd (time_Now (snd (uuid_New s))))\<lparr>app_db := d\<rparr>
            in (s', case res of Inl _ \<Rightarrow> writeError 500 ''failed to create gateway'' w
                   | Inr _ \<Rightarrow> writeJSON 201 (GatewayResponse_json (uuid_String pk) (Gateway_ToResponse g)) w)
          else (s, writeError 400 (if cg_Name req = [] \<or> cg_Hostname req = [] then ''name and hostname are required''
                                   else ''name or hostname exceeds maximum length'') w))"
proof (cases "decode_body cg_fields r cg_zero")
  case (Some req)
  show ?thesis
  proof (cases "gateway_request_ok req")
    case True
    then have ok: "cg_Name req \<noteq> []" "cg_Hostname req \<noteq> []"
      "\<not> (length (cg_Name req) > maxNameLength \<or> length (cg_Hostname req) > maxNameLength)"
      by (auto simp: gateway_request_ok_def maxNameLength_def)
    define req' where "req' = (if cg_CreatedBy req = [] then req\<lparr>cg_CreatedBy := actorFromRequest r\<rparr> else req)"
    have "new_gateway (gateway_defaults req') i now = gateway_for r req i now" for i now
      unfolding req'_def by (rule new_gateway_for)
    then show ?thesis
      using Some ok True
      by (simp add: GatewayHandler_Create_def req'_def [symmetric] GatewayService_Create_def
          GatewayRepository_Create_def pool_Exec_def Let_def split_def split: sum.splits)
  next
    case False
    with Some show ?thesis
      by (auto simp: GatewayHandler_Create_def gateway_request_ok_def maxNameLength_def)
  qed
qed (simp add: GatewayHandler_Create_def)

text \<open>
  C28. A create request either is refused with 400, before an identifier, the clock or the database is
  used, exactly when its body does not decode or its name or hostname is missing or too long; or it runs
  one INSERT of the gateway it asks for and answers 201 with that gateway, or 500 if the INSERT fails. The
  gateway has the status INACTIVE, port 443, the policy PQC_PREFERRED and 10000 connections where the
  request leaves them out, and as its creator the \<open>created_by\<close> of the request's body if there is one,
  else the authenticated subject, else \<open>system\<close>.
\<close>

theorem GatewayHandler_Create_effect:
  assumes "rw_sent w = None" "GatewayHandler_Create pk r (s, w) = (s', w')"
  shows "(rw_status w' = Some 400 \<and> s' = s \<and>
      (\<forall>req. decode_body cg_fields r cg_zero = Some req \<longrightarrow> \<not> gateway_request_ok req)) \<or>
    (\<exists>req res. decode_body cg_fields r cg_zero = Some req \<and> gateway_request_ok req \<and>
      (let g = gateway_for r req (new_uuids s 0) (clock s 0) in
       gw_Status g = ''INACTIVE'' \<and> gw_Port g = (if cg_Port req = 0 then 443 else cg_Port req) \<and>
       gw_TlsPolicy g = (if cg_TlsPolicy req = [] then ''PQC_PREFERRED'' else cg_TlsPolicy req) \<and>
       gw_MaxConnections g = (if cg_MaxConnections req = 0 then 10000 else cg_MaxConnections req) \<and>
       gw_CreatedBy g = (if cg_CreatedBy req \<noteq> [] then cg_CreatedBy req
                         else if SubjectFromContext (Ctx r) \<noteq> [] then SubjectFromContext (Ctx r) else ''system'') \<and>
       pgx_Exec pk (app_db s) sql_gateway_insert (gateway_args g) = (res, app_db s') \<and>
       (case res of
          Inl e \<Rightarrow> rw_status w' = Some 500
        | Inr n \<Rightarrow> rw_status w' = Some 201 \<and>
            rw_body w' = rw_body w @ json_encode (GatewayResponse_json (uuid_String pk) (Gateway_ToResponse g)) @ [CHR 0x0A])))"
proof (cases "decode_body cg_fields r cg_zero")
  case None
  with assms show ?thesis by (auto simp: GatewayHandler_Create_cases writeError_eq)
next
  case (Some req)
  let ?g = "gateway_for r req (new_uuids s 0) (clock s 0)"
  obtain res d where x: "pgx_Exec pk (app_db s) sql_gateway_insert (gateway_args ?g) = (res, d)" by fastforce
  show ?thesis
  proof (cases "gateway_request_ok req")
    case True
    with assms Some x have "app_db s' = d" by (auto simp: GatewayHandler_Create_cases Let_def)
    with assms Some x True show ?thesis
      by (intro disjI2 exI [of _ req] exI [of _ res])
        (auto simp: GatewayHandler_Create_cases writeError_eq gateway_for_def actorFromRequest_def Let_def split: sum.splits)
  next
    case False
    with assms Some show ?thesis by (auto simp: GatewayHandler_Create_cases writeError_eq)
  qed
qed

section \<open>Statements and their arguments\<close>

text \<open>The numbers of the placeholders of a statement, in their order.\<close>

fun placeholders :: "string \<Rightarrow> nat list" where
  "placeholders [] = []"
| "placeholders (c # cs) =
     (if c = CHR ''$'' then foldl (\<lambda>n d. 10 * n + digit_val d) 0 (takeWhile is_digit cs) # placeholders cs
      else placeholders cs)"

lemma Itoa_small: "Itoa 2 = ''2''" "Itoa 3 = ''3''" "Itoa 4 = ''4''"
  by code_simp+

text \<open>
  Every statement of the repositories has the placeholders $1 to $n for the n arguments it is
  sent with, and the text of the threat queries depends on whether there is a severity, never on
  what the request says.
\<close>

theorem sql_arguments_match:
  "placeholders sql_gateway_insert = [1..<Suc (length (gateway_args g))] \<and>
   placeholders sql_gateway_get = [1] \<and> placeholders sql_gateway_count = [] \<and>
   placeholders sql_gateway_list = [1, 2] \<and> placeholders sql_gateway_status = [1, 2, 3] \<and>
   placeholders sql_route_insert = [1..<Suc (length (route_args rt))] \<and>
   placeholders sql_route_get = [1] \<and> placeholders sql_route_list = [1] \<and> placeholders sql_route_delete = [1] \<and>
   placeholders sql_threat_insert = [1..<Suc (length (threat_args te))] \<and>
   placeholders sql_upstream_insert = [1..<Suc (length (upstream_args u))] \<and>
   placeholders sql_upstream_get = [1] \<and> placeholders sql_upstream_count = [] \<and>
   placeholders sql_upstream_list = [1, 2] \<and> placeholders sql_upstream_health = [1, 2] \<and>
   placeholders (fst (threat_count_stmt i sev)) = [1..<Suc (length (snd (threat_count_stmt i sev)))] \<and>
   placeholders (fst (threat_list_stmt i sev off li)) = [1..<Suc (length (snd (threat_list_stmt i sev off li)))] \<and>
   fst (threat_count_stmt i (c # sev)) = fst (threat_count_stmt i' (c' # sev')) \<and>
   fst (threat_list_stmt i (c # sev) off li) = fst (threat_list_stmt i' (c' # sev') off' li')"
proof -
  note eval = sql_texts is_digit_def digit_val_def upt_rec
  have gateways: "placeholders sql_gateway_insert = [1..<Suc (length (gateway_args g))]"
    "placeholders sql_gateway_get = [1]" "placeholders sql_gateway_count = []"
    "placeholders sql_gateway_list = [1, 2]" "placeholders sql_gateway_status = [1, 2, 3]"
    by (simp_all add: eval gateway_args_def)
  have routes: "placeholders sql_route_insert = [1..<Suc (length (route_args rt))]"
    "placeholders sql_route_get = [1]" "placeholders sql_route_list = [1]" "placeholders sql_route_delete = [1]"
    "placeholders sql_threat_insert = [1..<Suc (length (threat_args te))]"
    by (simp_all add: eval route_args_def threat_args_def)
  have upstreams: "placeholders sql_upstream_insert = [1..<Suc (length (upstream_args u))]"
    "placeholders sql_upstream_get = [1]" "placeholders sql_upstream_count = []"
    "placeholders sql_upstream_list = [1, 2]" "placeholders sql_upstream_health = [1, 2]"
    by (simp_all add: eval upstream_args_def)
  have threats: "placeholders (fst (threat_count_stmt i sev)) = [1..<Suc (length (snd (threat_count_stmt i sev)))]"
    "placeholders (fst (threat_list_stmt i sev off li)) = [1..<Suc (length (snd (threat_list_stmt i sev off li)))]"
    by (cases "sev = []"; simp add: threat_count_stmt_def threat_list_stmt_def threat_filter_def Itoa_small eval)+
  have fixed: "fst (threat_count_stmt i (c # sev)) = fst (threat_count_stmt i' (c' # sev'))"
    "fst (threat_list_stmt i (c # sev) off li) = fst (threat_list_stmt i' (c' # sev') off' li')"
    by (simp_all add: threat_count_stmt_def threat_list_stmt_def threat_filter_def)
  show ?thesis by (intro conjI) (rule gateways routes upstreams threats fixed)+
qed

section \<open>Listing\<close>

text \<open>
  Whatever the query string, listing gateways asks the repository for an offset between 0 and
  1,000,000 and a limit between 1 and 100, reports exactly these two in its answer, and leaves
  the state alone.
\<close>

theorem GatewayHandler_List_bounded:
  "\<exists>off li. 0 \<le> off \<and> off \<le> 1000000 \<and> 1 \<le> li \<and> li \<le> 100 \<and>
    GatewayHandler_List pk r (s, w) = (s,
      case GatewayRepository_List pk off li s of
        Inl _ \<Rightarrow> writeError 500 ''failed to list gateways'' w
      | Inr (gs, n) \<Rightarrow> writeJSON 200 (JObj
          [(''gateways'', slice_json (GatewayResponse_json (uuid_String pk)) (map Gateway_ToResponse gs)),
           (''total_count'', json_int n), (''offset'', json_int off), (''limit'', json_int li)]) w)"
proof (intro exI conjI)
  let ?p = "ParsePagination r"
  note b = page_offset_bounds [of "Atoi (Query_Get (URL_Query r) ''offset'')"]
    page_limit_bounds [of "Atoi (Query_Get (URL_Query r) ''limit'')"]
  show bounds: "0 \<le> pg_Offset ?p" "pg_Offset ?p \<le> 1000000" "1 \<le> pg_Limit ?p" "pg_Limit ?p \<le> 100"
    using b by (simp_all add: ParsePagination_def)
  show "GatewayHandler_List pk r (s, w) = (s,
      case GatewayRepository_List pk (pg_Offset ?p) (pg_Limit ?p) s of
        Inl _ \<Rightarrow> writeError 500 ''failed to list gateways'' w
      | Inr (gs, n) \<Rightarrow> writeJSON 200 (JObj
          [(''gateways'', slice_json (GatewayResponse_json (uuid_String pk)) (map Gateway_ToResponse gs)),
           (''total_count'', json_int n), (''offset'', json_int (pg_Offset ?p)),
           (''limit'', json_int (pg_Limit ?p))]) w)"
    using bounds
    by (auto simp: GatewayHandler_List_def GatewayService_List_def GatewayListResponse_json_def Let_def
        split: sum.splits)
qed

end
