(* ===== verification/Schema.thy ===== *)
theory Schema
  imports Repository
begin

text \<open>
  The database of the control plane, as the migration \<open>src/db/migrations/000001_init_schema.up.sql\<close>
  defines it, with the statements that the repositories send: an executable model of what PostgreSQL
  and \<open>pgx\<close> answer to them. Types and constraints of the columns are checked on insertion (lengths
  in characters, enums, 32-bit integers, primary keys, unique names and prefixes, foreign keys),
  timestamps keep microseconds and come back in the location of the client, \<open>NOW()\<close> is the next
  value of the server's clock, and the triggers set \<open>updated_at\<close> on updates. A column without NOT NULL
  can hold NULL also where the program has no place for it (\<open>upstreams.health_check_path\<close>). Columns that
  no statement mentions are left out.
\<close>

section \<open>Values\<close>

definition utf8_chars :: "string \<Rightarrow> nat" where
  "utf8_chars s = length (filter (\<lambda>c. byte_val c < 128 \<or> byte_val c \<ge> 192) s)"

definition pg_text :: "string \<Rightarrow> bool" where
  "pg_text s \<longleftrightarrow> valid_utf8 s \<and> CHR 0x00 \<notin> set s"

text \<open>A value for VARCHAR(n): surplus spaces at its end are dropped, other surplus is an error.\<close>

definition varchar :: "nat \<Rightarrow> string \<Rightarrow> string option" where
  "varchar n s =
     (let t = rev (dropWhile (\<lambda>c. c = CHR '' '') (rev s)) in
      if \<not> pg_text s then None
      else if utf8_chars s \<le> n then Some s
      else if utf8_chars t \<le> n then Some (t @ replicate (n - utf8_chars t) CHR '' '')
      else None)"

definition int4 :: "int \<Rightarrow> int option" where
  "int4 n = (if - (2 ^ 31) \<le> n \<and> n < 2 ^ 31 then Some n else None)"

definition enum :: "string list \<Rightarrow> string \<Rightarrow> string option" where
  "enum labels s = (if s \<in> set labels then Some s else None)"

definition gateway_status :: "string list" where
  "gateway_status = [''ACTIVE'', ''INACTIVE'', ''DRAINING'', ''FAILED'']"

definition route_protocol :: "string list" where
  "route_protocol = [''HTTP'', ''HTTPS'', ''GRPC'', ''TCP'', ''TLS'']"

definition tls_policy :: "string list" where
  "tls_policy = [''PQC_ONLY'', ''PQC_PREFERRED'', ''HYBRID'', ''CLASSICAL_ALLOWED'']"

definition threat_severity :: "string list" where
  "threat_severity = [''CRITICAL'', ''HIGH'', ''MEDIUM'', ''LOW'', ''INFO'']"

definition threat_type :: "string list" where
  "threat_type = [''QUANTUM_DOWNGRADE'', ''WEAK_CIPHER'', ''BOT_ATTACK'', ''ANOMALOUS_TRAFFIC'',
     ''CERTIFICATE_ISSUE'', ''REPLAY_ATTACK'']"

definition nullable :: "('a \<Rightarrow> 'a option) \<Rightarrow> 'a option \<Rightarrow> 'a option option" where
  "nullable f x = (case x of None \<Rightarrow> Some None | Some v \<Rightarrow> map_option Some (f v))"

section \<open>Tables\<close>

text \<open>
  The column \<open>health_check_path\<close> of \<open>upstreams\<close> can be NULL, the field of the struct cannot: a row is
  the struct with a mark that says so, its text then being empty.
\<close>

record upstream_tuple = Upstream +
  up_path_null :: bool

definition up_tuple :: "bool \<Rightarrow> Upstream \<Rightarrow> upstream_tuple" where
  "up_tuple null u = Upstream.extend u (upstream_tuple.fields null)"

record qsgw_db =
  gateways :: "Gateway list"
  upstreams :: "upstream_tuple list"
  routes :: "Route list"
  threat_events :: "ThreatEvent list"
  db_clock :: "nat \<Rightarrow> Time"
  db_zone :: int

definition pg_time :: "qsgw_db \<Rightarrow> Time \<Rightarrow> Time" where
  "pg_time d t = \<lparr>ns = ns t div 1000 * 1000, zone = db_zone d\<rparr>"

definition db_now :: "qsgw_db \<Rightarrow> Time" where
  "db_now d = pg_time d (db_clock d 0)"

definition tick_db :: "qsgw_db \<Rightarrow> qsgw_db" where
  "tick_db d = d\<lparr>db_clock := \<lambda>i. db_clock d (Suc i)\<rparr>"

text \<open>The row that a valid INSERT stores.\<close>

definition gateway_stored :: "qsgw_db \<Rightarrow> Gateway \<Rightarrow> Gateway option" where
  "gateway_stored d g =
     do {
       n \<leftarrow> varchar 255 (gw_Name g); h \<leftarrow> varchar 512 (gw_Hostname g); p \<leftarrow> int4 (gw_Port g);
       st \<leftarrow> enum gateway_status (gw_Status g); tp \<leftarrow> enum tls_policy (gw_TlsPolicy g);
       mc \<leftarrow> int4 (gw_MaxConnections g); cb \<leftarrow> varchar 255 (gw_CreatedBy g);
       Some \<lparr>gw_ID = gw_ID g, gw_Name = n, gw_Hostname = h, gw_Port = p, gw_Status = st, gw_TlsPolicy = tp,
             gw_MaxConnections = mc, gw_CreatedBy = cb, gw_CreatedAt = pg_time d (gw_CreatedAt g),
             gw_UpdatedAt = db_now d\<rparr>
     }"

definition upstream_stored :: "qsgw_db \<Rightarrow> upstream_tuple \<Rightarrow> upstream_tuple option" where
  "upstream_stored d u =
     do {
       n \<leftarrow> varchar 255 (up_Name u); h \<leftarrow> varchar 512 (up_Host u); p \<leftarrow> int4 (up_Port u);
       pr \<leftarrow> enum route_protocol (up_Protocol u);
       hp \<leftarrow> (if up_path_null u then Some [] else varchar 512 (up_HealthCheckPath u));
       hi \<leftarrow> int4 (up_HealthCheckIntervalS u);
       Some \<lparr>up_ID = up_ID u, up_Name = n, up_Host = h, up_Port = p, up_Protocol = pr,
             up_TlsVerify = up_TlsVerify u, up_HealthCheckPath = hp, up_HealthCheckIntervalS = hi,
             up_IsHealthy = True, up_CreatedAt = pg_time d (up_CreatedAt u), up_UpdatedAt = db_now d,
             up_path_null = up_path_null u\<rparr>
     }"

definition route_stored :: "qsgw_db \<Rightarrow> Route \<Rightarrow> Route option" where
  "route_stored d r =
     do {
       pp \<leftarrow> varchar 1024 (rt_PathPrefix r); pr \<leftarrow> int4 (rt_Priority r);
       tp \<leftarrow> nullable (enum tls_policy) (rt_TlsPolicy r); rps \<leftarrow> nullable int4 (rt_RateLimitRPS r);
       Some \<lparr>rt_ID = rt_ID r, rt_GatewayID = rt_GatewayID r, rt_UpstreamID = rt_UpstreamID r,
             rt_PathPrefix = pp, rt_StripPrefix = rt_StripPrefix r, rt_Priority = pr, rt_TlsPolicy = tp,
             rt_RateLimitRPS = rps, rt_Enabled = rt_Enabled r, rt_CreatedAt = pg_time d (rt_CreatedAt r),
             rt_UpdatedAt = db_now d\<rparr>
     }"

definition threat_stored :: "qsgw_db \<Rightarrow> ThreatEvent \<Rightarrow> ThreatEvent option" where
  "threat_stored d t =
     do {
       tt \<leftarrow> enum threat_type (te_ThreatType t); sv \<leftarrow> enum threat_severity (te_Severity t);
       ip \<leftarrow> nullable (varchar 45) (te_SourceIP t);
       de \<leftarrow> (if pg_text (te_Description t) then Some (te_Description t) else None);
       Some \<lparr>te_ID = te_ID t, te_GatewayID = te_GatewayID t, te_ThreatType = tt, te_Severity = sv,
             te_SourceIP = ip, te_Description = de, te_Mitigated = te_Mitigated t,
             te_DetectedAt = pg_time d (te_DetectedAt t)\<rparr>
     }"

definition invalid_value :: pgx_error where "invalid_value = PgError ''22000''"

definition unique_violation :: pgx_error where "unique_violation = PgError ''23505''"

definition foreign_key_violation :: pgx_error where "foreign_key_violation = PgError ''23503''"

definition insert_gateway :: "qsgw_db \<Rightarrow> Gateway \<Rightarrow> (pgx_error + int) \<times> qsgw_db" where
  "insert_gateway d g =
     (case gateway_stored d g of
        None \<Rightarrow> (Inl invalid_value, tick_db d)
      | Some row \<Rightarrow>
          if \<exists>x \<in> set (gateways d). gw_ID x = gw_ID row \<or> gw_Name x = gw_Name row
          then (Inl unique_violation, tick_db d)
          else (Inr 1, tick_db (d\<lparr>gateways := gateways d @ [row]\<rparr>)))"

definition insert_upstream :: "qsgw_db \<Rightarrow> upstream_tuple \<Rightarrow> (pgx_error + int) \<times> qsgw_db" where
  "insert_upstream d u =
     (case upstream_stored d u of
        None \<Rightarrow> (Inl invalid_value, tick_db d)
      | Some row \<Rightarrow>
          if \<exists>x \<in> set (upstreams d). up_ID x = up_ID row then (Inl unique_violation, tick_db d)
          else (Inr 1, tick_db (d\<lparr>upstreams := upstreams d @ [row]\<rparr>)))"

definition insert_route :: "qsgw_db \<Rightarrow> Route \<Rightarrow> (pgx_error + int) \<times> qsgw_db" where
  "insert_route d r =
     (case route_stored d r of
        None \<Rightarrow> (Inl invalid_value, tick_db d)
      | Some row \<Rightarrow>
          if \<exists>x \<in> set (routes d). rt_ID x = rt_ID row \<or>
               rt_GatewayID x = rt_GatewayID row \<and> rt_PathPrefix x = rt_PathPrefix row
          then (Inl unique_violation, tick_db d)
          else if \<not> ((\<exists>g \<in> set (gateways d). gw_ID g = rt_GatewayID row) \<and>
                     (\<exists>u \<in> set (upstreams d). up_ID u = rt_UpstreamID row))
          then (Inl foreign_key_violation, tick_db d)
          else (Inr 1, tick_db (d\<lparr>routes := routes d @ [row]\<rparr>)))"

definition insert_threat :: "qsgw_db \<Rightarrow> ThreatEvent \<Rightarrow> (pgx_error + int) \<times> qsgw_db" where
  "insert_threat d t =
     (case threat_stored d t of
        None \<Rightarrow> (Inl invalid_value, tick_db d)
      | Some row \<Rightarrow>
          if \<exists>x \<in> set (threat_events d). te_ID x = te_ID row then (Inl unique_violation, tick_db d)
          else if \<not> (\<exists>g \<in> set (gateways d). gw_ID g = te_GatewayID row)
          then (Inl foreign_key_violation, tick_db d)
          else (Inr 1, tick_db (d\<lparr>threat_events := threat_events d @ [row]\<rparr>)))"

definition update_gateway_status :: "qsgw_db \<Rightarrow> string \<Rightarrow> uuid \<Rightarrow> (pgx_error + int) \<times> qsgw_db" where
  "update_gateway_status d status i =
     (case enum gateway_status status of
        None \<Rightarrow> (Inl invalid_value, tick_db d)
      | Some st \<Rightarrow>
          (Inr (int (length (filter (\<lambda>g. gw_ID g = i) (gateways d)))),
           tick_db (d\<lparr>gateways := map (\<lambda>g. if gw_ID g = i then g\<lparr>gw_Status := st, gw_UpdatedAt := db_now d\<rparr> else g)
                       (gateways d)\<rparr>)))"

definition update_upstream_health :: "qsgw_db \<Rightarrow> bool \<Rightarrow> uuid \<Rightarrow> (pgx_error + int) \<times> qsgw_db" where
  "update_upstream_health d healthy i =
     (Inr (int (length (filter (\<lambda>u. up_ID u = i) (upstreams d)))),
      tick_db (d\<lparr>upstreams := map (\<lambda>u. if up_ID u = i then u\<lparr>up_IsHealthy := healthy, up_UpdatedAt := db_now d\<rparr> else u)
                  (upstreams d)\<rparr>))"

definition delete_route :: "qsgw_db \<Rightarrow> uuid \<Rightarrow> (pgx_error + int) \<times> qsgw_db" where
  "delete_route d i =
     (Inr (int (length (filter (\<lambda>r. rt_ID r = i) (routes d)))),
      tick_db (d\<lparr>routes := filter (\<lambda>r. rt_ID r \<noteq> i) (routes d)\<rparr>))"

section \<open>Statements\<close>

text \<open>Arguments as the drivers send them; a list that does not fit the statement is an error.\<close>

definition args_gateway :: "sqlval list \<Rightarrow> Gateway option" where
  "args_gateway args = scan_gateway (args @ [SqlTime Time_zero])"

definition args_upstream :: "sqlval list \<Rightarrow> upstream_tuple option" where
  "args_upstream args =
     (if length args \<noteq> 9 then None
      else
        let null = (args ! 6 = SqlNull);
            path = (if null then SqlText [] else args ! 6)
        in map_option (up_tuple null)
             (scan_upstream (take 6 args @ [path, args ! 7, SqlBool True, args ! 8, SqlTime Time_zero])))"

definition args_route :: "sqlval list \<Rightarrow> Route option" where
  "args_route args = scan_route (args @ [SqlTime Time_zero])"

definition bad_args :: pgx_error where "bad_args = PgError ''08P01''"

definition with_args :: "'x option \<Rightarrow> ('x \<Rightarrow> (pgx_error + int) \<times> qsgw_db) \<Rightarrow> qsgw_db \<Rightarrow> (pgx_error + int) \<times> qsgw_db" where
  "with_args x f d = (case x of None \<Rightarrow> (Inl bad_args, d) | Some v \<Rightarrow> f v)"

definition db_Exec :: "qsgw_db \<Rightarrow> string \<Rightarrow> sqlval list \<Rightarrow> (pgx_error + int) \<times> qsgw_db" where
  "db_Exec d sql args =
     (if sql = sql_gateway_insert then with_args (args_gateway args) (insert_gateway d) d
      else if sql = sql_upstream_insert then with_args (args_upstream args) (insert_upstream d) d
      else if sql = sql_route_insert then with_args (args_route args) (insert_route d) d
      else if sql = sql_threat_insert then with_args (scan_threat args) (insert_threat d) d
      else if sql = sql_gateway_status then
        (case args of [SqlText st, SqlTime _, SqlUuid i] \<Rightarrow> update_gateway_status d st i | _ \<Rightarrow> (Inl bad_args, d))
      else if sql = sql_upstream_health then
        (case args of [SqlBool b, SqlUuid i] \<Rightarrow> update_upstream_health d b i | _ \<Rightarrow> (Inl bad_args, d))
      else if sql = sql_route_delete then
        (case args of [SqlUuid i] \<Rightarrow> delete_route d i | _ \<Rightarrow> (Inl bad_args, d))
      else (Inl (PgError ''42601''), d))"

definition gateway_row :: "Gateway \<Rightarrow> sqlrow" where
  "gateway_row g = gateway_args g @ [SqlTime (gw_UpdatedAt g)]"

definition upstream_row :: "upstream_tuple \<Rightarrow> sqlrow" where
  "upstream_row u =
     [SqlUuid (up_ID u), SqlText (up_Name u), SqlText (up_Host u), SqlInt (up_Port u), SqlText (up_Protocol u),
      SqlBool (up_TlsVerify u), (if up_path_null u then SqlNull else SqlText (up_HealthCheckPath u)),
      SqlInt (up_HealthCheckIntervalS u), SqlBool (up_IsHealthy u), SqlTime (up_CreatedAt u), SqlTime (up_UpdatedAt u)]"

definition route_row :: "Route \<Rightarrow> sqlrow" where
  "route_row r = route_args r @ [SqlTime (rt_UpdatedAt r)]"

definition first_row :: "sqlrow list \<Rightarrow> pgx_error + sqlrow" where
  "first_row rows = (case rows of [] \<Rightarrow> Inl ErrNoRows | row # _ \<Rightarrow> Inr row)"

text \<open>Threat events of a gateway, all of them or those of one severity, which must be a label of the enum.\<close>

definition threats_where :: "qsgw_db \<Rightarrow> sqlval list \<Rightarrow> (ThreatEvent list \<times> sqlval list) option" where
  "threats_where d args =
     (case args of
        SqlUuid g # SqlText sv # rest \<Rightarrow>
          if sv \<in> set threat_severity
          then Some (filter (\<lambda>t. te_GatewayID t = g \<and> te_Severity t = sv) (threat_events d), rest) else None
      | SqlUuid g # rest \<Rightarrow> Some (filter (\<lambda>t. te_GatewayID t = g) (threat_events d), rest)
      | _ \<Rightarrow> None)"

definition db_QueryRow :: "qsgw_db \<Rightarrow> string \<Rightarrow> sqlval list \<Rightarrow> pgx_error + sqlrow" where
  "db_QueryRow d sql args =
     (if sql = sql_gateway_get then
        (case args of [SqlUuid i] \<Rightarrow> first_row (map gateway_row (filter (\<lambda>g. gw_ID g = i) (gateways d)))
         | _ \<Rightarrow> Inl bad_args)
      else if sql = sql_upstream_get then
        (case args of [SqlUuid i] \<Rightarrow> first_row (map upstream_row (filter (\<lambda>u. up_ID u = i) (upstreams d)))
         | _ \<Rightarrow> Inl bad_args)
      else if sql = sql_route_get then
        (case args of [SqlUuid i] \<Rightarrow> first_row (map route_row (filter (\<lambda>r. rt_ID r = i) (routes d)))
         | _ \<Rightarrow> Inl bad_args)
      else if sql = sql_gateway_count then Inr [SqlInt (int (length (gateways d)))]
      else if sql = sql_upstream_count then Inr [SqlInt (int (length (upstreams d)))]
      else if sql \<in> {fst (threat_count_stmt 0 []), fst (threat_count_stmt 0 ''LOW'')} then
        (case threats_where d args of
           Some (ts, []) \<Rightarrow> Inr [SqlInt (int (length ts))]
         | _ \<Rightarrow> Inl invalid_value)
      else Inl (PgError ''42601''))"

text \<open>
  ORDER BY time DESC OFFSET o LIMIT l. Rows with equal times are in the order of their insertion here;
  that is one of the orders that PostgreSQL may return, which leaves the order of equal keys open, also
  between two queries for different pages.
\<close>

definition page :: "('x \<Rightarrow> Time) \<Rightarrow> int \<Rightarrow> int \<Rightarrow> 'x list \<Rightarrow> pgx_error + 'x list" where
  "page tm off lm xs =
     (if off < 0 \<or> lm < 0 then Inl invalid_value
      else Inr (take (nat lm) (drop (nat off) (sort_key (\<lambda>x. - ns (tm x)) xs))))"

definition page_rows :: "('x \<Rightarrow> sqlrow) \<Rightarrow> pgx_error + 'x list \<Rightarrow> pgx_error + sqlrow list \<times> pgx_error option" where
  "page_rows f p = (case p of Inl e \<Rightarrow> Inl e | Inr xs \<Rightarrow> Inr (map f xs, None))"

definition db_Query :: "qsgw_db \<Rightarrow> string \<Rightarrow> sqlval list \<Rightarrow> pgx_error + sqlrow list \<times> pgx_error option" where
  "db_Query d sql args =
     (if sql = sql_gateway_list then
        (case args of [SqlInt off, SqlInt lm] \<Rightarrow> page_rows gateway_row (page gw_CreatedAt off lm (gateways d))
         | _ \<Rightarrow> Inl bad_args)
      else if sql = sql_upstream_list then
        (case args of [SqlInt off, SqlInt lm] \<Rightarrow> page_rows upstream_row (page up_CreatedAt off lm (upstreams d))
         | _ \<Rightarrow> Inl bad_args)
      else if sql = sql_route_list then
        (case args of
           [SqlUuid g] \<Rightarrow>
             Inr (map route_row (sort_key (\<lambda>r. - rt_Priority r) (filter (\<lambda>r. rt_GatewayID r = g) (routes d))), None)
         | _ \<Rightarrow> Inl bad_args)
      else if sql \<in> {fst (threat_list_stmt 0 [] 0 0), fst (threat_list_stmt 0 ''LOW'' 0 0)} then
        (case threats_where d args of
           Some (ts, [SqlInt off, SqlInt lm]) \<Rightarrow> page_rows threat_args (page te_DetectedAt off lm ts)
         | _ \<Rightarrow> Inl invalid_value)
      else Inl (PgError ''42601''))"

text \<open>
  The packages with this database behind the driver; the functions of package \<open>uuid\<close> stay parameters.
\<close>

definition qsgw_pkgs :: "(uuid \<Rightarrow> string) \<Rightarrow> (string \<Rightarrow> uuid option) \<Rightarrow> qsgw_db pkgs" where
  "qsgw_pkgs us up = \<lparr>pgx_Exec = db_Exec, pgx_QueryRow = db_QueryRow, pgx_Query = db_Query,
     uuid_String = us, uuid_Parse = up\<rparr>"

lemma qsgw_pkgs_simps [simp]:
  "pgx_Exec (qsgw_pkgs us up) = db_Exec" "pgx_QueryRow (qsgw_pkgs us up) = db_QueryRow"
  "pgx_Query (qsgw_pkgs us up) = db_Query" "uuid_String (qsgw_pkgs us up) = us" "uuid_Parse (qsgw_pkgs us up) = up"
  by (simp_all add: qsgw_pkgs_def)

section \<open>Reading back rows\<close>

lemmas conversions = as_uuid_def as_text_def as_int_def as_bool_def as_time_def as_ptr_def ptr_val_def
  numeral_nat

lemma scan_gateway_row [simp]: "scan_gateway (gateway_row g) = Some g"
  by (simp add: scan_gateway_def gateway_row_def gateway_args_def conversions)

lemma scan_upstream_row [simp]:
  "scan_upstream (upstream_row u) = (if up_path_null u then None else Some (Upstream.truncate u))"
  by (simp add: scan_upstream_def upstream_row_def conversions Upstream.defs)

lemma up_tuple_simps [simp]:
  "up_ID (up_tuple b u) = up_ID u" "up_Name (up_tuple b u) = up_Name u" "up_Host (up_tuple b u) = up_Host u"
  "up_Port (up_tuple b u) = up_Port u" "up_Protocol (up_tuple b u) = up_Protocol u"
  "up_TlsVerify (up_tuple b u) = up_TlsVerify u" "up_HealthCheckPath (up_tuple b u) = up_HealthCheckPath u"
  "up_HealthCheckIntervalS (up_tuple b u) = up_HealthCheckIntervalS u" "up_IsHealthy (up_tuple b u) = up_IsHealthy u"
  "up_CreatedAt (up_tuple b u) = up_CreatedAt u" "up_UpdatedAt (up_tuple b u) = up_UpdatedAt u"
  "up_path_null (up_tuple b u) = b" "Upstream.truncate (up_tuple b u) = u"
  by (simp_all add: up_tuple_def Upstream.defs upstream_tuple.defs)

lemma scan_route_row [simp]: "scan_route (route_row r) = Some r"
  by (cases "rt_TlsPolicy r"; cases "rt_RateLimitRPS r")
    (simp_all add: scan_route_def route_row_def route_args_def conversions)

lemma scan_threat_args [simp]: "scan_threat (threat_args t) = Some t"
  by (cases "te_SourceIP t") (simp_all add: scan_threat_def threat_args_def conversions)

lemma args_gateway_args [simp]: "args_gateway (gateway_args g) = Some (g\<lparr>gw_UpdatedAt := Time_zero\<rparr>)"
  by (simp add: args_gateway_def scan_gateway_def gateway_args_def conversions)

lemma args_route_args [simp]: "args_route (route_args r) = Some (r\<lparr>rt_UpdatedAt := Time_zero\<rparr>)"
  by (cases "rt_TlsPolicy r"; cases "rt_RateLimitRPS r")
    (simp_all add: args_route_def scan_route_def route_args_def conversions)

lemma args_upstream_args [simp]:
  "args_upstream (upstream_args u) = Some (up_tuple False (u\<lparr>up_IsHealthy := True, up_UpdatedAt := Time_zero\<rparr>))"
  by (simp add: args_upstream_def scan_upstream_def upstream_args_def conversions)

lemma sql_exec_distinct [simp]:
  "sql_upstream_insert \<noteq> sql_gateway_insert" "sql_route_insert \<noteq> sql_gateway_insert"
  "sql_threat_insert \<noteq> sql_gateway_insert" "sql_gateway_status \<noteq> sql_gateway_insert"
  "sql_upstream_health \<noteq> sql_gateway_insert" "sql_route_delete \<noteq> sql_gateway_insert"
  "sql_route_insert \<noteq> sql_upstream_insert" "sql_threat_insert \<noteq> sql_upstream_insert"
  "sql_gateway_status \<noteq> sql_upstream_insert" "sql_upstream_health \<noteq> sql_upstream_insert"
  "sql_route_delete \<noteq> sql_upstream_insert" "sql_threat_insert \<noteq> sql_route_insert"
  "sql_gateway_status \<noteq> sql_route_insert" "sql_upstream_health \<noteq> sql_route_insert"
  "sql_route_delete \<noteq> sql_route_insert" "sql_gateway_status \<noteq> sql_threat_insert"
  "sql_upstream_health \<noteq> sql_threat_insert" "sql_route_delete \<noteq> sql_threat_insert"
  "sql_upstream_health \<noteq> sql_gateway_status" "sql_route_delete \<noteq> sql_gateway_status"
  "sql_route_delete \<noteq> sql_upstream_health"
  by (simp_all add: sql_texts)

lemma sql_query_distinct [simp]:
  "sql_upstream_get \<noteq> sql_gateway_get" "sql_route_get \<noteq> sql_gateway_get" "sql_gateway_count \<noteq> sql_gateway_get"
  "sql_upstream_count \<noteq> sql_gateway_get" "sql_route_get \<noteq> sql_upstream_get"
  "sql_gateway_count \<noteq> sql_upstream_get" "sql_upstream_count \<noteq> sql_upstream_get"
  "sql_gateway_count \<noteq> sql_route_get" "sql_upstream_count \<noteq> sql_route_get"
  "sql_upstream_count \<noteq> sql_gateway_count" "sql_upstream_list \<noteq> sql_gateway_list"
  "sql_route_list \<noteq> sql_gateway_list" "sql_route_list \<noteq> sql_upstream_list"
  by (simp_all add: sql_texts)

text \<open>Insertion fills the columns that the statement leaves out.\<close>

lemma insert_ignores [simp]:
  "insert_gateway d (g\<lparr>gw_UpdatedAt := t\<rparr>) = insert_gateway d g"
  "insert_route d (r\<lparr>rt_UpdatedAt := t\<rparr>) = insert_route d r"
  "insert_upstream d (up_tuple null (u\<lparr>up_IsHealthy := b, up_UpdatedAt := t\<rparr>)) = insert_upstream d (up_tuple null u)"
  by (simp_all add: insert_gateway_def gateway_stored_def insert_route_def route_stored_def
      insert_upstream_def upstream_stored_def)

lemma db_Exec_inserts [simp]:
  "db_Exec d sql_gateway_insert (gateway_args g) = insert_gateway d g"
  "db_Exec d sql_upstream_insert (upstream_args u) = insert_upstream d (up_tuple False u)"
  "db_Exec d sql_route_insert (route_args r) = insert_route d r"
  "db_Exec d sql_threat_insert (threat_args t) = insert_threat d t"
  by (simp_all add: db_Exec_def with_args_def)

lemma db_Exec_updates [simp]:
  "db_Exec d sql_gateway_status [SqlText st, SqlTime t, SqlUuid i] = update_gateway_status d st i"
  "db_Exec d sql_upstream_health [SqlBool b, SqlUuid i] = update_upstream_health d b i"
  "db_Exec d sql_route_delete [SqlUuid i] = delete_route d i"
  by (simp_all add: db_Exec_def)

lemma db_QueryRow_get [simp]:
  "db_QueryRow d sql_gateway_get [SqlUuid i] = first_row (map gateway_row (filter (\<lambda>g. gw_ID g = i) (gateways d)))"
  "db_QueryRow d sql_upstream_get [SqlUuid i] = first_row (map upstream_row (filter (\<lambda>u. up_ID u = i) (upstreams d)))"
  "db_QueryRow d sql_route_get [SqlUuid i] = first_row (map route_row (filter (\<lambda>r. rt_ID r = i) (routes d)))"
  "db_QueryRow d sql_gateway_count [] = Inr [SqlInt (int (length (gateways d)))]"
  "db_QueryRow d sql_upstream_count [] = Inr [SqlInt (int (length (upstreams d)))]"
  by (simp_all add: db_QueryRow_def)

section \<open>The repositories keep their contract\<close>

lemma find_append: "List.find P (xs @ ys) = (case List.find P xs of None \<Rightarrow> List.find P ys | Some x \<Rightarrow> Some x)"
  by (induction xs) auto

lemma first_row_filter:
  "first_row (map f (filter P xs)) = (case List.find P xs of None \<Rightarrow> Inl ErrNoRows | Some x \<Rightarrow> Inr (f x))"
  by (induction xs) (auto simp: first_row_def)

lemma find_None: "List.find P xs = None \<longleftrightarrow> (\<forall>x \<in> set xs. \<not> P x)"
  by (auto simp: find_None_iff)

lemma length_filter_find: "int (length (filter P xs)) = 0 \<longleftrightarrow> List.find P xs = None"
  by (auto simp: find_None filter_empty_conv)

text \<open>Updating the entity with one key in a list.\<close>

lemma find_map_key:
  assumes "\<And>x. key (f x) = key x"
  shows "List.find (\<lambda>x. key x = j) (map (\<lambda>x. if key x = i then f x else x) xs) =
    (if j = i then map_option f (List.find (\<lambda>x. key x = i) xs) else List.find (\<lambda>x. key x = j) xs)"
  using assms by (induction xs) auto

lemma varchar_id: "varchar n s = Some t \<Longrightarrow> length s \<le> n \<Longrightarrow> t = s"
proof -
  assume "varchar n s = Some t" "length s \<le> n"
  moreover have "utf8_chars s \<le> length s" by (simp add: utf8_chars_def)
  ultimately show ?thesis by (auto simp: varchar_def Let_def split: if_splits)
qed

lemma int4_id: "int4 n = Some m \<Longrightarrow> m = n"
  by (simp add: int4_def split: if_splits)

lemma enum_id: "enum ls s = Some t \<Longrightarrow> t = s"
  by (simp add: enum_def split: if_splits)

lemma nullable_id: "(\<And>v w. f v = Some w \<Longrightarrow> x = Some v \<Longrightarrow> w = v) \<Longrightarrow> nullable f x = Some y \<Longrightarrow> y = x"
  by (auto simp: nullable_def split: option.splits)

lemma db_tick_simps [simp]:
  "gateways (tick_db d) = gateways d" "upstreams (tick_db d) = upstreams d" "routes (tick_db d) = routes d"
  "threat_events (tick_db d) = threat_events d" "db_zone (tick_db d) = db_zone d"
  by (simp_all add: tick_db_def)

lemma app_db_pool_Exec:
  "pool_Exec pk sql args s = (fst (pgx_Exec pk (app_db s) sql args), s\<lparr>app_db := snd (pgx_Exec pk (app_db s) sql args)\<rparr>)"
  by (simp add: pool_Exec_def split_def Let_def)

subsection \<open>Gateways\<close>

definition gateway_view :: "(qsgw_db, 'a) app_scheme \<Rightarrow> uuid \<Rightarrow> Gateway option" where
  "gateway_view s i = List.find (\<lambda>g. gw_ID g = i) (gateways (app_db s))"

definition gateway_fits :: "Gateway \<Rightarrow> bool" where
  "gateway_fits g \<longleftrightarrow> length (gw_Name g) \<le> 255 \<and> length (gw_Hostname g) \<le> 512 \<and> length (gw_CreatedBy g) \<le> 255"

text \<open>Up to the precision of timestamps and the time of the update, the row is what was sent.\<close>

definition gateway_kept :: "Gateway \<Rightarrow> Gateway \<Rightarrow> bool" where
  "gateway_kept g g' \<longleftrightarrow>
     g' = g\<lparr>gw_CreatedAt := gw_CreatedAt g', gw_UpdatedAt := gw_UpdatedAt g'\<rparr>
     \<and> ns (gw_CreatedAt g') = ns (gw_CreatedAt g) div 1000 * 1000"

lemma gateway_stored_kept:
  assumes "gateway_stored d g = Some row" "gateway_fits g"
  shows "gateway_kept g row \<and> zone (gw_CreatedAt row) = db_zone d"
  using assms
  by (cases g) (auto simp: gateway_stored_def gateway_kept_def gateway_fits_def pg_time_def bind_eq_Some_conv
      dest: varchar_id int4_id enum_id)

lemma insert_gateway_Inr:
  "insert_gateway d g = (Inr n, d') \<longleftrightarrow> (\<exists>row. gateway_stored d g = Some row \<and> n = 1
     \<and> (\<forall>x \<in> set (gateways d). gw_ID x \<noteq> gw_ID row \<and> gw_Name x \<noteq> gw_Name row)
     \<and> d' = tick_db (d\<lparr>gateways := gateways d @ [row]\<rparr>))"
  by (auto simp: insert_gateway_def split: option.splits if_splits)

lemma insert_gateway_Inl: "insert_gateway d g = (Inl e, d') \<Longrightarrow> d' = tick_db d"
  by (auto simp: insert_gateway_def split: option.splits if_splits)

lemma gateway_stored_ID: "gateway_stored d g = Some row \<Longrightarrow> gw_ID row = gw_ID g"
  by (auto simp: gateway_stored_def bind_eq_Some_conv)

lemma GatewayRepository_Create_None:
  "GatewayRepository_Create (qsgw_pkgs us up) g s = (None, s') \<longleftrightarrow>
     (\<exists>n d. insert_gateway (app_db s) g = (Inr n, d) \<and> s' = s\<lparr>app_db := d\<rparr>)"
  by (cases "insert_gateway (app_db s) g")
    (auto simp: GatewayRepository_Create_def app_db_pool_Exec split: sum.splits)

lemma GatewayRepository_GetByID_view:
  "GatewayRepository_GetByID (qsgw_pkgs us up) i s =
     (case gateway_view s i of Some g \<Rightarrow> Inr g | None \<Rightarrow> Inl (NotFound ''gateway not found'' i))"
  by (simp add: GatewayRepository_GetByID_def query_scan_def first_row_filter gateway_view_def lookup_error_def
      split: option.splits)

interpretation gw_store: entity_store gw_ID "GatewayRepository_Create (qsgw_pkgs us up)"
  "GatewayRepository_GetByID (qsgw_pkgs us up)" gateway_view Inr gateway_fits gateway_kept "''gateway not found''" for us up
proof unfold_locales
  fix g and s s' :: "(qsgw_db, 'a) app_scheme"
  assume fits: "gateway_fits g" and c: "GatewayRepository_Create (qsgw_pkgs us up) g s = (None, s')"
  then obtain n d where i: "insert_gateway (app_db s) g = (Inr n, d)" and s': "s' = s\<lparr>app_db := d\<rparr>"
    using GatewayRepository_Create_None by blast
  then obtain row where row: "gateway_stored (app_db s) g = Some row"
      "\<forall>x \<in> set (gateways (app_db s)). gw_ID x \<noteq> gw_ID row"
      "d = tick_db ((app_db s)\<lparr>gateways := gateways (app_db s) @ [row]\<rparr>)"
    unfolding insert_gateway_Inr by blast
  have "gateway_view s (gw_ID g) = None"
    using row(2) gateway_stored_ID [OF row(1)] by (simp add: gateway_view_def find_None)
  moreover have "gateway_view s' = (gateway_view s)(gw_ID g \<mapsto> row)"
    using gateway_stored_ID [OF row(1)] row(3) calculation s'
    by (auto simp: gateway_view_def find_append split: option.splits)
  ultimately show "gateway_view s (gw_ID g) = None \<and>
      (\<exists>x g'. Inr x = (Inr g' :: repo_error + Gateway) \<and> gateway_kept g g' \<and> gateway_view s' = (gateway_view s)(gw_ID g \<mapsto> x))"
    using gateway_stored_kept [OF row(1) fits] by blast
next
  fix g x and s s' :: "(qsgw_db, 'a) app_scheme"
  assume "GatewayRepository_Create (qsgw_pkgs us up) g s = (Some x, s')"
  then show "gateway_view s' = gateway_view s"
    by (cases "insert_gateway (app_db s) g")
      (auto simp: GatewayRepository_Create_def app_db_pool_Exec gateway_view_def dest!: insert_gateway_Inl
        split: sum.splits)
qed (rule GatewayRepository_GetByID_view)

definition gateway_with_status :: "string \<Rightarrow> Time \<Rightarrow> Gateway \<Rightarrow> Gateway" where
  "gateway_with_status st t g = g\<lparr>gw_Status := st, gw_UpdatedAt := t\<rparr>"

lemma UpdateStatus_qsgw:
  "GatewayRepository_UpdateStatus (qsgw_pkgs us up) i st s =
     (case update_gateway_status (app_db s) st i of
        (Inl e, d) \<Rightarrow> (Some (Wrapped ''failed to update gateway status'' e), (snd (time_Now s))\<lparr>app_db := d\<rparr>)
      | (Inr n, d) \<Rightarrow> (if n = 0 then Some (NotFound ''gateway not found'' i) else None, (snd (time_Now s))\<lparr>app_db := d\<rparr>))"
  by (simp add: GatewayRepository_UpdateStatus_def app_db_pool_Exec time_Now_def split: sum.splits prod.splits)

lemma gateway_view_update [simp]: "gateway_view (s\<lparr>app_db := d\<rparr>) i = List.find (\<lambda>g. gw_ID g = i) (gateways d)"
  by (simp add: gateway_view_def)

lemma update_gateway_status_eq:
  assumes "st \<in> set gateway_status"
  shows "update_gateway_status d st i =
    (Inr (int (length (filter (\<lambda>g. gw_ID g = i) (gateways d)))),
     tick_db (d\<lparr>gateways := map (\<lambda>g. if gw_ID g = i then gateway_with_status st (db_now d) g else g) (gateways d)\<rparr>))"
  unfolding update_gateway_status_def enum_def gateway_with_status_def using assms by simp

interpretation gw_status: status_store gw_ID "GatewayRepository_Create (qsgw_pkgs us up)"
  "GatewayRepository_GetByID (qsgw_pkgs us up)" gateway_view Inr gateway_fits gateway_kept "''gateway not found''"
  "GatewayRepository_UpdateStatus (qsgw_pkgs us up)" gateway_with_status "\<lambda>st. st \<in> set gateway_status" for us up
proof unfold_locales
  fix st i g and s :: "(qsgw_db, 'a) app_scheme"
  assume st: "st \<in> set gateway_status" and v: "gateway_view s i = Some g"
  let ?d = "tick_db ((app_db s)\<lparr>gateways := map (\<lambda>g. if gw_ID g = i then gateway_with_status st (db_now (app_db s)) g else g)
    (gateways (app_db s))\<rparr>)"
  have id: "gw_ID (gateway_with_status st (db_now (app_db s)) g) = gw_ID g" for g
    by (simp add: gateway_with_status_def)
  have "int (length (filter (\<lambda>g. gw_ID g = i) (gateways (app_db s)))) \<noteq> 0"
    using v length_filter_find [of "\<lambda>g. gw_ID g = i" "gateways (app_db s)"] by (auto simp: gateway_view_def)
  then have "GatewayRepository_UpdateStatus (qsgw_pkgs us up) i st s = (None, (snd (time_Now s))\<lparr>app_db := ?d\<rparr>)"
    by (simp add: UpdateStatus_qsgw update_gateway_status_eq [OF st])
  moreover have "gateway_view ((snd (time_Now s))\<lparr>app_db := ?d\<rparr>) =
      (gateway_view s)(i \<mapsto> gateway_with_status st (db_now (app_db s)) g)"
    using v by (auto simp: find_map_key [of gw_ID, OF id] gateway_view_def [of s])
  ultimately show "\<exists>t s'. GatewayRepository_UpdateStatus (qsgw_pkgs us up) i st s = (None, s') \<and>
      gateway_view s' = (gateway_view s)(i \<mapsto> gateway_with_status st t g)" by blast
next
  fix st i and s :: "(qsgw_db, 'a) app_scheme"
  assume v: "gateway_view s i = None"
  then have none: "\<forall>g \<in> set (gateways (app_db s)). gw_ID g \<noteq> i" by (simp add: gateway_view_def find_None)
  then have "int (length (filter (\<lambda>g. gw_ID g = i) (gateways (app_db s)))) = 0" by (simp add: filter_empty_conv)
  moreover have "map (\<lambda>g. if gw_ID g = i then f g else g) (gateways (app_db s)) = gateways (app_db s)" for f
    using none by (intro map_idI) simp
  ultimately show "\<exists>x s'. GatewayRepository_UpdateStatus (qsgw_pkgs us up) i st s = (Some x, s') \<and> gateway_view s' = gateway_view s"
    by (cases "st \<in> set gateway_status")
      (auto simp: UpdateStatus_qsgw update_gateway_status_def enum_def gateway_view_def [abs_def])
qed

subsection \<open>Upstreams\<close>

definition upstream_view :: "(qsgw_db, 'a) app_scheme \<Rightarrow> uuid \<Rightarrow> upstream_tuple option" where
  "upstream_view s i = List.find (\<lambda>u. up_ID u = i) (upstreams (app_db s))"

definition upstream_fits :: "Upstream \<Rightarrow> bool" where
  "upstream_fits u \<longleftrightarrow> length (up_Name u) \<le> 255 \<and> length (up_Host u) \<le> 512 \<and> length (up_HealthCheckPath u) \<le> 512
     \<and> up_IsHealthy u"

definition upstream_kept :: "Upstream \<Rightarrow> Upstream \<Rightarrow> bool" where
  "upstream_kept u u' \<longleftrightarrow>
     u' = u\<lparr>up_CreatedAt := up_CreatedAt u', up_UpdatedAt := up_UpdatedAt u'\<rparr>
     \<and> ns (up_CreatedAt u') = ns (up_CreatedAt u) div 1000 * 1000"

text \<open>What \<open>GetByID\<close> makes of a row: a NULL does not fit the string it is scanned into.\<close>

definition read_upstream :: "upstream_tuple \<Rightarrow> repo_error + Upstream" where
  "read_upstream x = (if up_path_null x then Inl (Wrapped ''failed to get upstream'' ScanError) else Inr (Upstream.truncate x))"

lemma upstream_stored_kept:
  assumes "upstream_stored d (up_tuple False u) = Some row" "upstream_fits u"
  shows "read_upstream row = Inr (Upstream.truncate row) \<and> upstream_kept u (Upstream.truncate row)"
  using assms
  by (cases u) (auto simp: upstream_stored_def upstream_kept_def upstream_fits_def pg_time_def bind_eq_Some_conv
      read_upstream_def Upstream.defs dest: varchar_id int4_id enum_id)

lemma insert_upstream_Inr:
  "insert_upstream d u = (Inr n, d') \<longleftrightarrow> (\<exists>row. upstream_stored d u = Some row \<and> n = 1
     \<and> (\<forall>x \<in> set (upstreams d). up_ID x \<noteq> up_ID row) \<and> d' = tick_db (d\<lparr>upstreams := upstreams d @ [row]\<rparr>))"
  by (auto simp: insert_upstream_def split: option.splits if_splits)

lemma insert_upstream_Inl: "insert_upstream d u = (Inl e, d') \<Longrightarrow> d' = tick_db d"
  by (auto simp: insert_upstream_def split: option.splits if_splits)

lemma upstream_stored_ID: "upstream_stored d u = Some row \<Longrightarrow> up_ID row = up_ID u"
  by (auto simp: upstream_stored_def bind_eq_Some_conv)

lemma UpstreamRepository_Create_None:
  "UpstreamRepository_Create (qsgw_pkgs us up) u s = (None, s') \<longleftrightarrow>
     (\<exists>n d. insert_upstream (app_db s) (up_tuple False u) = (Inr n, d) \<and> s' = s\<lparr>app_db := d\<rparr>)"
  by (cases "insert_upstream (app_db s) (up_tuple False u)")
    (auto simp: UpstreamRepository_Create_def app_db_pool_Exec split: sum.splits)

interpretation up_store: entity_store up_ID "UpstreamRepository_Create (qsgw_pkgs us up)"
  "UpstreamRepository_GetByID (qsgw_pkgs us up)" upstream_view read_upstream upstream_fits upstream_kept
  "''upstream not found''" for us up
proof unfold_locales
  fix u and s s' :: "(qsgw_db, 'a) app_scheme"
  assume fits: "upstream_fits u" and c: "UpstreamRepository_Create (qsgw_pkgs us up) u s = (None, s')"
  then obtain n d where i: "insert_upstream (app_db s) (up_tuple False u) = (Inr n, d)" and s': "s' = s\<lparr>app_db := d\<rparr>"
    using UpstreamRepository_Create_None by blast
  then obtain row where row: "upstream_stored (app_db s) (up_tuple False u) = Some row"
      "\<forall>x \<in> set (upstreams (app_db s)). up_ID x \<noteq> up_ID row"
      "d = tick_db ((app_db s)\<lparr>upstreams := upstreams (app_db s) @ [row]\<rparr>)"
    unfolding insert_upstream_Inr by blast
  have "upstream_view s (up_ID u) = None"
    using row(2) upstream_stored_ID [OF row(1)] by (simp add: upstream_view_def find_None)
  moreover have "upstream_view s' = (upstream_view s)(up_ID u \<mapsto> row)"
    using upstream_stored_ID [OF row(1)] row(3) calculation s'
    by (auto simp: upstream_view_def find_append split: option.splits)
  ultimately show "upstream_view s (up_ID u) = None \<and>
      (\<exists>x u'. read_upstream x = Inr u' \<and> upstream_kept u u' \<and> upstream_view s' = (upstream_view s)(up_ID u \<mapsto> x))"
    using upstream_stored_kept [OF row(1) fits] by blast
next
  fix u x and s s' :: "(qsgw_db, 'a) app_scheme"
  assume "UpstreamRepository_Create (qsgw_pkgs us up) u s = (Some x, s')"
  then show "upstream_view s' = upstream_view s"
    by (cases "insert_upstream (app_db s) (up_tuple False u)")
      (auto simp: UpstreamRepository_Create_def app_db_pool_Exec upstream_view_def dest!: insert_upstream_Inl
        split: sum.splits)
next
  fix i and s :: "(qsgw_db, 'a) app_scheme"
  show "UpstreamRepository_GetByID (qsgw_pkgs us up) i s =
      (case upstream_view s i of Some x \<Rightarrow> read_upstream x | None \<Rightarrow> Inl (NotFound ''upstream not found'' i))"
    by (simp add: read_upstream_def UpstreamRepository_GetByID_def query_scan_def first_row_filter upstream_view_def lookup_error_def
        split: option.splits)
qed

subsection \<open>Routes\<close>

definition route_view :: "(qsgw_db, 'a) app_scheme \<Rightarrow> uuid \<Rightarrow> Route option" where
  "route_view s i = List.find (\<lambda>r. rt_ID r = i) (routes (app_db s))"

definition route_fits :: "Route \<Rightarrow> bool" where
  "route_fits r \<longleftrightarrow> length (rt_PathPrefix r) \<le> 1024"

definition route_kept :: "Route \<Rightarrow> Route \<Rightarrow> bool" where
  "route_kept r r' \<longleftrightarrow>
     r' = r\<lparr>rt_CreatedAt := rt_CreatedAt r', rt_UpdatedAt := rt_UpdatedAt r'\<rparr>
     \<and> ns (rt_CreatedAt r') = ns (rt_CreatedAt r) div 1000 * 1000"

lemma nullable_enum_id: "nullable (enum ls) x = Some y \<Longrightarrow> y = x"
  by (rule nullable_id) (rule enum_id)

lemma nullable_int4_id: "nullable int4 x = Some y \<Longrightarrow> y = x"
  by (rule nullable_id) (rule int4_id)

lemma route_stored_kept:
  assumes "route_stored d r = Some row" "route_fits r"
  shows "route_kept r row"
  using assms
  by (cases r) (auto simp: route_stored_def route_kept_def route_fits_def pg_time_def bind_eq_Some_conv
      dest: varchar_id int4_id nullable_enum_id nullable_int4_id)

lemma insert_route_Inr:
  "insert_route d r = (Inr n, d') \<longleftrightarrow> (\<exists>row. route_stored d r = Some row \<and> n = 1
     \<and> (\<forall>x \<in> set (routes d). rt_ID x \<noteq> rt_ID row
          \<and> \<not> (rt_GatewayID x = rt_GatewayID row \<and> rt_PathPrefix x = rt_PathPrefix row))
     \<and> (\<exists>g \<in> set (gateways d). gw_ID g = rt_GatewayID row) \<and> (\<exists>u \<in> set (upstreams d). up_ID u = rt_UpstreamID row)
     \<and> d' = tick_db (d\<lparr>routes := routes d @ [row]\<rparr>))"
  by (auto simp: insert_route_def split: option.splits if_splits)

lemma insert_route_Inl: "insert_route d r = (Inl e, d') \<Longrightarrow> d' = tick_db d"
  by (auto simp: insert_route_def split: option.splits if_splits)

lemma route_stored_ID: "route_stored d r = Some row \<Longrightarrow> rt_ID row = rt_ID r"
  by (auto simp: route_stored_def bind_eq_Some_conv)

lemma RouteRepository_Create_None:
  "RouteRepository_Create (qsgw_pkgs us up) r s = (None, s') \<longleftrightarrow>
     (\<exists>n d. insert_route (app_db s) r = (Inr n, d) \<and> s' = s\<lparr>app_db := d\<rparr>)"
  by (cases "insert_route (app_db s) r")
    (auto simp: RouteRepository_Create_def app_db_pool_Exec split: sum.splits)

interpretation rt_store: entity_store rt_ID "RouteRepository_Create (qsgw_pkgs us up)"
  "RouteRepository_GetByID (qsgw_pkgs us up)" route_view Inr route_fits route_kept "''route not found''" for us up
proof unfold_locales
  fix r and s s' :: "(qsgw_db, 'a) app_scheme"
  assume fits: "route_fits r" and c: "RouteRepository_Create (qsgw_pkgs us up) r s = (None, s')"
  then obtain n d where i: "insert_route (app_db s) r = (Inr n, d)" and s': "s' = s\<lparr>app_db := d\<rparr>"
    using RouteRepository_Create_None by blast
  then obtain row where row: "route_stored (app_db s) r = Some row"
      "\<forall>x \<in> set (routes (app_db s)). rt_ID x \<noteq> rt_ID row"
      "d = tick_db ((app_db s)\<lparr>routes := routes (app_db s) @ [row]\<rparr>)"
    unfolding insert_route_Inr by blast
  have "route_view s (rt_ID r) = None"
    using row(2) route_stored_ID [OF row(1)] by (simp add: route_view_def find_None)
  moreover have "route_view s' = (route_view s)(rt_ID r \<mapsto> row)"
    using route_stored_ID [OF row(1)] row(3) calculation s'
    by (auto simp: route_view_def find_append split: option.splits)
  ultimately show "route_view s (rt_ID r) = None \<and>
      (\<exists>x r'. Inr x = (Inr r' :: repo_error + Route) \<and> route_kept r r' \<and> route_view s' = (route_view s)(rt_ID r \<mapsto> x))"
    using route_stored_kept [OF row(1) fits] by blast
next
  fix r x and s s' :: "(qsgw_db, 'a) app_scheme"
  assume "RouteRepository_Create (qsgw_pkgs us up) r s = (Some x, s')"
  then show "route_view s' = route_view s"
    by (cases "insert_route (app_db s) r")
      (auto simp: RouteRepository_Create_def app_db_pool_Exec route_view_def dest!: insert_route_Inl split: sum.splits)
next
  fix i and s :: "(qsgw_db, 'a) app_scheme"
  show "RouteRepository_GetByID (qsgw_pkgs us up) i s =
      (case route_view s i of Some r \<Rightarrow> Inr r | None \<Rightarrow> Inl (NotFound ''route not found'' i))"
    by (simp add: RouteRepository_GetByID_def query_scan_def first_row_filter route_view_def lookup_error_def
        split: option.splits)
qed

section \<open>Integrity\<close>

definition refs_gateway :: "qsgw_db \<Rightarrow> uuid \<Rightarrow> bool" where
  "refs_gateway d i \<longleftrightarrow> (\<exists>g \<in> set (gateways d). gw_ID g = i)"

definition refs_upstream :: "qsgw_db \<Rightarrow> uuid \<Rightarrow> bool" where
  "refs_upstream d i \<longleftrightarrow> (\<exists>u \<in> set (upstreams d). up_ID u = i)"

definition db_ok :: "qsgw_db \<Rightarrow> bool" where
  "db_ok d \<longleftrightarrow> distinct (map gw_ID (gateways d)) \<and> distinct (map gw_Name (gateways d))
     \<and> distinct (map up_ID (upstreams d)) \<and> distinct (map rt_ID (routes d))
     \<and> distinct (map (\<lambda>r. (rt_GatewayID r, rt_PathPrefix r)) (routes d))
     \<and> distinct (map te_ID (threat_events d))
     \<and> (\<forall>r \<in> set (routes d). refs_gateway d (rt_GatewayID r) \<and> refs_upstream d (rt_UpstreamID r))
     \<and> (\<forall>t \<in> set (threat_events d). refs_gateway d (te_GatewayID t))
     \<and> (\<forall>g \<in> set (gateways d). gw_Status g \<in> set gateway_status \<and> gw_TlsPolicy g \<in> set tls_policy)"

lemma db_ok_tick [simp]: "db_ok (tick_db d) = db_ok d"
  by (simp add: db_ok_def refs_gateway_def refs_upstream_def)

lemma gateway_stored_labels:
  "gateway_stored d g = Some row \<Longrightarrow> gw_Status row \<in> set gateway_status \<and> gw_TlsPolicy row \<in> set tls_policy"
  by (auto simp: gateway_stored_def bind_eq_Some_conv enum_def split: if_splits)

lemma db_ok_insert_gateway: "db_ok d \<Longrightarrow> db_ok (snd (insert_gateway d g))"
  by (auto simp: insert_gateway_def db_ok_def refs_gateway_def refs_upstream_def dest: gateway_stored_labels
      split: option.splits)

lemma db_ok_insert_upstream: "db_ok d \<Longrightarrow> db_ok (snd (insert_upstream d u))"
  by (auto simp: insert_upstream_def db_ok_def refs_gateway_def refs_upstream_def split: option.splits)

lemma db_ok_insert_route: "db_ok d \<Longrightarrow> db_ok (snd (insert_route d r))"
  by (auto simp: insert_route_def db_ok_def refs_gateway_def refs_upstream_def split: option.splits)

lemma db_ok_insert_threat: "db_ok d \<Longrightarrow> db_ok (snd (insert_threat d t))"
  by (auto simp: insert_threat_def db_ok_def refs_gateway_def refs_upstream_def split: option.splits)

lemma db_ok_update_status: "db_ok d \<Longrightarrow> db_ok (snd (update_gateway_status d st i))"
proof -
  assume ok: "db_ok d"
  show ?thesis
  proof (cases "st \<in> set gateway_status")
    case True
    define gs where "gs = map (\<lambda>g. if gw_ID g = i then gateway_with_status st (db_now d) g else g) (gateways d)"
    have keys: "map gw_ID gs = map gw_ID (gateways d)" "map gw_Name gs = map gw_Name (gateways d)"
      by (simp_all add: gs_def gateway_with_status_def)
    have ref: "(\<exists>g \<in> set xs. gw_ID g = j) \<longleftrightarrow> j \<in> set (map gw_ID xs)" for xs j by auto
    have "\<forall>g \<in> set gs. gw_Status g \<in> set gateway_status \<and> gw_TlsPolicy g \<in> set tls_policy"
      using ok True by (auto simp: gs_def gateway_with_status_def db_ok_def)
    with ok show ?thesis
      by (simp add: update_gateway_status_eq [OF True] gs_def [symmetric] db_ok_def refs_gateway_def refs_upstream_def
          ref keys del: set_map)
  qed (use ok in \<open>simp add: update_gateway_status_def enum_def\<close>)
qed

lemma db_ok_update_health: "db_ok d \<Longrightarrow> db_ok (snd (update_upstream_health d b i))"
proof -
  assume ok: "db_ok d"
  define us where "us = map (\<lambda>u. if up_ID u = i then u\<lparr>up_IsHealthy := b, up_UpdatedAt := db_now d\<rparr> else u) (upstreams d)"
  have keys: "map up_ID us = map up_ID (upstreams d)" by (simp add: us_def)
  have ref: "(\<exists>u \<in> set xs. up_ID u = j) \<longleftrightarrow> j \<in> set (map up_ID xs)" for xs j by auto
  show ?thesis
    using ok by (simp add: update_upstream_health_def us_def [symmetric] db_ok_def refs_gateway_def refs_upstream_def
        ref keys del: set_map)
qed

lemma db_ok_delete_route: "db_ok d \<Longrightarrow> db_ok (snd (delete_route d i))"
  by (auto simp: delete_route_def db_ok_def refs_gateway_def refs_upstream_def distinct_map_filter)

lemma db_ok_Exec: "db_ok d \<Longrightarrow> db_ok (snd (db_Exec d sql args))"
  by (auto simp: db_Exec_def with_args_def db_ok_insert_gateway db_ok_insert_upstream db_ok_insert_route
      db_ok_insert_threat db_ok_update_status db_ok_update_health db_ok_delete_route
      split: option.splits list.splits sqlval.splits)

interpretation db_run: run_invariant "\<lambda>(sql, args) d. snd (db_Exec d sql args)" db_ok
  by unfold_locales (auto simp: db_ok_Exec)

definition empty_db :: "(nat \<Rightarrow> Time) \<Rightarrow> int \<Rightarrow> qsgw_db" where
  "empty_db ck z = \<lparr>gateways = [], upstreams = [], routes = [], threat_events = [], db_clock = ck, db_zone = z\<rparr>"

text \<open>
  After any sequence of statements on the empty database, keys and gateway names are unique, no
  gateway has two routes with the same prefix, every route and threat event refers to existing
  rows, and the status and the TLS policy of every gateway are labels of their enums.
\<close>

theorem db_integrity: "db_ok (run_steps (\<lambda>(sql, args) d. snd (db_Exec d sql args)) stmts (empty_db ck z))"
  by (rule db_run.inv_run) (simp add: db_ok_def empty_db_def)

end
