(* ===== verification/Uuid.thy ===== *)
theory Uuid
  imports Http
begin

text \<open>
  The canonical text of a UUID, 32 hexadecimal digits in groups of 8, 4, 4, 4 and 12, and the
  reader of this text: what the program relies on of package \<open>uuid\<close>. The package itself is a
  parameter of the model; these functions show that its contract, the \<open>codec\<close> of the
  interpretation below, can be met.
\<close>

fun hex_digits :: "nat \<Rightarrow> nat \<Rightarrow> string" where
  "hex_digits 0 n = []"
| "hex_digits (Suc k) n = hex_digits k (n div 16) @ [hex_char (n mod 16)]"

fun hex_value :: "nat \<Rightarrow> string \<Rightarrow> nat option" where
  "hex_value n [] = Some n"
| "hex_value n (c # cs) = (case hex_val c of None \<Rightarrow> None | Some d \<Rightarrow> hex_value (16 * n + d) cs)"

definition uuid_text :: "uuid \<Rightarrow> string" where
  "uuid_text u =
     (let h = hex_digits 32 (unat u) in
      Join ''-'' [take 8 h, take 4 (drop 8 h), take 4 (drop 12 h), take 4 (drop 16 h), drop 20 h])"

definition uuid_read :: "string \<Rightarrow> uuid option" where
  "uuid_read s =
     (case Split CHR ''-'' s of
        [a, b, c, d, e] \<Rightarrow>
          if length a = 8 \<and> length b = 4 \<and> length c = 4 \<and> length d = 4 \<and> length e = 12
          then map_option of_nat (hex_value 0 (a @ b @ c @ d @ e)) else None
      | _ \<Rightarrow> None)"

lemma length_hex_digits [simp]: "length (hex_digits k n) = k"
  by (induction k arbitrary: n) auto

lemma hex_value_append: "hex_value n (xs @ ys) = (case hex_value n xs of None \<Rightarrow> None | Some m \<Rightarrow> hex_value m ys)"
  by (induction xs arbitrary: n) (auto split: option.splits)

lemma hex_value_digits: "n < 16 ^ k \<Longrightarrow> hex_value 0 (hex_digits k n) = Some n"
proof (induction k arbitrary: n)
  case (Suc k)
  then have "n div 16 < 16 ^ k" by (simp add: less_mult_imp_div_less mult.commute)
  then show ?case using Suc.IH by (simp add: hex_value_append)
qed simp

lemma hex_digits_bytes: "c \<in> set (hex_digits k n) \<Longrightarrow> \<exists>d < 16. c = hex_char d"
  by (induction k arbitrary: n) (auto intro: exI [of _ "n mod 16" for n])

lemma hex_char_not_dash: "d < 16 \<Longrightarrow> hex_char d \<noteq> CHR ''-''"
  using hex_val_hex_char [of d] by (auto simp: hex_val_def)

lemma hex_char_ascii: "d < 16 \<Longrightarrow> byte_val (hex_char d) < 128"
  by (simp add: hex_char_def byte_val_byte_of)

lemma uuid_read_text: "uuid_read (uuid_text u) = Some u"
proof -
  define h where "h = hex_digits 32 (unat u)"
  let ?ps = "[take 8 h, take 4 (drop 8 h), take 4 (drop 12 h), take 4 (drop 16 h), drop 20 h]"
  have "CHR ''-'' \<notin> set h" unfolding h_def using hex_digits_bytes hex_char_not_dash by fastforce
  then have "\<forall>q \<in> set ?ps. CHR ''-'' \<notin> set q" by (auto dest: in_set_takeD in_set_dropD)
  then have sp: "Split CHR ''-'' (uuid_text u) = ?ps"
    unfolding uuid_text_def Let_def h_def [symmetric] by (intro Split_Join) auto
  have "unat u < 16 ^ 32" using unsigned_less [of u, where 'a = nat] by simp
  then have v: "hex_value 0 h = Some (unat u)" unfolding h_def by (rule hex_value_digits)
  have "take 8 h @ take 4 (drop 8 h) @ take 4 (drop 12 h) @ take 4 (drop 16 h) @ drop 20 h = h"
    using append_take_drop_id [of 8 h] append_take_drop_id [of 4 "drop 8 h"] append_take_drop_id [of 4 "drop 12 h"]
      append_take_drop_id [of 4 "drop 16 h"] by (simp del: append_take_drop_id)
  moreover have "length h = 32" by (simp add: h_def)
  ultimately show ?thesis by (simp add: uuid_read_def sp v)
qed

lemma uuid_text_ascii: "c \<in> set (uuid_text u) \<Longrightarrow> byte_val c < 128"
proof -
  assume "c \<in> set (uuid_text u)"
  then have "c = CHR ''-'' \<or> c \<in> set (hex_digits 32 (unat u))"
    by (auto simp: uuid_text_def Let_def dest: in_set_takeD in_set_dropD)
  then show ?thesis using hex_digits_bytes hex_char_ascii by fastforce
qed

lemma valid_utf8_uuid_text: "valid_utf8 (uuid_text u)"
  by (rule valid_utf8_ascii) (blast intro: uuid_text_ascii)

interpretation uuids: codec uuid_text uuid_read "\<lambda>_. True"
  by unfold_locales (rule uuid_read_text)

end
