(* ===== verification/Api.thy ===== *)
theory Api
  imports Handler Schema Uuid
begin

text \<open>
  The handlers on the database of the migration: what a client sees of its own writes, the state
  machine of a gateway's status, listing, and what every sequence of API calls preserves. The UUID
  package stays a parameter with the contract \<open>codec\<close>: parsing the text of a UUID gives it back.
\<close>

section \<open>Bodies of requests\<close>

text \<open>A create request as \<open>json.Marshal\<close> writes it.\<close>

definition cg_json :: "CreateGatewayRequest \<Rightarrow> json" where
  "cg_json q =
     JObj [(''name'', JStr (cg_Name q)), (''hostname'', JStr (cg_Hostname q)), (''port'', json_int (cg_Port q)),
           (''tls_policy'', JStr (cg_TlsPolicy q)), (''max_connections'', json_int (cg_MaxConnections q)),
           (''created_by'', JStr (cg_CreatedBy q))]"

lemma fold_cg_names [simp]:
  "fold_name ''name'' = ''NAME''" "fold_name ''hostname'' = ''HOSTNAME''" "fold_name ''port'' = ''PORT''"
  "fold_name ''tls_policy'' = ''TLS_POLICY''" "fold_name ''max_connections'' = ''MAX_CONNECTIONS''"
  "fold_name ''created_by'' = ''CREATED_BY''"
  by code_simp+

lemma valid_utf8_cg_names [simp]:
  "valid_utf8 ''name''" "valid_utf8 ''hostname''" "valid_utf8 ''port''" "valid_utf8 ''tls_policy''"
  "valid_utf8 ''max_connections''" "valid_utf8 ''created_by''"
  by (rule valid_utf8_ascii, simp)+

lemma json_decode_encode:
  assumes "wf_json v" "json_depth v \<le> max_nesting"
  shows "json_decode False (json_encode v) = Some v"
  using p_value_encode [OF assms(1), of "[]" 0] skip_ws_solid [OF solid_json_encode [OF assms(1)], of "[]"] assms(2)
  by (simp add: json_decode_def)

lemma decode_body_cg:
  assumes "Body r = json_encode (cg_json q)" "BodyMax r = None"
    and "valid_utf8 (cg_Name q)" "valid_utf8 (cg_Hostname q)" "valid_utf8 (cg_TlsPolicy q)" "valid_utf8 (cg_CreatedBy q)"
    and "in_int64 (cg_Port q)" "in_int64 (cg_MaxConnections q)"
  shows "decode_body cg_fields r cg_zero = Some q"
proof -
  have "wf_json (cg_json q)" "json_depth (cg_json q) \<le> max_nesting"
    using assms by (simp_all add: cg_json_def max_nesting_def)
  then have "json_decode False (Body r) = Some (cg_json q)" unfolding assms(1) by (rule json_decode_encode)
  then show ?thesis
    using assms(2-) by (simp add: decode_body_def body_view_def decode_struct_def cg_json_def cg_fields_def cg_zero_def)
qed

section \<open>Reading one's writes\<close>

lemma actor_nonempty: "actorFromRequest r \<noteq> []"
  by (simp add: actorFromRequest_def Let_def)

text \<open>
  C11. After a create request was answered with 201, a GET for the new identifier is answered with
  200 and the gateway that was created: the same name, hostname, port, status, TLS policy and
  limit, and the same creation time down to microseconds. (The creator, which the answer does not show,
  has at most 255 bytes.)
\<close>

theorem gateway_create_get:
  assumes "codec us up (\<lambda>_. True)" "rw_sent w = None"
    and "GatewayHandler_Create (qsgw_pkgs us up) r (s, w) = (s', w')" "rw_status w' = Some 201"
    and "decode_body cg_fields r cg_zero = Some req"
    and "length (gw_CreatedBy (gateway_for r req (new_uuids s 0) (clock s 0))) \<le> 255"
    and "URLParam r2 ''id'' = us (new_uuids s 0)" "app_db s2 = app_db s'"
  shows "\<exists>g. gateway_kept (gateway_for r req (new_uuids s 0) (clock s 0)) g \<and>
    GatewayHandler_Get (qsgw_pkgs us up) r2 (s2, w2) =
      (s2, writeJSON 200 (GatewayResponse_json us (Gateway_ToResponse g)) w2)"
proof -
  let ?pk = "qsgw_pkgs us up" and ?g = "gateway_for r req (new_uuids s 0) (clock s 0)"
  have ok: "gateway_request_ok req"
    using assms(2-5) by (auto simp: GatewayHandler_Create_cases writeError_eq split: if_splits)
  obtain res d where x: "insert_gateway (app_db s) ?g = (res, d)" by fastforce
  have "\<exists>n. res = Inr n" "app_db s' = d"
    using assms(2-5) ok x by (auto simp: GatewayHandler_Create_cases writeError_eq Let_def split: sum.splits)
  then have "GatewayRepository_Create ?pk ?g s = (None, s\<lparr>app_db := d\<rparr>)"
    using x GatewayRepository_Create_None by blast
  moreover have "gateway_fits ?g"
    using ok assms(6) by (simp add: gateway_fits_def gateway_request_ok_def gateway_for_def)
  ultimately obtain g where g: "GatewayRepository_GetByID ?pk (gw_ID ?g) (s\<lparr>app_db := d\<rparr>) = Inr g" "gateway_kept ?g g"
    using gw_store.create_get by blast
  have "gateway_view s2 = gateway_view (s\<lparr>app_db := d\<rparr>)"
    using assms(8) \<open>app_db s' = d\<close> by (simp add: gateway_view_def [abs_def])
  then have "GatewayRepository_GetByID ?pk (new_uuids s 0) s2 = Inr g"
    using g(1) by (simp add: gw_store.get_view gateway_for_def)
  moreover have "up (us (new_uuids s 0)) = Some (new_uuids s 0)"
    using codec.decode_encode [OF assms(1)] by simp
  ultimately show ?thesis
    using g(2) assms(7) by (auto simp: GatewayHandler_Get_def GatewayService_Get_def)
qed

section \<open>The status of a gateway\<close>

definition status_answer :: "string \<Rightarrow> rw \<Rightarrow> rw" where
  "status_answer msg w = writeJSON 200 (JObj [(''status'', JStr msg)]) w"

lemma set_status_handlers:
  "GatewayHandler_Activate pk r (s, w) =
     (case uuid_Parse pk (URLParam r ''id'') of
        None \<Rightarrow> (s, writeError 400 ''invalid gateway ID'' w)
      | Some i \<Rightarrow> (case GatewayRepository_UpdateStatus pk i ''ACTIVE'' s of
          (Some _, s') \<Rightarrow> (s', writeError 500 ''failed to activate gateway'' w)
        | (None, s') \<Rightarrow> (s', status_answer ''activated'' w)))"
  "GatewayHandler_Deactivate pk r (s, w) =
     (case uuid_Parse pk (URLParam r ''id'') of
        None \<Rightarrow> (s, writeError 400 ''invalid gateway ID'' w)
      | Some i \<Rightarrow> (case GatewayRepository_UpdateStatus pk i ''INACTIVE'' s of
          (Some _, s') \<Rightarrow> (s', writeError 500 ''failed to deactivate gateway'' w)
        | (None, s') \<Rightarrow> (s', status_answer ''deactivated'' w)))"
  unfolding GatewayHandler_Activate_def GatewayHandler_Deactivate_def GatewayService_Activate_def
    GatewayService_Deactivate_def status_answer_def by simp_all

lemma labels [simp]: "''ACTIVE'' \<in> set gateway_status" "''INACTIVE'' \<in> set gateway_status"
  by (simp_all add: gateway_status_def)

text \<open>
  C26. Activating or deactivating an existing gateway is answered with 200 and changes its status,
  whatever it was before, and its update time; no other gateway changes. For an identifier that is
  not in the table the answer is 500 and nothing changes.
\<close>

theorem gateway_set_status:
  assumes "codec us up (\<lambda>_. True)" "URLParam r ''id'' = us i"
  shows "case gateway_view s i of
      Some g \<Rightarrow>
        (\<exists>s' t. GatewayHandler_Activate (qsgw_pkgs us up) r (s, w) = (s', status_answer ''activated'' w)
           \<and> gateway_view s' = (gateway_view s)(i \<mapsto> gateway_with_status ''ACTIVE'' t g)) \<and>
        (\<exists>s' t. GatewayHandler_Deactivate (qsgw_pkgs us up) r (s, w) = (s', status_answer ''deactivated'' w)
           \<and> gateway_view s' = (gateway_view s)(i \<mapsto> gateway_with_status ''INACTIVE'' t g))
    | None \<Rightarrow>
        (\<exists>s'. GatewayHandler_Activate (qsgw_pkgs us up) r (s, w) = (s', writeError 500 ''failed to activate gateway'' w)
           \<and> gateway_view s' = gateway_view s) \<and>
        (\<exists>s'. GatewayHandler_Deactivate (qsgw_pkgs us up) r (s, w) = (s', writeError 500 ''failed to deactivate gateway'' w)
           \<and> gateway_view s' = gateway_view s)"
proof -
  have i: "up (us i) = Some i" using codec.decode_encode [OF assms(1)] by simp
  show ?thesis
  proof (cases "gateway_view s i")
    case None
    show ?thesis
      using gw_status.set_status_missing [OF None, of us up "''ACTIVE''"]
        gw_status.set_status_missing [OF None, of us up "''INACTIVE''"] None i assms(2)
      by (auto simp: set_status_handlers)
  next
    case (Some g)
    show ?thesis
      using gw_status.set_status_found [OF labels(1) Some, of us up]
        gw_status.set_status_found [OF labels(2) Some, of us up] Some i assms(2)
      by (auto simp: set_status_handlers)
  qed
qed

section \<open>A database to try\<close>

definition demo_app :: "qsgw_db app" where
  "demo_app = \<lparr>clock = (\<lambda>i. at_sec (int i)), new_uuids = of_nat, limiter = NewRateLimiter DefaultRateLimitConfig,
     app_db = empty_db (\<lambda>i. at_sec (int i)) 0\<rparr>"

definition demo_cg :: CreateGatewayRequest where
  "demo_cg = \<lparr>cg_Name = ''edge'', cg_Hostname = ''edge.example'', cg_Port = 0, cg_TlsPolicy = [], cg_MaxConnections = 0,
     cg_CreatedBy = []\<rparr>"

definition demo_post :: request where
  "demo_post = demo_request\<lparr>Method := ''POST'', Body := json_encode (cg_json demo_cg)\<rparr>"

definition demo_get :: request where
  "demo_get = demo_request\<lparr>URLParams := [''id'' \<mapsto> uuid_text 0]\<rparr>"

lemma demo_ascii [simp]: "valid_utf8 ''edge''" "valid_utf8 ''edge.example''" "valid_utf8 ''system''"
  by (rule valid_utf8_ascii, simp)+

lemma demo_decode: "decode_body cg_fields demo_post cg_zero = Some demo_cg"
  by (rule decode_body_cg) (simp_all add: demo_post_def demo_request_def demo_cg_def in_int64_def go_int)

definition demo_gateway :: Gateway where
  "demo_gateway = \<lparr>gw_ID = 0, gw_Name = ''edge'', gw_Hostname = ''edge.example'', gw_Port = 443, gw_Status = ''INACTIVE'',
     gw_TlsPolicy = ''PQC_PREFERRED'', gw_MaxConnections = 10000, gw_CreatedBy = ''system'',
     gw_CreatedAt = at_sec 0, gw_UpdatedAt = Time_zero\<rparr>"

lemma demo_gateway_for: "gateway_for demo_post demo_cg (new_uuids demo_app 0) (clock demo_app 0) = demo_gateway"
  by (simp add: gateway_for_def demo_cg_def demo_app_def demo_gateway_def at_sec_def Time_UTC_def actorFromRequest_def
      SubjectFromContext_def ctx_string_def demo_post_def demo_request_def)

lemma demo_insert: "\<exists>d. insert_gateway (app_db demo_app) demo_gateway = (Inr 1, d)"
  by (simp add: insert_gateway_def gateway_stored_def demo_gateway_def varchar_def pg_text_def utf8_chars_def int4_def
      enum_def gateway_status_def tls_policy_def demo_app_def empty_db_def)

lemma demo_post_created: "rw_status (snd (GatewayHandler_Create (qsgw_pkgs us up) demo_post (demo_app, rw_new))) = Some 201"
proof -
  obtain d where d: "insert_gateway (app_db demo_app) demo_gateway = (Inr 1, d)" using demo_insert by blast
  have "gateway_request_ok demo_cg" by (simp add: gateway_request_ok_def demo_cg_def)
  then show ?thesis
    using d by (simp add: GatewayHandler_Create_cases demo_decode demo_gateway_for Let_def)
qed

theorem gateway_create_get_witness:
  "\<exists>g. gateway_kept demo_gateway g \<and>
    GatewayHandler_Get (qsgw_pkgs uuid_text uuid_read) demo_get
      (fst (GatewayHandler_Create (qsgw_pkgs uuid_text uuid_read) demo_post (demo_app, rw_new)), rw_new) =
      (fst (GatewayHandler_Create (qsgw_pkgs uuid_text uuid_read) demo_post (demo_app, rw_new)),
       writeJSON 200 (GatewayResponse_json uuid_text (Gateway_ToResponse g)) rw_new)"
proof -
  obtain s' w' where c: "GatewayHandler_Create (qsgw_pkgs uuid_text uuid_read) demo_post (demo_app, rw_new) = (s', w')"
    by fastforce
  then have st: "rw_status w' = Some 201" using demo_post_created [of uuid_text uuid_read] by simp
  have "length (gw_CreatedBy demo_gateway) \<le> 255" by (simp add: demo_gateway_def)
  moreover have "URLParam demo_get ''id'' = uuid_text (new_uuids demo_app 0)"
    by (simp add: URLParam_def demo_get_def demo_app_def)
  ultimately show ?thesis
    using gateway_create_get [OF uuids.codec_axioms _ c st demo_decode, of demo_get s' rw_new]
    by (simp add: demo_gateway_for c)
qed

theorem gateway_set_status_witness:
  "\<exists>s'. GatewayHandler_Activate (qsgw_pkgs uuid_text uuid_read) demo_get (demo_app, rw_new) =
      (s', writeError 500 ''failed to activate gateway'' rw_new)"
proof -
  have "gateway_view demo_app 0 = None" by (simp add: gateway_view_def demo_app_def empty_db_def)
  moreover have "URLParam demo_get ''id'' = uuid_text 0" by (simp add: URLParam_def demo_get_def)
  ultimately show ?thesis
    using gateway_set_status [OF uuids.codec_axioms, of demo_get 0 demo_app rw_new] by auto
qed

theorem GatewayHandler_Create_effect_witness:
  "\<exists>res. pgx_Exec (qsgw_pkgs uuid_text uuid_read) (app_db demo_app) sql_gateway_insert (gateway_args demo_gateway) =
     (res, app_db (fst (GatewayHandler_Create (qsgw_pkgs uuid_text uuid_read) demo_post (demo_app, rw_new))))"
proof -
  obtain s' w' where c: "GatewayHandler_Create (qsgw_pkgs uuid_text uuid_read) demo_post (demo_app, rw_new) = (s', w')"
    by fastforce
  have "rw_status w' \<noteq> Some 400" using demo_post_created [of uuid_text uuid_read] c by simp
  then show ?thesis
    using GatewayHandler_Create_effect [OF _ c] by (auto simp: demo_decode demo_gateway_for c Let_def)
qed

text \<open>
  A second gateway with the name of an existing one is refused by the unique constraint: the
  answer is 500 and the table of gateways stays as it is.
\<close>

theorem gateway_duplicate_name:
  assumes "rw_sent w = None" "decode_body cg_fields r cg_zero = Some req" "gateway_request_ok req"
    and "g \<in> set (gateways (app_db s))" "gw_Name g = cg_Name req"
  shows "\<exists>s'. GatewayHandler_Create (qsgw_pkgs us up) r (s, w) = (s', writeError 500 ''failed to create gateway'' w)
    \<and> gateways (app_db s') = gateways (app_db s)"
proof -
  let ?g = "gateway_for r req (new_uuids s 0) (clock s 0)"
  have "gw_Name row = cg_Name req" if "gateway_stored (app_db s) ?g = Some row" for row
    using that assms(3) by (auto simp: gateway_stored_def bind_eq_Some_conv gateway_for_def gateway_request_ok_def
        dest!: varchar_id)
  then have "\<exists>e. insert_gateway (app_db s) ?g = (Inl e, tick_db (app_db s))"
    using assms(4,5) by (auto simp: insert_gateway_def split: option.splits)
  then show ?thesis using assms(2,3) by (auto simp: GatewayHandler_Create_cases Let_def)
qed

definition edge_app :: "qsgw_db app" where
  "edge_app = demo_app\<lparr>app_db := (app_db demo_app)\<lparr>gateways := [demo_gateway]\<rparr>\<rparr>"

theorem gateway_duplicate_name_witness:
  "\<exists>s'. GatewayHandler_Create (qsgw_pkgs uuid_text uuid_read) demo_post (edge_app, rw_new) =
      (s', writeError 500 ''failed to create gateway'' rw_new)"
  using gateway_duplicate_name [OF _ demo_decode, of rw_new demo_gateway edge_app uuid_text uuid_read]
  by (auto simp: gateway_request_ok_def demo_cg_def edge_app_def demo_gateway_def)

section \<open>Listing\<close>

lemma scan_rows_map: "(\<And>x. scan (f x) = Some x) \<Longrightarrow> scan_rows scan (map f xs) = Some xs"
  by (induction xs) auto

lemma db_Query_lists [simp]:
  "db_Query d sql_gateway_list [SqlInt off, SqlInt lm] = page_rows gateway_row (page gw_CreatedAt off lm (gateways d))"
  "db_Query d sql_upstream_list [SqlInt off, SqlInt lm] = page_rows upstream_row (page up_CreatedAt off lm (upstreams d))"
  "db_Query d sql_route_list [SqlUuid g] =
     Inr (map route_row (sort_key (\<lambda>r. - rt_Priority r) (filter (\<lambda>r. rt_GatewayID r = g) (routes d))), None)"
  by (simp_all add: db_Query_def)

lemma query_rows_page:
  assumes "db_Query (app_db s) sql args = page_rows f p" "\<And>x. scan (f x) = Some x"
  shows "query_rows (qsgw_pkgs us up) scan m1 m2 sql args s = (case p of Inl e \<Rightarrow> Inl (Wrapped m1 e) | Inr xs \<Rightarrow> Inr xs)"
  using assms by (simp add: query_rows_def page_rows_def scan_rows_map split: sum.splits)

lemma query_rows_upstreams:
  "query_rows (qsgw_pkgs us up) scan_upstream m1 m2 sql_upstream_list [SqlInt off, SqlInt li] s =
     (case page up_CreatedAt off li (upstreams (app_db s)) of
        Inl e \<Rightarrow> Inl (Wrapped m1 e)
      | Inr xs \<Rightarrow> if list_all (\<lambda>x. \<not> up_path_null x) xs then Inr (map Upstream.truncate xs) else Inl (Wrapped m2 ScanError))"
proof -
  have "scan_rows scan_upstream (map upstream_row xs) =
      (if list_all (\<lambda>x. \<not> up_path_null x) xs then Some (map Upstream.truncate xs) else None)" for xs
    by (induction xs) auto
  then show ?thesis by (simp add: query_rows_def page_rows_def split: sum.splits)
qed

lemma concat_pages: "concat (map (\<lambda>k. take l (drop (k * l) xs)) [0..<m]) = take (m * l) xs"
proof (induction m)
  case (Suc m)
  have "Suc m * l = m * l + l" by simp
  then show ?case using Suc by (simp only: take_add) simp
qed simp

definition gateways_by_time :: "qsgw_db \<Rightarrow> Gateway list" where
  "gateways_by_time d = sort_key (\<lambda>g. - ns (gw_CreatedAt g)) (gateways d)"

lemma GatewayService_List_qsgw:
  assumes "0 \<le> off" "1 \<le> li" "li \<le> 100"
  shows "GatewayService_List (qsgw_pkgs us up) off li s =
    Inr (take (nat li) (drop (nat off) (gateways_by_time (app_db s))), int (length (gateways (app_db s))))"
  using assms
  by (simp add: GatewayService_List_def GatewayRepository_List_def query_scan_def scan_count_def as_int_def
      query_rows_page page_def gateways_by_time_def)

text \<open>
  Paging through gateways that were all created at different times, with one limit, shows every
  gateway exactly once, the newest first: the pages put together are the one order of the table by
  descending creation time, and every page reports the size of the table as the total. Gateways of equal
  creation time have no fixed order in the statement, and pages of different orders need not fit together.
\<close>

theorem gateway_pages_cover:
  assumes "1 \<le> li" "li \<le> 100" "length (gateways (app_db s)) \<le> m * nat li"
    and "distinct (map (\<lambda>g. ns (gw_CreatedAt g)) (gateways (app_db s)))"
    and "set ys = set (gateways (app_db s))" "sorted_wrt (\<lambda>a b. ns (gw_CreatedAt a) > ns (gw_CreatedAt b)) ys"
  shows "concat (map (\<lambda>k. case GatewayService_List (qsgw_pkgs us up) (int k * li) li s of
                           Inr (gs, n) \<Rightarrow> gs | Inl _ \<Rightarrow> []) [0..<m])
         = ys
    \<and> (\<forall>k. \<exists>gs. GatewayService_List (qsgw_pkgs us up) (int k * li) li s = Inr (gs, int (length (gateways (app_db s)))))"
proof -
  let ?xs = "gateways_by_time (app_db s)" and ?l = "nat li"
  have k: "nat (int k * li) = k * ?l" for k using assms(1) by (simp add: nat_mult_distrib)
  have L: "GatewayService_List (qsgw_pkgs us up) (int k * li) li s =
      Inr (take ?l (drop (k * ?l) ?xs), int (length (gateways (app_db s))))" for k
    using GatewayService_List_qsgw [of "int k * li" li us up s] assms(1,2) by (simp add: k)
  have "concat (map (\<lambda>k. take ?l (drop (k * ?l) ?xs)) [0..<m]) = take (m * ?l) ?xs" by (rule concat_pages)
  moreover have "length ?xs \<le> m * ?l" using assms(3) by (simp add: gateways_by_time_def)
  moreover have "?xs = ys"
  proof -
    let ?f = "\<lambda>g. - ns (gw_CreatedAt g)"
    have inj: "inj_on ?f (set (gateways (app_db s)))" "distinct (gateways (app_db s))"
      using assms(4) by (auto simp: distinct_map inj_on_def)
    have "sorted_wrt (<) (map ?f ys)" using assms(6) by (simp add: sorted_wrt_map)
    moreover have "distinct (map ?f ?xs)" using inj by (simp add: distinct_map gateways_by_time_def)
    moreover have "set (map ?f ?xs) = set (map ?f ys)" using assms(5) by (simp add: gateways_by_time_def)
    ultimately have "map ?f ?xs = map ?f ys"
      by (intro sorted_distinct_set_unique) (auto simp: strict_sorted_iff gateways_by_time_def)
    then show ?thesis using inj(1) assms(5) by (intro map_inj_on [of ?f]) (simp_all add: gateways_by_time_def)
  qed
  ultimately show ?thesis by (simp add: L)
qed

theorem gateway_pages_cover_witness:
  "concat (map (\<lambda>k. case GatewayService_List (qsgw_pkgs uuid_text uuid_read) (int k * 20) 20 edge_app of
                      Inr (gs, n) \<Rightarrow> gs | Inl _ \<Rightarrow> []) [0..<1]) = [demo_gateway]"
  using gateway_pages_cover [of 20 edge_app 1 "[demo_gateway]" uuid_text uuid_read] by (simp add: edge_app_def)

text \<open>
  The list of upstreams hands the offset of the query string to the database without a check: a
  negative one makes the statement fail and is answered with 500, where the list of gateways
  answers the same query with its first page.
\<close>

theorem upstream_negative_offset:
  assumes "RawQuery r = ''offset='' @ Itoa n @ ''&limit='' @ Itoa m" "in_int64 n" "in_int64 m" "n < 0"
  shows "UpstreamHandler_List (qsgw_pkgs us up) r (s, w) = (s, writeError 500 ''failed to list upstreams'' w)
    \<and> (\<exists>v. GatewayHandler_List (qsgw_pkgs us up) r (s, w) = (s, writeJSON 200 v w))"
proof -
  note q = URL_Query_offset_limit [OF assms(1)]
  have "fst (Atoi (Query_Get (URL_Query r) ''offset'')) = n"
    using assms(2) by (simp add: q Query_Get_def Atoi_Itoa)
  then have up: "UpstreamHandler_List (qsgw_pkgs us up) r (s, w) = (s, writeError 500 ''failed to list upstreams'' w)"
    using assms(4) by (simp add: UpstreamHandler_List_def UpstreamService_List_def UpstreamRepository_List_def
        query_scan_def scan_count_def as_int_def query_rows_upstreams page_def Let_def)
  let ?p = "ParsePagination r"
  have "0 \<le> pg_Offset ?p" "1 \<le> pg_Limit ?p" "pg_Limit ?p \<le> 100"
    using page_offset_bounds page_limit_bounds by (simp_all add: ParsePagination_def)
  then have "\<exists>v. GatewayHandler_List (qsgw_pkgs us up) r (s, w) = (s, writeJSON 200 v w)"
    by (simp add: GatewayHandler_List_def GatewayService_List_qsgw Let_def) blast
  with up show ?thesis ..
qed

theorem upstream_negative_offset_witness:
  "UpstreamHandler_List (qsgw_pkgs uuid_text uuid_read) page_request (demo_app, rw_new) =
     (demo_app, writeError 500 ''failed to list upstreams'' rw_new)"
proof -
  have "Itoa (-3) = ''-3''" "Itoa 250 = ''250''" by code_simp+
  then show ?thesis
    using upstream_negative_offset [of page_request "-3" 250 uuid_text uuid_read demo_app rw_new]
    by (simp add: page_request_def in_int64_def go_int)
qed

section \<open>Routes\<close>

lemma RouteService_ListByGateway_qsgw:
  "RouteService_ListByGateway (qsgw_pkgs us up) g s =
     Inr (sort_key (\<lambda>r. - rt_Priority r) (filter (\<lambda>r. rt_GatewayID r = g) (routes (app_db s))))"
  by (simp add: RouteService_ListByGateway_def RouteRepository_ListByGateway_def query_rows_def scan_rows_map)

lemma RouteService_Create_Inr:
  assumes "RouteService_Create (qsgw_pkgs us up) req s = (Inr rt, s')"
  shows "\<exists>n. insert_route (app_db s) rt = (Inr n, app_db s')"
proof -
  obtain g u where gu: "up (cr_GatewayID req) = Some g" "up (cr_UpstreamID req) = Some u"
    using assms by (auto simp: RouteService_Create_def split: option.splits)
  let ?rt = "new_route req g u (new_uuids s 0) (clock s 0)" and ?s = "snd (time_Now (snd (uuid_New s)))"
  obtain err s3 where c: "RouteRepository_Create (qsgw_pkgs us up) ?rt ?s = (err, s3)" by fastforce
  then have "err = None" "rt = ?rt" "s' = s3"
    using assms gu by (auto simp: RouteService_Create_def Let_def split_def split: option.splits)
  then show ?thesis using c by (auto simp: RouteRepository_Create_None)
qed

text \<open>
  C27. A created route, its prefix of at most 1024 bytes, appears in the list of its gateway, which holds exactly that gateway's routes in
  descending order of priority, and deleting it restores the routes as they were before.
\<close>

theorem route_create_list_delete:
  assumes "RouteService_Create (qsgw_pkgs us up) req s = (Inr rt, s1)" "route_fits rt"
  shows "\<exists>row xs s2. route_kept rt row \<and>
    RouteService_ListByGateway (qsgw_pkgs us up) (rt_GatewayID rt) s1 = Inr xs \<and> row \<in> set xs \<and>
    set xs = {r \<in> set (routes (app_db s1)). rt_GatewayID r = rt_GatewayID rt} \<and>
    sorted_wrt (\<lambda>a b. rt_Priority a \<ge> rt_Priority b) xs \<and>
    RouteService_Delete (qsgw_pkgs us up) (rt_ID rt) s1 = (None, s2) \<and> routes (app_db s2) = routes (app_db s)"
proof -
  obtain n where "insert_route (app_db s) rt = (Inr n, app_db s1)" using RouteService_Create_Inr [OF assms(1)] by blast
  then obtain row where row: "route_stored (app_db s) rt = Some row"
      "\<forall>x \<in> set (routes (app_db s)). rt_ID x \<noteq> rt_ID row"
      "routes (app_db s1) = routes (app_db s) @ [row]"
    unfolding insert_route_Inr by fastforce
  have kept: "route_kept rt row" using route_stored_kept [OF row(1) assms(2)] .
  then have ids: "rt_ID row = rt_ID rt" "rt_GatewayID row = rt_GatewayID rt"
    by (simp_all add: route_kept_def) (metis Route.select_convs Route.update_convs Route.surjective)+
  let ?xs = "sort_key (\<lambda>r. - rt_Priority r) (filter (\<lambda>r. rt_GatewayID r = rt_GatewayID rt) (routes (app_db s1)))"
  have "sorted (map (\<lambda>r. - rt_Priority r) ?xs)" by (rule sorted_sort_key)
  then have "sorted_wrt (\<lambda>a b. rt_Priority a \<ge> rt_Priority b) ?xs" by (simp add: sorted_map)
  moreover have "\<exists>s2. RouteService_Delete (qsgw_pkgs us up) (rt_ID rt) s1 = (None, s2) \<and> routes (app_db s2) = routes (app_db s)"
    using row(2,3) ids(1)
    by (simp add: RouteService_Delete_def RouteRepository_Delete_def app_db_pool_Exec delete_route_def)
  ultimately show ?thesis
    using kept ids row(3) by (intro exI [of _ row] exI [of _ ?xs]) (auto simp: RouteService_ListByGateway_qsgw)
qed

definition demo_upstream :: Upstream where
  "demo_upstream = \<lparr>up_ID = 1, up_Name = ''api'', up_Host = ''api.internal'', up_Port = 8443, up_Protocol = ''HTTPS'',
     up_TlsVerify = True, up_HealthCheckPath = ''/health'', up_HealthCheckIntervalS = 30, up_IsHealthy = True,
     up_CreatedAt = at_sec 0, up_UpdatedAt = at_sec 0\<rparr>"

definition route_app :: "qsgw_db app" where
  "route_app = demo_app\<lparr>app_db := (app_db demo_app)\<lparr>gateways := [demo_gateway], upstreams := [up_tuple False demo_upstream]\<rparr>\<rparr>"

definition demo_cr :: CreateRouteRequest where
  "demo_cr = \<lparr>cr_GatewayID = uuid_text 0, cr_UpstreamID = uuid_text 1, cr_PathPrefix = ''/v1'', cr_StripPrefix = False,
     cr_Priority = 10, cr_TlsPolicy = [], cr_RateLimitRPS = 5\<rparr>"

lemma demo_route_created:
  "\<exists>rt s1. RouteService_Create (qsgw_pkgs uuid_text uuid_read) demo_cr route_app = (Inr rt, s1) \<and> route_fits rt
     \<and> rt_GatewayID rt = 0"
proof -
  have "uuid_read (uuid_text u) = Some u" for u using uuids.decode_encode by simp
  moreover have "valid_utf8 ''/v1''" by (rule valid_utf8_ascii) simp
  ultimately show ?thesis
    by (simp add: RouteService_Create_def demo_cr_def new_route_def RouteRepository_Create_def app_db_pool_Exec
        insert_route_def route_stored_def varchar_def pg_text_def utf8_chars_def int4_def nullable_def route_app_def
        demo_app_def empty_db_def demo_gateway_def demo_upstream_def Let_def split_def route_fits_def)
qed

theorem route_create_list_delete_witness:
  "\<exists>rt s1 row xs. RouteService_Create (qsgw_pkgs uuid_text uuid_read) demo_cr route_app = (Inr rt, s1) \<and>
     route_kept rt row \<and> RouteService_ListByGateway (qsgw_pkgs uuid_text uuid_read) 0 s1 = Inr xs \<and> row \<in> set xs"
proof -
  obtain rt s1 where c: "RouteService_Create (qsgw_pkgs uuid_text uuid_read) demo_cr route_app = (Inr rt, s1)"
    "route_fits rt" "rt_GatewayID rt = 0" using demo_route_created by blast
  show ?thesis using route_create_list_delete [OF c(1,2)] c(1,3) by auto
qed

section \<open>What every sequence of calls preserves\<close>

definition api_handlers :: "'d pkgs \<Rightarrow> ('d, 'a) app_scheme handler list" where
  "api_handlers pk =
     [GatewayHandler_Create pk, GatewayHandler_List pk, GatewayHandler_Get pk, GatewayHandler_Activate pk,
      GatewayHandler_Deactivate pk, UpstreamHandler_Create pk, UpstreamHandler_List pk, UpstreamHandler_Get pk,
      RouteHandler_Create pk, RouteHandler_List pk, RouteHandler_Delete pk, ThreatHandler_List pk, HealthHandler_Check]"

inductive api_reachable :: "(uuid \<Rightarrow> string) \<Rightarrow> (string \<Rightarrow> uuid option) \<Rightarrow> qsgw_db app \<Rightarrow> bool" for us up where
  start: "app_db s = empty_db ck z \<Longrightarrow> api_reachable us up s"
| call: "api_reachable us up s \<Longrightarrow> h \<in> set (api_handlers (qsgw_pkgs us up)) \<Longrightarrow>
     api_reachable us up (fst (h r (s, w)))"

text \<open>The ways a call changes the database.\<close>

inductive db_change :: "qsgw_db \<Rightarrow> qsgw_db \<Rightarrow> bool" where
  same: "db_change d d"
| new_upstream: "db_change d (snd (insert_upstream d u))"
| new_route: "db_change d (snd (insert_route d rt))"
| del_route: "db_change d (snd (delete_route d i))"
| status: "st \<in> {''ACTIVE'', ''INACTIVE''} \<Longrightarrow> db_change d (snd (update_gateway_status d st i))"
| new_gateway: "gateway_request_ok req \<Longrightarrow> db_change d (snd (insert_gateway d (gateway_for r req i now)))"

lemma app_db_UpdateStatus:
  "app_db (snd (GatewayRepository_UpdateStatus (qsgw_pkgs us up) i st s)) = snd (update_gateway_status (app_db s) st i)"
  by (simp add: UpdateStatus_qsgw split: prod.splits sum.splits)

lemma status_change:
  "db_change (app_db s) (app_db (fst (GatewayHandler_Activate (qsgw_pkgs us up) r (s, w))))"
  "db_change (app_db s) (app_db (fst (GatewayHandler_Deactivate (qsgw_pkgs us up) r (s, w))))"
proof -
  have st: "db_change (app_db s) (app_db s')"
    if "GatewayRepository_UpdateStatus (qsgw_pkgs us up) i st s = (e, s')" "st \<in> {''ACTIVE'', ''INACTIVE''}" for i st e s'
    using that app_db_UpdateStatus [of us up i st s] db_change.status [OF that(2), of "app_db s" i] by simp
  show "db_change (app_db s) (app_db (fst (GatewayHandler_Activate (qsgw_pkgs us up) r (s, w))))"
    "db_change (app_db s) (app_db (fst (GatewayHandler_Deactivate (qsgw_pkgs us up) r (s, w))))"
    using st by (auto simp: set_status_handlers same split: option.splits prod.splits)
qed

lemma create_change:
  "db_change (app_db s) (app_db (fst (GatewayHandler_Create (qsgw_pkgs us up) r (s, w))))"
  "db_change (app_db s) (app_db (fst (UpstreamHandler_Create (qsgw_pkgs us up) r (s, w))))"
  "db_change (app_db s) (app_db (fst (RouteHandler_Create (qsgw_pkgs us up) r (s, w))))"
  "db_change (app_db s) (app_db (fst (RouteHandler_Delete (qsgw_pkgs us up) r (s, w))))"
proof -
  show "db_change (app_db s) (app_db (fst (GatewayHandler_Create (qsgw_pkgs us up) r (s, w))))"
    by (simp add: GatewayHandler_Create_cases Let_def split_def same new_gateway split: option.splits)
  show "db_change (app_db s) (app_db (fst (UpstreamHandler_Create (qsgw_pkgs us up) r (s, w))))"
    by (simp add: UpstreamHandler_Create_def UpstreamService_Create_def UpstreamRepository_Create_def app_db_pool_Exec
        Let_def split_def same new_upstream split: option.splits sum.splits)
  show "db_change (app_db s) (app_db (fst (RouteHandler_Create (qsgw_pkgs us up) r (s, w))))"
    by (simp add: RouteHandler_Create_def RouteService_Create_def RouteRepository_Create_def app_db_pool_Exec
        Let_def split_def same new_route split: option.splits sum.splits)
  show "db_change (app_db s) (app_db (fst (RouteHandler_Delete (qsgw_pkgs us up) r (s, w))))"
    by (simp add: RouteHandler_Delete_def RouteService_Delete_def RouteRepository_Delete_def app_db_pool_Exec
        Let_def split_def same del_route split: option.splits sum.splits)
qed

lemma read_only:
  "fst (GatewayHandler_Get pk r (s, w)) = s" "fst (GatewayHandler_List pk r (s, w)) = s"
  "fst (UpstreamHandler_Get pk r (s, w)) = s" "fst (UpstreamHandler_List pk r (s, w)) = s"
  "fst (RouteHandler_List pk r (s, w)) = s" "fst (ThreatHandler_List pk r (s, w)) = s"
  "fst (HealthHandler_Check r (s, w)) = s"
  by (simp_all add: GatewayHandler_Get_def GatewayHandler_List_def UpstreamHandler_Get_def UpstreamHandler_List_def
      RouteHandler_List_def ThreatHandler_List_def HealthHandler_Check_def Let_def
      split: option.splits sum.splits prod.splits)

lemma api_change:
  "h \<in> set (api_handlers (qsgw_pkgs us up)) \<Longrightarrow> db_change (app_db s) (app_db (fst (h r (s, w))))"
  unfolding api_handlers_def by (auto simp: read_only same status_change create_change)

text \<open>Every gateway in the table is one that a valid request asked for, in one of two states.\<close>

definition gateways_ok :: "qsgw_db \<Rightarrow> bool" where
  "gateways_ok d \<longleftrightarrow> (\<forall>g \<in> set (gateways d). gw_Status g \<in> {''ACTIVE'', ''INACTIVE''} \<and> gw_Port g \<noteq> 0
     \<and> gw_Name g \<noteq> [] \<and> length (gw_Name g) \<le> 255 \<and> gw_Hostname g \<noteq> [] \<and> length (gw_Hostname g) \<le> 255)"

lemma gateways_ok_insert:
  assumes "gateways_ok d" "gateway_request_ok req"
  shows "gateways_ok (snd (insert_gateway d (gateway_for r req i now)))"
proof -
  have "gw_Status row = ''INACTIVE'' \<and> gw_Port row \<noteq> 0 \<and> gw_Name row = cg_Name req \<and> gw_Hostname row = cg_Hostname req"
    if "gateway_stored d (gateway_for r req i now) = Some row" for row
    using that assms(2) by (auto simp: gateway_stored_def bind_eq_Some_conv gateway_for_def gateway_request_ok_def
        dest!: varchar_id int4_id enum_id split: if_splits)
  with assms show ?thesis
    by (auto simp: gateways_ok_def insert_gateway_def gateway_request_ok_def split: option.splits)
qed

lemma gateways_untouched [simp]:
  "gateways (snd (insert_upstream d u)) = gateways d" "gateways (snd (insert_route d rt)) = gateways d"
  "gateways (snd (delete_route d i)) = gateways d"
  by (simp_all add: insert_upstream_def insert_route_def delete_route_def split: option.splits)

lemma gateways_ok_status:
  "gateways_ok d \<Longrightarrow> st \<in> {''ACTIVE'', ''INACTIVE''} \<Longrightarrow> gateways_ok (snd (update_gateway_status d st i))"
  by (auto simp: gateways_ok_def update_gateway_status_def enum_def)

lemma db_change_ok: "db_change d d' \<Longrightarrow> db_ok d \<and> gateways_ok d \<Longrightarrow> db_ok d' \<and> gateways_ok d'"
proof (induction rule: db_change.induct)
  case (status st d i)
  then show ?case by (simp only: db_ok_update_status gateways_ok_status simp_thms)
next
  case (new_gateway req d r i now)
  then show ?case by (simp add: db_ok_insert_gateway gateways_ok_insert)
qed (simp_all add: db_ok_insert_upstream db_ok_insert_route db_ok_delete_route gateways_ok_def)

text \<open>
  Whatever sequence of API calls with whatever requests a client makes on a fresh database, the
  integrity constraints hold, and every gateway has a name and a hostname of 1 to 255 bytes, a port
  that is not 0 and the status ACTIVE or INACTIVE: the API never makes a gateway DRAINING or FAILED.
\<close>

theorem api_integrity:
  assumes "api_reachable us up s"
  shows "db_ok (app_db s) \<and> gateways_ok (app_db s)"
  using assms
proof (induction rule: api_reachable.induct)
  case (start s ck z)
  then show ?case by (simp add: db_ok_def gateways_ok_def empty_db_def)
next
  case (call s h r w)
  then show ?case using db_change_ok api_change by blast
qed

theorem api_integrity_witness:
  "gateways_ok (app_db (fst (GatewayHandler_Create (qsgw_pkgs uuid_text uuid_read) demo_post (demo_app, rw_new))))"
proof -
  have "api_reachable uuid_text uuid_read demo_app"
    by (rule api_reachable.start [of _ "\<lambda>i. at_sec (int i)" 0]) (simp add: demo_app_def)
  then have "api_reachable uuid_text uuid_read
      (fst (GatewayHandler_Create (qsgw_pkgs uuid_text uuid_read) demo_post (demo_app, rw_new)))"
    by (rule api_reachable.call) (simp add: api_handlers_def)
  then show ?thesis using api_integrity by blast
qed

end
