(* ===== verification/Inventory.thy ===== *)
theory Inventory
  imports Api
begin

text \<open>
  The service of the gateways as an abstract inventory: a map from identifiers to gateways, with the
  promises of \<open>GatewayService\<close> as a relation between calls, replies and inventories. The service on the
  database of the migration refines it, call by call and over any sequence of calls.
\<close>

section \<open>The specification\<close>

type_synonym inventory = "uuid \<rightharpoonup> Gateway"

datatype gw_call =
    CallCreate CreateGatewayRequest
  | CallGet uuid
  | CallList int int
  | CallActivate uuid
  | CallDeactivate uuid

text \<open>A refusal names the identifier that was drawn for the gateway.\<close>

datatype gw_reply = Created Gateway | Refused uuid | Found Gateway | Listed "Gateway list" int | Missing | Done

text \<open>A new gateway that a request asks for: defaults for what is left out, inactive.\<close>

definition gateway_asked :: "CreateGatewayRequest \<Rightarrow> Gateway \<Rightarrow> bool" where
  "gateway_asked req g \<longleftrightarrow>
     gw_Name g = cg_Name req \<and> gw_Hostname g = cg_Hostname req \<and> gw_CreatedBy g = cg_CreatedBy req \<and>
     gw_Port g = (if cg_Port req = 0 then 443 else cg_Port req) \<and>
     gw_TlsPolicy g = (if cg_TlsPolicy req = [] then ''PQC_PREFERRED'' else cg_TlsPolicy req) \<and>
     gw_MaxConnections g = (if cg_MaxConnections req = 0 then 10000 else cg_MaxConnections req) \<and>
     gw_Status g = ''INACTIVE''"

text \<open>Requests that can be served: texts in UTF-8 without NUL, a known policy, numbers of 32 bits.\<close>

definition request_valid :: "CreateGatewayRequest \<Rightarrow> bool" where
  "request_valid req \<longleftrightarrow>
     pg_text (cg_Name req) \<and> pg_text (cg_Hostname req) \<and> pg_text (cg_CreatedBy req) \<and>
     (cg_TlsPolicy req = [] \<or> cg_TlsPolicy req \<in> set tls_policy) \<and>
     - (2 ^ 31) \<le> cg_Port req \<and> cg_Port req < 2 ^ 31 \<and>
     - (2 ^ 31) \<le> cg_MaxConnections req \<and> cg_MaxConnections req < 2 ^ 31"

inductive inventory_step :: "inventory \<Rightarrow> gw_call \<Rightarrow> gw_reply \<Rightarrow> inventory \<Rightarrow> bool" where
  created: "request_valid req \<Longrightarrow> cg_Name req \<notin> gw_Name ` ran m \<Longrightarrow> gateway_asked req g \<Longrightarrow> gateway_kept g g' \<Longrightarrow>
     m (gw_ID g) = None \<Longrightarrow> inventory_step m (CallCreate req) (Created g) (m(gw_ID g \<mapsto> g'))"
| refused: "\<not> request_valid req \<or> cg_Name req \<in> gw_Name ` ran m \<or> m i \<noteq> None \<Longrightarrow>
     inventory_step m (CallCreate req) (Refused i) m"
| found: "m i = Some g \<Longrightarrow> inventory_step m (CallGet i) (Found g) m"
| missing: "m i = None \<Longrightarrow> inventory_step m (CallGet i) Missing m"
| listed: "distinct gs \<Longrightarrow> set gs = ran m \<Longrightarrow> sorted_wrt (\<lambda>a b. ns (gw_CreatedAt a) \<ge> ns (gw_CreatedAt b)) gs \<Longrightarrow>
     inventory_step m (CallList off li) (Listed (take (nat li) (drop (nat off) gs)) (int (card (dom m)))) m"
| activated: "m i = Some g \<Longrightarrow> inventory_step m (CallActivate i) Done (m(i \<mapsto> gateway_with_status ''ACTIVE'' t g))"
| deactivated: "m i = Some g \<Longrightarrow> inventory_step m (CallDeactivate i) Done (m(i \<mapsto> gateway_with_status ''INACTIVE'' t g))"
| no_activation: "m i = None \<Longrightarrow> inventory_step m (CallActivate i) Missing m"
| no_deactivation: "m i = None \<Longrightarrow> inventory_step m (CallDeactivate i) Missing m"

section \<open>The service\<close>

fun service_call :: "'d pkgs \<Rightarrow> gw_call \<Rightarrow> ('d, 'a) app_scheme \<Rightarrow> gw_reply \<times> ('d, 'a) app_scheme" where
  "service_call pk (CallCreate req) s =
     (case GatewayService_Create pk req s of (Inl _, s') \<Rightarrow> (Refused (new_uuids s 0), s') | (Inr g, s') \<Rightarrow> (Created g, s'))"
| "service_call pk (CallGet i) s = (case GatewayService_Get pk i s of Inl _ \<Rightarrow> Missing | Inr g \<Rightarrow> Found g, s)"
| "service_call pk (CallList off li) s =
     (case GatewayService_List pk off li s of Inl _ \<Rightarrow> Missing | Inr (gs, n) \<Rightarrow> Listed gs n, s)"
| "service_call pk (CallActivate i) s =
     (case GatewayService_Activate pk i s of (None, s') \<Rightarrow> (Done, s') | (Some _, s') \<Rightarrow> (Missing, s'))"
| "service_call pk (CallDeactivate i) s =
     (case GatewayService_Deactivate pk i s of (None, s') \<Rightarrow> (Done, s') | (Some _, s') \<Rightarrow> (Missing, s'))"

text \<open>
  The calls that are considered: texts that fit their columns, pages within the bounds. The handler
  sees to all of it but the length of \<open>created_by\<close>, which it does not check; a longer one is refused by
  the database, or cut when the surplus is spaces.
\<close>

fun call_ok :: "gw_call \<Rightarrow> bool" where
  "call_ok (CallCreate req) \<longleftrightarrow>
     length (cg_Name req) \<le> 255 \<and> length (cg_Hostname req) \<le> 512 \<and> length (cg_CreatedBy req) \<le> 255"
| "call_ok (CallList off li) \<longleftrightarrow> 0 \<le> off \<and> 1 \<le> li \<and> li \<le> 100"
| "call_ok _ \<longleftrightarrow> True"

definition service_inv :: "(qsgw_db, 'a) app_scheme \<Rightarrow> bool" where
  "service_inv s \<longleftrightarrow> db_ok (app_db s)"

section \<open>The service refines the inventory\<close>

lemma asked_new_gateway: "gateway_asked req (new_gateway (gateway_defaults req) i now)"
  by (simp add: gateway_asked_def new_gateway_def gateway_defaults_def Let_def)

lemma varchar_fits: "length t \<le> n \<Longrightarrow> varchar n t = (if pg_text t then Some t else None)"
proof -
  assume "length t \<le> n"
  moreover have "utf8_chars t \<le> length t" by (simp add: utf8_chars_def)
  ultimately show ?thesis by (simp add: varchar_def Let_def)
qed

lemma gateway_stored_valid:
  assumes "call_ok (CallCreate req)" "gateway_asked req g"
  shows "gateway_stored d g \<noteq> None \<longleftrightarrow> request_valid req"
proof -
  have "''INACTIVE'' \<in> set gateway_status" "''PQC_PREFERRED'' \<in> set tls_policy"
    by (simp_all add: gateway_status_def tls_policy_def)
  then show ?thesis
    using assms by (auto simp: gateway_stored_def gateway_asked_def request_valid_def varchar_fits int4_def enum_def
        split: if_splits)
qed

lemma distinct_view:
  assumes "db_ok (app_db s)"
  shows "gateway_view s = map_of (map (\<lambda>g. (gw_ID g, g)) (gateways (app_db s)))"
    and "ran (gateway_view s) = set (gateways (app_db s))"
    and "card (dom (gateway_view s)) = length (gateways (app_db s))"
proof -
  let ?gs = "gateways (app_db s)"
  have d: "distinct (map gw_ID ?gs)" using assms by (simp add: db_ok_def)
  have f: "List.find (\<lambda>g. gw_ID g = i) gs = map_of (map (\<lambda>g. (gw_ID g, g)) gs) i" for i gs
    by (induction gs) auto
  show v: "gateway_view s = map_of (map (\<lambda>g. (gw_ID g, g)) ?gs)" by (rule ext) (simp add: gateway_view_def f)
  show "ran (gateway_view s) = set ?gs"
    using d unfolding v by (subst ran_distinct) (simp_all add: o_def image_image)
  show "card (dom (gateway_view s)) = length ?gs"
    using distinct_card [OF d] unfolding v by (simp add: dom_map_of_conv_image_fst image_image)
qed

lemma gateway_kept_keys: "gateway_kept g g' \<Longrightarrow> gw_ID g' = gw_ID g \<and> gw_Name g' = gw_Name g"
  by (cases g; cases g') (simp add: gateway_kept_def)

lemma gateway_stored_asked:
  assumes "call_ok (CallCreate req)" "gateway_asked req g" "gateway_stored d g = Some row"
  shows "gateway_kept g row" "gw_ID row = gw_ID g" "gw_Name row = cg_Name req"
  using gateway_stored_kept [OF assms(3)] gateway_kept_keys [of g row] assms(1,2)
  by (simp_all add: gateway_fits_def gateway_asked_def)

lemma insert_refines:
  assumes db: "db_ok (app_db s)" and ok: "call_ok (CallCreate req)" and asked: "gateway_asked req g"
    and x: "insert_gateway (app_db s) g = (res, app_db s')"
  shows "inventory_step (gateway_view s) (CallCreate req) (case res of Inl _ \<Rightarrow> Refused (gw_ID g) | Inr _ \<Rightarrow> Created g)
    (gateway_view s')"
proof -
  note ran = distinct_view(2) [OF db] and valid = gateway_stored_valid [OF ok asked, of "app_db s"]
  note kept = gateway_stored_asked [OF ok asked]
  show ?thesis
  proof (cases res)
    case (Inl e)
    have d: "gateway_view s' = gateway_view s"
      using insert_gateway_Inl [of "app_db s" g e "app_db s'"] x Inl by (simp add: gateway_view_def [abs_def])
    have "\<not> request_valid req \<or> (\<exists>y \<in> set (gateways (app_db s)). gw_ID y = gw_ID g \<or> gw_Name y = cg_Name req)"
    proof (cases "gateway_stored (app_db s) g")
      case (Some row)
      then have "\<exists>y \<in> set (gateways (app_db s)). gw_ID y = gw_ID row \<or> gw_Name y = gw_Name row"
        using x Inl by (simp add: insert_gateway_def split: if_splits)
      then show ?thesis using kept(2,3) [OF Some] by simp
    qed (use valid in simp)
    then have "\<not> request_valid req \<or> cg_Name req \<in> gw_Name ` ran (gateway_view s) \<or> gateway_view s (gw_ID g) \<noteq> None"
      unfolding ran gateway_view_def find_None by force
    then show ?thesis using Inl d by (simp add: inventory_step.refused)
  next
    case (Inr n)
    with x have "insert_gateway (app_db s) g = (Inr n, app_db s')" by simp
    then obtain row where row: "gateway_stored (app_db s) g = Some row"
        "\<forall>x \<in> set (gateways (app_db s)). gw_ID x \<noteq> gw_ID row \<and> gw_Name x \<noteq> gw_Name row"
        "app_db s' = tick_db ((app_db s)\<lparr>gateways := gateways (app_db s) @ [row]\<rparr>)"
      unfolding insert_gateway_Inr by blast
    note kept = kept [OF row(1)]
    have new: "gateway_view s (gw_ID g) = None" using row(2) kept(2) by (simp add: gateway_view_def find_None)
    have "gateway_view s' = (gateway_view s)(gw_ID g \<mapsto> row)"
      using row(3) new kept(2) by (auto simp: gateway_view_def find_append split: option.splits)
    moreover have "inventory_step (gateway_view s) (CallCreate req) (Created g) ((gateway_view s)(gw_ID g \<mapsto> row))"
      using valid row(1,2) kept(3) new ran by (intro inventory_step.created [OF _ _ asked kept(1)]) auto
    ultimately show ?thesis using Inr by simp
  qed
qed

lemma create_refines:
  assumes "service_inv s" "call_ok (CallCreate req)" "service_call (qsgw_pkgs us up) (CallCreate req) s = (r, s')"
  shows "inventory_step (gateway_view s) (CallCreate req) r (gateway_view s') \<and> service_inv s'"
proof -
  define g where "g = new_gateway (gateway_defaults req) (new_uuids s 0) (clock s 0)"
  have id: "gw_ID g = new_uuids s 0" by (simp add: g_def new_gateway_def)
  obtain res d where x: "insert_gateway (app_db s) g = (res, d)" by fastforce
  have r: "r = (case res of Inl _ \<Rightarrow> Refused (gw_ID g) | Inr _ \<Rightarrow> Created g)" "app_db s' = d"
    using assms(3) x by (auto simp: GatewayService_Create_def GatewayRepository_Create_def app_db_pool_Exec Let_def split_def
        id g_def [symmetric] split: sum.splits)
  have "gateway_asked req g" unfolding g_def by (rule asked_new_gateway)
  moreover have "db_ok d" using db_ok_insert_gateway [of "app_db s" g] assms(1) x by (simp add: service_inv_def)
  ultimately show ?thesis using insert_refines [OF _ assms(2), of s g res s'] assms(1) x r by (simp add: service_inv_def)
qed

lemma read_refines:
  assumes "service_inv s" "call_ok c" "c = CallGet i \<or> c = CallList off li"
    and "service_call (qsgw_pkgs us up) c s = (r, s')"
  shows "inventory_step (gateway_view s) c r (gateway_view s') \<and> service_inv s'"
proof (cases "c = CallGet i")
  case True
  then show ?thesis
    using assms(1,4) by (auto simp: GatewayService_Get_def GatewayRepository_GetByID_view
        intro: inventory_step.found inventory_step.missing split: option.splits)
next
  case False
  then have c: "c = CallList off li" using assms(3) by simp
  let ?gs = "gateways_by_time (app_db s)"
  have db: "db_ok (app_db s)" using assms(1) by (simp add: service_inv_def)
  have "distinct (gateways (app_db s))" using db by (auto simp: db_ok_def distinct_map)
  moreover have "set ?gs = ran (gateway_view s)" using distinct_view(2) [OF db] by (simp add: gateways_by_time_def)
  moreover have "sorted (map (\<lambda>g. - ns (gw_CreatedAt g)) ?gs)" by (simp add: gateways_by_time_def)
  then have "sorted_wrt (\<lambda>a b. ns (gw_CreatedAt a) \<ge> ns (gw_CreatedAt b)) ?gs" by (simp add: sorted_map)
  ultimately have "inventory_step (gateway_view s) (CallList off li)
      (Listed (take (nat li) (drop (nat off) ?gs)) (int (card (dom (gateway_view s))))) (gateway_view s)"
    by (intro inventory_step.listed) (simp_all add: gateways_by_time_def)
  then show ?thesis
    using assms(1,2,4) GatewayService_List_qsgw [of off li us up s] by (auto simp: c distinct_view(3) [OF db])
qed

lemma status_refines:
  assumes "service_inv s" "c = CallActivate i \<or> c = CallDeactivate i"
    and "service_call (qsgw_pkgs us up) c s = (r, s')"
  shows "inventory_step (gateway_view s) c r (gateway_view s') \<and> service_inv s'"
proof -
  define st where "st = (if c = CallActivate i then ''ACTIVE'' else ''INACTIVE'')"
  have lab: "st \<in> set gateway_status" by (simp add: st_def)
  obtain e s1 where u: "GatewayRepository_UpdateStatus (qsgw_pkgs us up) i st s = (e, s1)" by fastforce
  have r: "r = (case e of None \<Rightarrow> Done | Some _ \<Rightarrow> Missing)" "s' = s1"
    using assms(2,3) u by (auto simp: st_def GatewayService_Activate_def GatewayService_Deactivate_def split: option.splits)
  have db: "app_db s1 = snd (update_gateway_status (app_db s) st i)"
    using app_db_UpdateStatus [of us up i st s] u by simp
  then have "db_ok (app_db s1)" using db_ok_update_status assms(1) by (simp add: service_inv_def)
  then have inv: "service_inv s'" using r(2) by (simp add: service_inv_def)
  show ?thesis
  proof (cases "gateway_view s i")
    case None
    then have "e \<noteq> None" "gateway_view s' = gateway_view s"
      using gw_status.set_status_missing [OF None, of us up st] u r(2) by auto
    then show ?thesis using None assms(2) r(1) inv inventory_step.no_activation inventory_step.no_deactivation by auto
  next
    case (Some g)
    then obtain t where "e = None" "gateway_view s' = (gateway_view s)(i \<mapsto> gateway_with_status st t g)"
      using gw_status.set_status_found [OF lab Some, of us up] u r(2) by auto
    then show ?thesis
      using Some assms(2) r(1) inv inventory_step.activated [of "gateway_view s" i g t]
        inventory_step.deactivated [of "gateway_view s" i g t]
      by (auto simp: st_def)
  qed
qed

lemma call_refines:
  assumes "service_inv s" "call_ok c" "service_call (qsgw_pkgs us up) c s = (r, s')"
  shows "inventory_step (gateway_view s) c r (gateway_view s') \<and> service_inv s'"
proof (cases c)
  case (CallCreate req)
  then show ?thesis using create_refines assms by blast
next
  case (CallGet i)
  then show ?thesis using read_refines [OF assms(1,2) disjI1 assms(3)] by blast
next
  case (CallList off li)
  then show ?thesis using read_refines [OF assms(1,2) disjI2 assms(3)] by blast
qed (use status_refines [OF assms(1) _ assms(3)] in blast)+

interpretation gw_inventory: refinement "service_call (qsgw_pkgs us up)" inventory_step gateway_view service_inv call_ok
  for us up
  by unfold_locales (use call_refines in blast)+

text \<open>
  C12. Over any sequence of calls, creates with a name and a creator of at most 255 bytes and a hostname
  of at most 512, lists with an offset of at least 0 and a limit from 1 to 100, the service of the gateways on the database behaves as the abstract
  inventory does, with the same replies: a create is refused exactly when the request is invalid or
  its name or the drawn identifier is taken, and otherwise adds the gateway that was asked for under a new identifier; get and
  list show the inventory, the newest gateways first; activation and deactivation change one
  gateway's status, and are refused exactly when there is no such gateway.
\<close>

theorem gateway_service_refines:
  assumes "service_inv s" "list_all call_ok cs" "run_calls (service_call (qsgw_pkgs us up)) cs s = (rs, s')"
  shows "spec_run inventory_step (gateway_view s) cs rs (gateway_view s')"
  using gw_inventory.run_refines [OF assms] by simp

definition demo_calls :: "gw_call list" where
  "demo_calls = [CallCreate demo_cg, CallActivate 0, CallList 0 20]"

theorem gateway_service_refines_witness:
  "\<exists>rs s'. run_calls (service_call (qsgw_pkgs uuid_text uuid_read)) demo_calls demo_app = (rs, s') \<and>
     spec_run inventory_step (gateway_view demo_app) demo_calls rs (gateway_view s')"
proof -
  obtain rs s' where r: "run_calls (service_call (qsgw_pkgs uuid_text uuid_read)) demo_calls demo_app = (rs, s')"
    by fastforce
  have "service_inv demo_app" by (simp add: service_inv_def db_ok_def demo_app_def empty_db_def)
  moreover have "list_all call_ok demo_calls" by (simp add: demo_calls_def demo_cg_def)
  ultimately show ?thesis using gateway_service_refines [OF _ _ r] r by blast
qed

end
