(* ===== verification/Upstreams.thy ===== *)
theory Upstreams
  imports Api "HOL-Library.Multiset"
begin

text \<open>
  Upstream services on the database of the migration: creating one over the API, recording the
  result of a health check, reading it back, and listing them, also when a row has a NULL that the
  program cannot read.
\<close>

lemma UpstreamService_Create_Inr:
  assumes "UpstreamService_Create (qsgw_pkgs us up) req s = (Inr u, s')"
  shows "u = new_upstream (upstream_defaults req) (new_uuids s 0) (clock s 0)"
    "\<exists>n. insert_upstream (app_db s) (up_tuple False u) = (Inr n, app_db s')"
    "UpstreamRepository_Create (qsgw_pkgs us up) u s = (None, s\<lparr>app_db := app_db s'\<rparr>)"
proof -
  let ?u = "new_upstream (upstream_defaults req) (new_uuids s 0) (clock s 0)"
  obtain res d where x: "insert_upstream (app_db s) (up_tuple False ?u) = (res, d)" by fastforce
  then have r: "\<exists>n. res = Inr n" "u = ?u" "app_db s' = d"
    using assms by (auto simp: UpstreamService_Create_def UpstreamRepository_Create_def app_db_pool_Exec Let_def split_def
        split: sum.splits)
  then show "u = ?u" "\<exists>n. insert_upstream (app_db s) (up_tuple False u) = (Inr n, app_db s')"
    "UpstreamRepository_Create (qsgw_pkgs us up) u s = (None, s\<lparr>app_db := app_db s'\<rparr>)"
    using x UpstreamRepository_Create_None by blast+
qed

text \<open>A health check changes the health and the update time of one upstream.\<close>

definition with_health :: "bool \<Rightarrow> Time \<Rightarrow> 'a Upstream_scheme \<Rightarrow> 'a Upstream_scheme" where
  "with_health b t u = u\<lparr>up_IsHealthy := b, up_UpdatedAt := t\<rparr>"

lemma with_health_simps [simp]:
  "up_ID (with_health b t u) = up_ID u"
  "read_upstream (with_health b t x) = map_sum id (with_health b t) (read_upstream x)"
  by (simp_all add: with_health_def read_upstream_def Upstream.defs)

lemma UpdateHealth_view:
  "\<exists>s' t. UpstreamRepository_UpdateHealth (qsgw_pkgs us up) i b s = (None, s') \<and>
     upstream_view s' = (\<lambda>j. if j = i then map_option (with_health b t) (upstream_view s i) else upstream_view s j)"
proof -
  let ?d = "snd (update_upstream_health (app_db s) b i)" and ?t = "db_now (app_db s)"
  have u: "upstreams ?d = map (\<lambda>u. if up_ID u = i then with_health b ?t u else u) (upstreams (app_db s))"
    by (simp add: update_upstream_health_def with_health_def)
  have "UpstreamRepository_UpdateHealth (qsgw_pkgs us up) i b s = (None, s\<lparr>app_db := ?d\<rparr>)"
    by (simp add: UpstreamRepository_UpdateHealth_def app_db_pool_Exec update_upstream_health_def)
  moreover have "upstream_view (s\<lparr>app_db := ?d\<rparr>) =
      (\<lambda>j. if j = i then map_option (with_health b ?t) (upstream_view s i) else upstream_view s j)"
    using u by (auto simp: upstream_view_def find_map_key [of up_ID] with_health_def)
  ultimately show ?thesis by blast
qed

text \<open>
  C30. An upstream that was created over the API, with the defaults for what the request leaves out and
  texts that fit their columns (255 bytes for the name, 512 for host and health-check path), is
  what a GET for its identifier shows; after a health check that was recorded for it, the GET shows
  the result of the check and the rest unchanged, and every other upstream is as it was.
\<close>

theorem upstream_create_check_get:
  assumes "codec us up (\<lambda>_. True)" "rw_sent w = None"
    and "UpstreamHandler_Create (qsgw_pkgs us up) r (s, w) = (s1, w1)" "rw_status w1 = Some 201"
    and "decode_body cu_fields r cu_zero = Some req"
    and "upstream_fits (new_upstream (upstream_defaults req) (new_uuids s 0) (clock s 0))"
    and "URLParam r2 ''id'' = us (new_uuids s 0)"
  shows "\<exists>u t s2. upstream_kept (new_upstream (upstream_defaults req) (new_uuids s 0) (clock s 0)) u \<and>
    UpstreamHandler_Get (qsgw_pkgs us up) r2 (s1, w2) =
      (s1, writeJSON 200 (UpstreamResponse_json us (Upstream_ToResponse u)) w2) \<and>
    UpstreamRepository_UpdateHealth (qsgw_pkgs us up) (new_uuids s 0) b s1 = (None, s2) \<and>
    UpstreamHandler_Get (qsgw_pkgs us up) r2 (s2, w2) =
      (s2, writeJSON 200 (UpstreamResponse_json us (Upstream_ToResponse (with_health b t u))) w2) \<and>
    (\<forall>j. j \<noteq> new_uuids s 0 \<longrightarrow> UpstreamService_Get (qsgw_pkgs us up) j s2 = UpstreamService_Get (qsgw_pkgs us up) j s1)"
proof -
  let ?pk = "qsgw_pkgs us up" and ?i = "new_uuids s 0"
  let ?u = "new_upstream (upstream_defaults req) ?i (clock s 0)"
  obtain u0 where c: "UpstreamService_Create ?pk req s = (Inr u0, s1)"
    using assms(2-5) by (auto simp: UpstreamHandler_Create_def writeError_eq split: if_splits sum.splits prod.splits)
  note c = UpstreamService_Create_Inr [OF c]
  obtain u where u: "UpstreamRepository_GetByID ?pk (up_ID ?u) (s\<lparr>app_db := app_db s1\<rparr>) = Inr u" "upstream_kept ?u u"
    using up_store.create_get [OF assms(6), of us up s] c by blast
  have "upstream_view (s\<lparr>app_db := app_db s1\<rparr>) = upstream_view s1" by (simp add: upstream_view_def [abs_def])
  then obtain x where v: "upstream_view s1 ?i = Some x" "read_upstream x = Inr u"
    using u(1) by (auto simp: up_store.get_view new_upstream_def split: option.splits)
  obtain s2 t where h: "UpstreamRepository_UpdateHealth ?pk ?i b s1 = (None, s2)"
      "upstream_view s2 = (\<lambda>j. if j = ?i then map_option (with_health b t) (upstream_view s1 ?i) else upstream_view s1 j)"
    using UpdateHealth_view by blast
  have "up (us ?i) = Some ?i" using codec.decode_encode [OF assms(1)] by simp
  then have get: "UpstreamHandler_Get ?pk r2 (s', w2) = (s', writeJSON 200 (UpstreamResponse_json us (Upstream_ToResponse x)) w2)"
    if "upstream_view s' ?i = Some y" "read_upstream y = Inr x" for s' x y
    using that assms(7) by (simp add: UpstreamHandler_Get_def UpstreamService_Get_def up_store.get_view)
  have v2: "upstream_view s2 ?i = Some (with_health b t x)" "read_upstream (with_health b t x) = Inr (with_health b t u)"
    using h(2) v by simp_all
  have "\<forall>j. j \<noteq> ?i \<longrightarrow> UpstreamService_Get ?pk j s2 = UpstreamService_Get ?pk j s1"
    using h(2) by (simp add: UpstreamService_Get_def up_store.get_view)
  then show ?thesis using u(2) h(1) get [OF v] get [OF v2] by blast
qed

section \<open>Listing, and rows without a path\<close>

text \<open>
  C31. The list of upstreams shows the whole table, the newest first, in pages of at most 100, and reports
  its size. Every upstream shown has a health-check path: the column can be NULL, the field of the struct
  cannot, and one row of the page with a NULL there turns the page into a 500, as does a negative offset.
\<close>

theorem upstream_list_answer:
  "\<exists>off li xs. 1 \<le> li \<and> li \<le> 100 \<and> li \<in> {50, fst (Atoi (Query_Get (URL_Query r) ''limit''))} \<and>
    off = fst (Atoi (Query_Get (URL_Query r) ''offset'')) \<and>
    mset xs = mset (upstreams (app_db s)) \<and> sorted_wrt (\<lambda>a b. ns (up_CreatedAt a) \<ge> ns (up_CreatedAt b)) xs \<and>
    UpstreamHandler_List (qsgw_pkgs us up) r (s, w) = (s,
      if 0 \<le> off \<and> list_all (\<lambda>x. \<not> up_path_null x) (take (nat li) (drop (nat off) xs))
      then writeJSON 200 (UpstreamListResponse_json us
        \<lparr>ul_Upstreams = map (\<lambda>x. Upstream_ToResponse (Upstream.truncate x)) (take (nat li) (drop (nat off) xs)),
         ul_TotalCount = int (length (upstreams (app_db s)))\<rparr>) w
      else writeError 500 ''failed to list upstreams'' w)"
proof -
  let ?li0 = "fst (Atoi (Query_Get (URL_Query r) ''limit''))"
  define off where "off = fst (Atoi (Query_Get (URL_Query r) ''offset''))"
  define li where "li = (if ?li0 \<le> 0 \<or> ?li0 > 100 then 50 else ?li0)"
  define xs where "xs = sort_key (\<lambda>x. - ns (up_CreatedAt x)) (upstreams (app_db s))"
  have li: "1 \<le> li" "li \<le> 100" "li \<in> {50, ?li0}" by (auto simp: li_def)
  have "sorted (map (\<lambda>x. - ns (up_CreatedAt x)) xs)" by (simp add: xs_def)
  then have sorted: "sorted_wrt (\<lambda>a b. ns (up_CreatedAt a) \<ge> ns (up_CreatedAt b)) xs" by (simp add: sorted_map)
  have perm: "mset xs = mset (upstreams (app_db s))" by (simp add: xs_def)
  have "UpstreamHandler_List (qsgw_pkgs us up) r (s, w) = (s,
      if 0 \<le> off \<and> list_all (\<lambda>x. \<not> up_path_null x) (take (nat li) (drop (nat off) xs))
      then writeJSON 200 (UpstreamListResponse_json us
        \<lparr>ul_Upstreams = map (\<lambda>x. Upstream_ToResponse (Upstream.truncate x)) (take (nat li) (drop (nat off) xs)),
         ul_TotalCount = int (length (upstreams (app_db s)))\<rparr>) w
      else writeError 500 ''failed to list upstreams'' w)"
    using li
    by (simp add: UpstreamHandler_List_def UpstreamService_List_def UpstreamRepository_List_def query_scan_def scan_count_def
        as_int_def query_rows_upstreams page_def xs_def [symmetric] off_def [symmetric] li_def [symmetric] Let_def comp_def)
  with li sorted perm show ?thesis unfolding off_def by blast
qed

text \<open>The read of one such row fails too, and the handler answers as if there were none.\<close>

theorem upstream_null_get:
  assumes "upstream_view s i = Some x" "up_path_null x" "up (URLParam r ''id'') = Some i"
  shows "UpstreamHandler_Get (qsgw_pkgs us up) r (s, w) = (s, writeError 404 ''upstream not found'' w)"
  using assms by (simp add: UpstreamHandler_Get_def UpstreamService_Get_def up_store.get_view read_upstream_def)

text \<open>A row with NULL, which the table takes.\<close>

definition null_args :: "sqlval list" where
  "null_args = [SqlUuid 0, SqlText ''api'', SqlText ''api.internal'', SqlInt 8443, SqlText ''HTTPS'', SqlBool True,
     SqlNull, SqlInt 30, SqlTime (at_sec 0)]"

definition null_app :: "qsgw_db app" where
  "null_app = demo_app\<lparr>app_db := snd (db_Exec (app_db demo_app) sql_upstream_insert null_args)\<rparr>"

lemma null_app_upstreams:
  "\<exists>x. upstreams (app_db null_app) = [x] \<and> up_path_null x \<and> up_ID x = 0"
proof -
  have "valid_utf8 ''api''" "valid_utf8 ''api.internal''" by (rule valid_utf8_ascii, simp)+
  then show ?thesis
    by (simp add: null_app_def db_Exec_def with_args_def args_upstream_def null_args_def scan_upstream_def conversions
        insert_upstream_def upstream_stored_def varchar_def pg_text_def utf8_chars_def int4_def enum_def
        route_protocol_def demo_app_def empty_db_def Let_def)
qed

theorem upstream_list_answer_witness:
  "UpstreamHandler_List (qsgw_pkgs uuid_text uuid_read) demo_request (null_app, rw_new) =
     (null_app, writeError 500 ''failed to list upstreams'' rw_new)"
proof -
  obtain x where x: "upstreams (app_db null_app) = [x]" "up_path_null x" using null_app_upstreams by blast
  let ?h = "UpstreamHandler_List (qsgw_pkgs uuid_text uuid_read) demo_request (null_app, rw_new)"
  have off: "fst (Atoi (Query_Get (URL_Query demo_request) ''offset'')) = 0" by code_simp
  obtain li xs where h: "1 \<le> li" "mset xs = mset (upstreams (app_db null_app))"
      "\<not> list_all (\<lambda>x. \<not> up_path_null x) (take (nat li) (drop (nat 0) xs)) \<Longrightarrow>
         ?h = (null_app, writeError 500 ''failed to list upstreams'' rw_new)"
    using upstream_list_answer [of demo_request null_app uuid_text uuid_read rw_new, unfolded off]
    by (elim exE conjE) (simp only: if_False simp_thms)
  moreover have "xs = [x]" "nat li = Suc (nat (li - 1))" using h(1,2) x(1) by simp_all
  ultimately show ?thesis using x(2) by simp
qed

section \<open>Requests that leave out \<open>tls_verify\<close>\<close>

lemma fold_cu_names:
  "fold_name ''host'' = ''HOST''" "fold_name ''protocol'' = ''PROTOCOL''" "fold_name ''tls_verify'' = ''TLS_VERIFY''"
  "fold_name ''health_check_path'' = ''HEALTH_CHECK_PATH''"
  "fold_name ''health_check_interval_secs'' = ''HEALTH_CHECK_INTERVAL_SECS''"
  by code_simp+

lemma cu_field_keeps:
  assumes "f \<in> set cu_fields" "fold_name (fst f) \<noteq> ''TLS_VERIFY''" "snd f v q = Some q'"
  shows "cu_TlsVerify q' = cu_TlsVerify q"
  using assms by (auto simp: cu_fields_def fold_cu_names set_str_def set_int_def set_bool_def
      split: json.splits option.splits prod.splits)

lemma decode_members_keeps:
  "decode_members cu_fields ms q = Some q' \<Longrightarrow> \<forall>m \<in> set ms. fold_name (fst m) \<noteq> ''TLS_VERIFY'' \<Longrightarrow>
     cu_TlsVerify q' = cu_TlsVerify q"
proof (induction ms arbitrary: q)
  case (Cons m ms)
  obtain k v where m: "m = (k, v)" by (cases m)
  show ?case
  proof (cases "List.find (\<lambda>f. fold_name (fst f) = fold_name k) cu_fields")
    case None
    then show ?thesis using Cons m by simp
  next
    case (Some f)
    then obtain q1 where "snd f v q = Some q1" "decode_members cu_fields ms q1 = Some q'"
      using Cons.prems(1) m by (auto split: option.splits)
    moreover have "f \<in> set cu_fields" "fold_name (fst f) = fold_name k"
      using Some by (auto simp: find_Some_iff)
    ultimately show ?thesis using Cons m cu_field_keeps [of f v q q1] by simp
  qed
qed simp

text \<open>
  A request that does not mention \<open>tls_verify\<close> creates an upstream whose certificate is not
  verified: the row in the table has \<open>tls_verify\<close> false, although the column and the documentation
  of the API have the default true.
\<close>

theorem upstream_tls_verify_off:
  assumes "json_decode (snd (body_view r)) (fst (body_view r)) = Some (JObj ms)"
    and "\<forall>m \<in> set ms. fold_name (fst m) \<noteq> ''TLS_VERIFY''"
    and "rw_sent w = None" "UpstreamHandler_Create (qsgw_pkgs us up) r (s, w) = (s1, w1)" "rw_status w1 = Some 201"
  shows "\<exists>u \<in> set (upstreams (app_db s1)). up_ID u = new_uuids s 0 \<and> \<not> up_TlsVerify u"
proof -
  obtain req u0 where d: "decode_body cu_fields r cu_zero = Some req"
      and c: "UpstreamService_Create (qsgw_pkgs us up) req s = (Inr u0, s1)"
    using assms(3-5) by (auto simp: UpstreamHandler_Create_def writeError_eq
        split: option.splits if_splits sum.splits prod.splits)
  have "cu_TlsVerify req = cu_TlsVerify cu_zero"
    using d assms(1,2) by (intro decode_members_keeps) (auto simp: decode_body_def decode_struct_def)
  note c = UpstreamService_Create_Inr [OF c]
  obtain n where "insert_upstream (app_db s) (up_tuple False u0) = (Inr n, app_db s1)" using c(2) by blast
  then obtain row where row: "upstream_stored (app_db s) (up_tuple False u0) = Some row" "row \<in> set (upstreams (app_db s1))"
    unfolding insert_upstream_Inr by (metis db_tick_simps(2) in_set_conv_decomp qsgw_db.select_convs(2) qsgw_db.surjective
        qsgw_db.update_convs(2))
  then have "up_TlsVerify row = up_TlsVerify u0" "up_ID row = up_ID u0"
    by (auto simp: upstream_stored_def bind_eq_Some_conv)
  then show ?thesis
    using row(2) c(1) \<open>cu_TlsVerify req = cu_TlsVerify cu_zero\<close>
    by (intro bexI [of _ row]) (auto simp: new_upstream_def upstream_defaults_def cu_zero_def Let_def)
qed

section \<open>An example\<close>

definition demo_cu :: CreateUpstreamRequest where
  "demo_cu = cu_zero\<lparr>cu_Name := ''api'', cu_Host := ''api.internal'', cu_Port := 8443\<rparr>"

definition demo_cu_json :: json where
  "demo_cu_json = JObj [(''name'', JStr ''api''), (''host'', JStr ''api.internal''), (''port'', json_int 8443)]"

definition upstream_post :: request where
  "upstream_post = demo_request\<lparr>Method := ''POST'', Body := json_encode demo_cu_json\<rparr>"

lemma upstream_ascii: "valid_utf8 ''host''" "valid_utf8 ''api''" "valid_utf8 ''api.internal''" "valid_utf8 ''/health''"
  by (rule valid_utf8_ascii, simp)+

lemma demo_cu_json_decode: "json_decode False (json_encode demo_cu_json) = Some demo_cu_json"
  by (rule json_decode_encode) (simp_all add: demo_cu_json_def max_nesting_def upstream_ascii in_int64_def go_int)

lemma upstream_decode: "decode_body cu_fields upstream_post cu_zero = Some demo_cu"
proof -
  show ?thesis
    using demo_cu_json_decode
    by (simp add: decode_body_def body_view_def decode_struct_def upstream_post_def demo_request_def demo_cu_json_def
        cu_fields_def cu_zero_def demo_cu_def fold_cu_names in_int64_def go_int)
qed

lemma upstream_post_created:
  "rw_status (snd (UpstreamHandler_Create (qsgw_pkgs us up) upstream_post (demo_app, rw_new))) = Some 201"
proof -
  let ?u = "new_upstream (upstream_defaults demo_cu) (new_uuids demo_app 0) (clock demo_app 0)"
  have "\<exists>d. insert_upstream (app_db demo_app) (up_tuple False ?u) = (Inr 1, d)"
    by (simp add: insert_upstream_def upstream_stored_def new_upstream_def upstream_defaults_def demo_cu_def cu_zero_def
        varchar_def pg_text_def utf8_chars_def int4_def enum_def route_protocol_def demo_app_def empty_db_def
        upstream_ascii Let_def)
  then show ?thesis
    by (auto simp: UpstreamHandler_Create_def upstream_decode demo_cu_def cu_zero_def [symmetric] UpstreamService_Create_def
        UpstreamRepository_Create_def app_db_pool_Exec Let_def split_def)
qed

theorem upstream_create_check_get_witness:
  "\<exists>u t (s2 :: qsgw_db app). up_Name u = ''api'' \<and> UpstreamHandler_Get (qsgw_pkgs uuid_text uuid_read) demo_get (s2, rw_new) =
     (s2, writeJSON 200 (UpstreamResponse_json uuid_text (Upstream_ToResponse (with_health False t u))) rw_new)"
proof -
  let ?u = "new_upstream (upstream_defaults demo_cu) (new_uuids demo_app 0) (clock demo_app 0)"
  obtain s1 w1 where c: "UpstreamHandler_Create (qsgw_pkgs uuid_text uuid_read) upstream_post (demo_app, rw_new) = (s1, w1)"
    by fastforce
  have st: "rw_status w1 = Some 201" using upstream_post_created [of uuid_text uuid_read] c by simp
  have fits: "upstream_fits ?u"
    by (simp add: upstream_fits_def new_upstream_def upstream_defaults_def demo_cu_def cu_zero_def Let_def)
  have id: "URLParam demo_get ''id'' = uuid_text (new_uuids demo_app 0)"
    by (simp add: URLParam_def demo_get_def demo_app_def)
  have name: "up_Name u = ''api''" if "upstream_kept ?u u" for u
    using that by (cases u) (simp add: upstream_kept_def new_upstream_def upstream_defaults_def demo_cu_def cu_zero_def Let_def)
  have "rw_sent rw_new = None" by simp
  from upstream_create_check_get [OF uuids.codec_axioms this c st upstream_decode fits id, of rw_new False]
  obtain u t and s2 :: "qsgw_db app" where "upstream_kept ?u u"
    "UpstreamHandler_Get (qsgw_pkgs uuid_text uuid_read) demo_get (s2, rw_new) =
      (s2, writeJSON 200 (UpstreamResponse_json uuid_text (Upstream_ToResponse (with_health False t u))) rw_new)"
    by (elim exE conjE) blast
  with name show ?thesis by (intro exI conjI)
qed

theorem upstream_tls_verify_off_witness:
  "\<exists>u \<in> set (upstreams (app_db (fst (UpstreamHandler_Create (qsgw_pkgs uuid_text uuid_read) upstream_post (demo_app, rw_new))))).
     \<not> up_TlsVerify u"
proof -
  obtain s1 w1 where c: "UpstreamHandler_Create (qsgw_pkgs uuid_text uuid_read) upstream_post (demo_app, rw_new) = (s1, w1)"
    by fastforce
  have "rw_status w1 = Some 201" using upstream_post_created [of uuid_text uuid_read] c by simp
  moreover have "json_decode (snd (body_view upstream_post)) (fst (body_view upstream_post)) = Some demo_cu_json"
    using demo_cu_json_decode by (simp add: body_view_def upstream_post_def demo_request_def)
  ultimately have "\<exists>u \<in> set (upstreams (app_db s1)). up_ID u = new_uuids demo_app 0 \<and> \<not> up_TlsVerify u"
    unfolding demo_cu_json_def
    by (intro upstream_tls_verify_off [OF _ _ _ c, of "[(''name'', JStr ''api''), (''host'', JStr ''api.internal''), (''port'', json_int 8443)]"])
      (simp_all add: fold_cu_names)
  then show ?thesis using c by auto
qed

end
