(* ===== verification/Threats.thy ===== *)
theory Threats
  imports Api "HOL-Library.Multiset"
begin

text \<open>
  Threat events on the database of the migration: recording them, and what the list of a gateway's
  events shows for every query.
\<close>

section \<open>The queries\<close>

lemma Itoa_2 [simp]: "Itoa 2 = ''2''" "Itoa 3 = ''3''" "Itoa 4 = ''4''"
  by code_simp+

lemma threat_texts:
  "fst (threat_count_stmt i sev) \<in> {fst (threat_count_stmt 0 []), fst (threat_count_stmt 0 ''LOW'')}"
  "fst (threat_list_stmt i sev off li) \<in> {fst (threat_list_stmt 0 [] 0 0), fst (threat_list_stmt 0 ''LOW'' 0 0)}"
  by (simp_all add: threat_count_stmt_def threat_list_stmt_def threat_filter_def)

lemma threat_texts_distinct:
  "fst (threat_count_stmt i sev) \<notin> {sql_gateway_get, sql_upstream_get, sql_route_get, sql_gateway_count, sql_upstream_count}"
  "fst (threat_list_stmt i sev off li) \<notin> {sql_gateway_list, sql_upstream_list, sql_route_list}"
  by (simp_all add: threat_count_stmt_def threat_list_stmt_def threat_filter_def sql_texts)

lemma threat_arguments:
  "snd (threat_count_stmt i sev) = SqlUuid i # (if sev = [] then [] else [SqlText sev])"
  "snd (threat_list_stmt i sev off li) = SqlUuid i # (if sev = [] then [] else [SqlText sev]) @ [SqlInt off, SqlInt li]"
  by (simp_all add: threat_count_stmt_def threat_list_stmt_def threat_filter_def)

text \<open>The events that a query selects.\<close>

definition threats_of :: "qsgw_db \<Rightarrow> uuid \<Rightarrow> string \<Rightarrow> ThreatEvent list" where
  "threats_of d i sev = filter (\<lambda>t. te_GatewayID t = i \<and> (sev = [] \<or> te_Severity t = sev)) (threat_events d)"

definition severity_ok :: "string \<Rightarrow> bool" where
  "severity_ok sev \<longleftrightarrow> sev = [] \<or> sev \<in> set threat_severity"

lemma threats_where_of:
  "threats_where d (SqlUuid i # (if sev = [] then [] else [SqlText sev]) @ map SqlInt xs) =
     (if severity_ok sev then Some (threats_of d i sev, map SqlInt xs) else None)"
  by (cases xs) (simp_all add: threats_where_def severity_ok_def threats_of_def)

lemma db_threat_count:
  "db_QueryRow d (fst (threat_count_stmt i sev)) (snd (threat_count_stmt i sev)) =
     (if severity_ok sev then Inr [SqlInt (int (length (threats_of d i sev)))] else Inl invalid_value)"
  using threat_texts(1) [of i sev] threat_texts_distinct(1) [of i sev] threats_where_of [of d i sev "[]"]
  unfolding db_QueryRow_def threat_arguments by simp

lemma db_threat_list:
  "db_Query d (fst (threat_list_stmt i sev off li)) (snd (threat_list_stmt i sev off li)) =
     (if severity_ok sev then page_rows threat_args (page te_DetectedAt off li (threats_of d i sev)) else Inl invalid_value)"
  using threat_texts(2) [of i sev off li] threat_texts_distinct(2) [of i sev off li] threats_where_of [of d i sev "[off, li]"]
  unfolding db_Query_def threat_arguments by simp

lemma ThreatRepository_ListByGateway_qsgw:
  "ThreatRepository_ListByGateway (qsgw_pkgs us up) i sev off li s =
     (if \<not> severity_ok sev then Inl (Wrapped ''failed to count threats'' invalid_value)
      else if off < 0 \<or> li < 0 then Inl (Wrapped ''failed to list threats'' invalid_value)
      else Inr (take (nat li) (drop (nat off) (sort_key (\<lambda>t. - ns (te_DetectedAt t)) (threats_of (app_db s) i sev))),
                int (length (threats_of (app_db s) i sev))))"
proof -
  let ?q = "threat_list_stmt i sev off li" and ?c = "threat_count_stmt i sev"
  have "query_scan (qsgw_pkgs us up) scan_count (fst ?c) (snd ?c) s =
      (if severity_ok sev then Inr (int (length (threats_of (app_db s) i sev))) else Inl invalid_value)"
    by (simp add: query_scan_def db_threat_count scan_count_def as_int_def)
  moreover have "query_rows (qsgw_pkgs us up) scan_threat m1 m2 (fst ?q) (snd ?q) s =
      (case page te_DetectedAt off li (threats_of (app_db s) i sev) of Inl e \<Rightarrow> Inl (Wrapped m1 e) | Inr xs \<Rightarrow> Inr xs)"
    if "severity_ok sev" for m1 m2
    by (rule query_rows_page [where f = threat_args]) (simp_all add: db_threat_list that)
  ultimately show ?thesis by (simp add: ThreatRepository_ListByGateway_def split_def page_def)
qed

section \<open>What a client sees\<close>

text \<open>
  C29. The list of threats for a gateway shows that gateway's events and no others, of the severity
  in the query if there is one, the newest first, a page of at most 100 of them, and reports how many
  there are in all. A severity that is not one of the five labels, and a negative offset, are answered
  with 500.
\<close>

theorem threat_list_answer:
  assumes "codec us up (\<lambda>_. True)" "Query_Get (URL_Query r) ''gateway_id'' = us i" "us i \<noteq> []"
  shows "\<exists>off li ts. 1 \<le> li \<and> li \<le> 100 \<and> li \<in> {50, fst (Atoi (Query_Get (URL_Query r) ''limit''))} \<and>
    off = fst (Atoi (Query_Get (URL_Query r) ''offset'')) \<and>
    mset ts = mset (filter (\<lambda>t. te_GatewayID t = i \<and>
        (Query_Get (URL_Query r) ''severity'' = [] \<or> te_Severity t = Query_Get (URL_Query r) ''severity''))
      (threat_events (app_db s))) \<and>
    sorted_wrt (\<lambda>a b. ns (te_DetectedAt a) \<ge> ns (te_DetectedAt b)) ts \<and>
    ThreatHandler_List (qsgw_pkgs us up) r (s, w) = (s,
      if 0 \<le> off \<and> Query_Get (URL_Query r) ''severity'' \<in> set ([] # threat_severity)
      then writeJSON 200 (ThreatEventListResponse_json us
        \<lparr>tl_Events = map ThreatEvent_ToResponse (take (nat li) (drop (nat off) ts)), tl_TotalCount = int (length ts),
         tl_Offset = off, tl_Limit = li\<rparr>) w
      else writeError 500 ''failed to list threats'' w)"
proof -
  let ?sev = "Query_Get (URL_Query r) ''severity''"
  let ?li0 = "fst (Atoi (Query_Get (URL_Query r) ''limit''))"
  define off where "off = fst (Atoi (Query_Get (URL_Query r) ''offset''))"
  define li where "li = (if ?li0 \<le> 0 \<or> ?li0 > 100 then 50 else ?li0)"
  define ts where "ts = sort_key (\<lambda>t. - ns (te_DetectedAt t)) (threats_of (app_db s) i ?sev)"
  have li: "1 \<le> li" "li \<le> 100" "li \<in> {50, ?li0}" by (auto simp: li_def)
  have "sorted (map (\<lambda>t. - ns (te_DetectedAt t)) ts)" by (simp add: ts_def)
  then have sorted: "sorted_wrt (\<lambda>a b. ns (te_DetectedAt a) \<ge> ns (te_DetectedAt b)) ts" by (simp add: sorted_map)
  have perm: "mset ts = mset (threats_of (app_db s) i ?sev)" by (simp add: ts_def)
  have "length ts = length (threats_of (app_db s) i ?sev)" by (simp add: ts_def)
  moreover have "up (us i) = Some i" using codec.decode_encode [OF assms(1)] by simp
  ultimately have "ThreatHandler_List (qsgw_pkgs us up) r (s, w) = (s,
      if 0 \<le> off \<and> ?sev \<in> set ([] # threat_severity)
      then writeJSON 200 (ThreatEventListResponse_json us
        \<lparr>tl_Events = map ThreatEvent_ToResponse (take (nat li) (drop (nat off) ts)), tl_TotalCount = int (length ts),
         tl_Offset = off, tl_Limit = li\<rparr>) w
      else writeError 500 ''failed to list threats'' w)"
    using assms(2,3) li
    by (simp add: ThreatHandler_List_def ThreatRepository_ListByGateway_qsgw severity_ok_def ts_def [symmetric]
        off_def [symmetric] li_def [symmetric] Let_def)
  with li sorted perm show ?thesis unfolding threats_of_def off_def by blast
qed

text \<open>Two events of gateway 0 and one of another; the critical ones of gateway 0.\<close>

definition demo_threat :: "uuid \<Rightarrow> uuid \<Rightarrow> string \<Rightarrow> int \<Rightarrow> ThreatEvent" where
  "demo_threat i g sev t =
     \<lparr>te_ID = i, te_GatewayID = g, te_ThreatType = ''WEAK_CIPHER'', te_Severity = sev, te_SourceIP = None,
      te_Description = ''RC4'', te_Mitigated = False, te_DetectedAt = at_sec t\<rparr>"

definition threat_app :: "qsgw_db app" where
  "threat_app = demo_app\<lparr>app_db := (app_db demo_app)\<lparr>threat_events :=
     [demo_threat 0 0 ''LOW'' 1, demo_threat 1 0 ''CRITICAL'' 2, demo_threat 2 5 ''CRITICAL'' 3]\<rparr>\<rparr>"

definition threat_request :: request where
  "threat_request = demo_request\<lparr>RawQuery := ''severity=CRITICAL&gateway_id='' @ uuid_text 0\<rparr>"

lemma threat_query: "URL_Query threat_request = [(''severity'', ''CRITICAL''), (''gateway_id'', uuid_text 0)]"
  unfolding threat_request_def by code_simp

theorem threat_list_answer_witness:
  "\<exists>li. ThreatHandler_List (qsgw_pkgs uuid_text uuid_read) threat_request (threat_app, rw_new) =
     (threat_app, writeJSON 200 (ThreatEventListResponse_json uuid_text
        \<lparr>tl_Events = [ThreatEvent_ToResponse (demo_threat 1 0 ''CRITICAL'' 2)], tl_TotalCount = 1, tl_Offset = 0,
         tl_Limit = li\<rparr>) rw_new)"
proof -
  let ?h = "ThreatHandler_List (qsgw_pkgs uuid_text uuid_read) threat_request (threat_app, rw_new)"
  have q: "Query_Get (URL_Query threat_request) ''gateway_id'' = uuid_text 0"
    "Query_Get (URL_Query threat_request) ''severity'' = ''CRITICAL''"
    "Query_Get (URL_Query threat_request) ''offset'' = []"
    by (simp_all add: threat_query Query_Get_def)
  have "uuid_text 0 \<noteq> []" "fst (Atoi []) = 0" by code_simp+
  then obtain li ts where h: "1 \<le> li"
      "mset ts = mset (filter (\<lambda>t. te_GatewayID t = 0 \<and> te_Severity t = ''CRITICAL'') (threat_events (app_db threat_app)))"
      "?h = (threat_app, writeJSON 200 (ThreatEventListResponse_json uuid_text
        \<lparr>tl_Events = map ThreatEvent_ToResponse (take (nat li) ts), tl_TotalCount = int (length ts),
         tl_Offset = 0, tl_Limit = li\<rparr>) rw_new)"
    using threat_list_answer [OF uuids.codec_axioms q(1), of threat_app rw_new] q
    by (auto simp: threat_severity_def)
  then have "ts = [demo_threat 1 0 ''CRITICAL'' 2]" by (simp add: threat_app_def demo_threat_def)
  moreover have "nat li = Suc (nat (li - 1))" using h(1) by simp
  ultimately show ?thesis using h(3) by auto
qed

end
