(* ===== verification/Columns.thy ===== *)
theory Columns
  imports Threats
begin

text \<open>
  The types of the columns: whatever statements are sent with whatever arguments, every row of the
  tables has values of the types that the migration declares, and the rows that the repositories
  read fit the destinations of their \<open>Scan\<close> calls, upstreams without a path excepted.
\<close>

section \<open>Texts that end in spaces\<close>

lemma rune_class_lo: "rune_class b = (n, lo, hi) \<Longrightarrow> 1 < n \<Longrightarrow> 128 \<le> lo"
  by (auto simp: rune_class_def split: if_splits)

lemma rune_len_ascii_tail:
  assumes "\<forall>c \<in> set ys. byte_val c < 128" "s \<noteq> []" "rune_len (s @ ys) \<noteq> 0"
  shows "rune_len s = rune_len (s @ ys)"
proof (cases s)
  case (Cons c cs)
  obtain n lo hi where n: "rune_class (byte_val c) = (n, lo, hi)" by (metis prod_cases3)
  show ?thesis
  proof (cases "n \<le> 1")
    case False
    then have bytes: "n - 1 \<le> length (cs @ ys)" "cont_byte lo hi ((cs @ ys) ! 0)"
        "list_all (cont_byte 128 191) (take (n - 2) (drop 1 (cs @ ys)))"
      using assms(3) Cons n by (auto simp: rune_len.simps split: if_splits)
    define zs where "zs = cs @ ys"
    note bytes' = bytes [folded zs_def]
    have cont: "128 \<le> byte_val (zs ! i)" if "i < n - 1" for i
    proof (cases i)
      case 0
      then show ?thesis using bytes'(2) rune_class_lo [OF n] False by (simp add: cont_byte_def)
    next
      case (Suc j)
      then have "take (n - 2) (drop 1 zs) ! j = zs ! i" using that bytes'(1) by simp
      moreover have "j < length (take (n - 2) (drop 1 zs))" using that Suc bytes'(1) by simp
      ultimately show ?thesis using bytes'(3) by (fastforce simp: list_all_length cont_byte_def)
    qed
    have "n - 1 \<le> length cs"
    proof (rule ccontr)
      assume "\<not> n - 1 \<le> length cs"
      then have "length cs < n - 1" "0 < length ys" using bytes(1) by auto
      then have "128 \<le> byte_val (ys ! 0)" using cont [of "length cs"] by (simp add: zs_def nth_append)
      then show False using assms(1) \<open>0 < length ys\<close> nth_mem [of 0 ys] by (meson not_less)
    qed
    then have "0 < length cs" using False by linarith
    then have "rune_len s = n" using bytes \<open>n - 1 \<le> length cs\<close> Cons n False
      by (auto simp: rune_len.simps nth_append)
    then show ?thesis using rune_len_append [of s ys] False by simp
  qed (use assms(3) Cons n in \<open>auto simp: rune_len.simps\<close>)
qed (use assms in simp)

lemma valid_utf8_tail:
  "\<forall>c \<in> set ys. byte_val c < 128 \<Longrightarrow> valid_utf8 (xs @ ys) \<longleftrightarrow> valid_utf8 xs"
proof (induction xs rule: valid_utf8.induct)
  case (1 s)
  show ?case
  proof (cases "s = [] \<or> rune_len (s @ ys) = 0")
    case True
    show ?thesis
    proof (cases "s = []")
      case True
      then show ?thesis using "1.prems" valid_utf8_ascii by simp
    next
      case nonempty: False
      then have "rune_len (s @ ys) = 0" using True by simp
      moreover then have "rune_len s = 0" using rune_len_append [of s ys] by (cases "rune_len s = 0") auto
      ultimately show ?thesis using nonempty by (simp add: valid_utf8.simps [of s] valid_utf8.simps [of "s @ ys"])
    qed
  next
    case False
    then have len: "rune_len s = rune_len (s @ ys)" using rune_len_ascii_tail [OF "1.prems"] by simp
    then have "drop (rune_len s) (s @ ys) = drop (rune_len s) s @ ys" using rune_len_le [of s] by simp
    then show ?thesis
      using "1.IH" "1.prems" False len by (simp add: valid_utf8.simps [of s] valid_utf8.simps [of "s @ ys"])
  qed
qed

section \<open>Types of columns\<close>

definition is_varchar :: "nat \<Rightarrow> string \<Rightarrow> bool" where
  "is_varchar n s \<longleftrightarrow> pg_text s \<and> utf8_chars s \<le> n"

definition is_int4 :: "int \<Rightarrow> bool" where
  "is_int4 n \<longleftrightarrow> - (2 ^ 31) \<le> n \<and> n < 2 ^ 31"

definition is_null_or :: "('a \<Rightarrow> bool) \<Rightarrow> 'a option \<Rightarrow> bool" where
  "is_null_or P x \<longleftrightarrow> (case x of None \<Rightarrow> True | Some v \<Rightarrow> P v)"

text \<open>A timestamp has microseconds and the location of the session.\<close>

definition is_timestamp :: "qsgw_db \<Rightarrow> Time \<Rightarrow> bool" where
  "is_timestamp d t \<longleftrightarrow> ns t mod 1000 = 0 \<and> zone t = db_zone d"

definition gateway_typed :: "qsgw_db \<Rightarrow> Gateway \<Rightarrow> bool" where
  "gateway_typed d g \<longleftrightarrow> is_varchar 255 (gw_Name g) \<and> is_varchar 512 (gw_Hostname g) \<and> is_int4 (gw_Port g) \<and>
     gw_Status g \<in> set gateway_status \<and> gw_TlsPolicy g \<in> set tls_policy \<and> is_int4 (gw_MaxConnections g) \<and>
     is_varchar 255 (gw_CreatedBy g) \<and> is_timestamp d (gw_CreatedAt g) \<and> is_timestamp d (gw_UpdatedAt g)"

definition upstream_typed :: "qsgw_db \<Rightarrow> upstream_tuple \<Rightarrow> bool" where
  "upstream_typed d u \<longleftrightarrow> is_varchar 255 (up_Name u) \<and> is_varchar 512 (up_Host u) \<and> is_int4 (up_Port u) \<and>
     up_Protocol u \<in> set route_protocol \<and> (up_path_null u \<or> is_varchar 512 (up_HealthCheckPath u)) \<and> is_int4 (up_HealthCheckIntervalS u) \<and>
     is_timestamp d (up_CreatedAt u) \<and> is_timestamp d (up_UpdatedAt u)"

definition route_typed :: "qsgw_db \<Rightarrow> Route \<Rightarrow> bool" where
  "route_typed d r \<longleftrightarrow> is_varchar 1024 (rt_PathPrefix r) \<and> is_int4 (rt_Priority r) \<and>
     is_null_or (\<lambda>p. p \<in> set tls_policy) (rt_TlsPolicy r) \<and> is_null_or is_int4 (rt_RateLimitRPS r) \<and>
     is_timestamp d (rt_CreatedAt r) \<and> is_timestamp d (rt_UpdatedAt r)"

definition threat_typed :: "qsgw_db \<Rightarrow> ThreatEvent \<Rightarrow> bool" where
  "threat_typed d t \<longleftrightarrow> te_ThreatType t \<in> set threat_type \<and> te_Severity t \<in> set threat_severity \<and>
     is_null_or (is_varchar 45) (te_SourceIP t) \<and> pg_text (te_Description t) \<and> is_timestamp d (te_DetectedAt t)"

definition db_typed :: "qsgw_db \<Rightarrow> bool" where
  "db_typed d \<longleftrightarrow> list_all (gateway_typed d) (gateways d) \<and> list_all (upstream_typed d) (upstreams d) \<and>
     list_all (route_typed d) (routes d) \<and> list_all (threat_typed d) (threat_events d)"

lemma varchar_typed: "varchar n s = Some t \<Longrightarrow> is_varchar n t"
proof -
  assume v: "varchar n s = Some t"
  define u where "u = rev (dropWhile (\<lambda>c. c = CHR '' '') (rev s))"
  have s: "s = u @ rev (takeWhile (\<lambda>c. c = CHR '' '') (rev s))"
    unfolding u_def by (metis rev_append rev_rev_ident takeWhile_dropWhile_id)
  have sp: "\<forall>c \<in> set (rev (takeWhile (\<lambda>c. c = CHR '' '') (rev s))). byte_val c < 128"
    by (auto dest: set_takeWhileD)
  have pad: "pg_text (u @ replicate k (CHR '' ''))" if "pg_text s" for k
  proof -
    have "valid_utf8 u" using that s valid_utf8_tail [OF sp, of u] by (simp add: pg_text_def)
    moreover have "set u \<subseteq> set s" by (subst s) simp
    ultimately show ?thesis
      using that valid_utf8_tail [of "replicate k (CHR '' '')" u] by (auto simp: pg_text_def)
  qed
  have "utf8_chars (u @ replicate (n - utf8_chars u) (CHR '' '')) \<le> n" if "utf8_chars u \<le> n"
    using that by (simp add: utf8_chars_def)
  with v pad show ?thesis by (auto simp: varchar_def is_varchar_def u_def [symmetric] Let_def split: if_splits)
qed

lemma column_typed:
  "int4 n = Some m \<Longrightarrow> is_int4 m" "enum ls x = Some y \<Longrightarrow> y \<in> set ls" "is_timestamp d (pg_time d t)" "is_timestamp d (db_now d)"
  "nullable f z = Some z' \<Longrightarrow> (\<And>v w. f v = Some w \<Longrightarrow> P w) \<Longrightarrow> is_null_or P z'"
  by (auto simp: int4_def is_int4_def enum_def is_timestamp_def pg_time_def db_now_def nullable_def is_null_or_def
      split: if_splits option.splits)

lemma stored_typed:
  "gateway_stored d g = Some g' \<Longrightarrow> gateway_typed d g'" "upstream_stored d u = Some u' \<Longrightarrow> upstream_typed d u'"
  "route_stored d r = Some r' \<Longrightarrow> route_typed d r'" "threat_stored d t = Some t' \<Longrightarrow> threat_typed d t'"
  by (auto simp: gateway_stored_def gateway_typed_def upstream_stored_def upstream_typed_def route_stored_def
      route_typed_def threat_stored_def threat_typed_def bind_eq_Some_conv split: if_splits
      intro: varchar_typed column_typed)

section \<open>What every statement keeps\<close>

lemma typed_zone:
  assumes "db_zone d' = db_zone d"
  shows "gateway_typed d' = gateway_typed d" "upstream_typed d' = upstream_typed d" "route_typed d' = route_typed d"
    "threat_typed d' = threat_typed d"
  using assms by (simp_all add: fun_eq_iff gateway_typed_def upstream_typed_def route_typed_def threat_typed_def
      is_timestamp_def)

lemma typed_zones [simp]:
  "db_zone (tick_db d) = db_zone d" "db_zone (d\<lparr>gateways := gs\<rparr>) = db_zone d" "db_zone (d\<lparr>upstreams := us\<rparr>) = db_zone d"
  "db_zone (d\<lparr>routes := rs\<rparr>) = db_zone d" "db_zone (d\<lparr>threat_events := ts\<rparr>) = db_zone d"
  by (simp_all add: tick_db_def)

lemmas typed_same = typed_zone [OF typed_zones(1)] typed_zone [OF typed_zones(2)] typed_zone [OF typed_zones(3)]
  typed_zone [OF typed_zones(4)] typed_zone [OF typed_zones(5)]

lemma db_typed_statements:
  assumes "db_typed d"
  shows "db_typed (snd (insert_gateway d g))" "db_typed (snd (insert_upstream d u))" "db_typed (snd (insert_route d r))"
    "db_typed (snd (insert_threat d t))" "db_typed (snd (delete_route d i))"
    "db_typed (snd (update_gateway_status d st i))" "db_typed (snd (update_upstream_health d b i))"
proof -
  note typed = db_typed_def typed_same
  show "db_typed (snd (insert_gateway d g))" "db_typed (snd (insert_upstream d u))" "db_typed (snd (insert_route d r))"
    "db_typed (snd (insert_threat d t))"
    using assms by (auto simp: insert_gateway_def insert_upstream_def insert_route_def insert_threat_def typed
        dest: stored_typed split: option.splits)
  show "db_typed (snd (delete_route d i))"
    using assms by (auto simp: delete_route_def typed list_all_iff)
  have "gateway_typed d (g\<lparr>gw_Status := st, gw_UpdatedAt := db_now d\<rparr>)" if "gateway_typed d g" "st \<in> set gateway_status" for g st
    using that by (simp add: gateway_typed_def column_typed(4))
  then show "db_typed (snd (update_gateway_status d st i))"
    using assms by (auto simp: update_gateway_status_def typed list_all_iff enum_def)
  have "upstream_typed d (u\<lparr>up_IsHealthy := b, up_UpdatedAt := db_now d\<rparr>)" if "upstream_typed d u" for u b
    using that by (simp add: upstream_typed_def column_typed(4))
  then show "db_typed (snd (update_upstream_health d b i))"
    using assms by (auto simp: update_upstream_health_def typed list_all_iff)
qed

lemma db_typed_Exec: "db_typed d \<Longrightarrow> db_typed (snd (db_Exec d sql args))"
  by (auto simp: db_Exec_def with_args_def db_typed_statements split: option.splits list.splits sqlval.splits)

interpretation typed_run: run_invariant "\<lambda>(sql, args) d. snd (db_Exec d sql args)" db_typed
  by unfold_locales (auto simp: db_typed_Exec)

section \<open>Rows fit their destinations\<close>

definition scan_failed :: "repo_error + 'x \<Rightarrow> bool" where
  "scan_failed res \<longleftrightarrow> (case res of Inl (Wrapped _ ScanError) \<Rightarrow> True | _ \<Rightarrow> False)"

lemma scan_simps [simp]:
  "\<not> scan_failed (Inr x)" "\<not> scan_failed (Inl (NotFound m i))" "scan_failed (Inl (Wrapped m e)) \<longleftrightarrow> e = ScanError"
  by (simp_all add: scan_failed_def split: pgx_error.splits)

lemma reads_scan:
  "\<not> scan_failed (GatewayRepository_GetByID (qsgw_pkgs us up) i s)"
  "scan_failed (UpstreamRepository_GetByID (qsgw_pkgs us up) i s) \<longleftrightarrow> (\<exists>x. upstream_view s i = Some x \<and> up_path_null x)"
  "\<not> scan_failed (RouteRepository_GetByID (qsgw_pkgs us up) i s)"
  by (simp_all add: gw_store.get_view up_store.get_view rt_store.get_view read_upstream_def split: option.splits)

lemma lists_scan:
  "\<not> scan_failed (GatewayRepository_List (qsgw_pkgs us up) off li s)"
  "list_all (\<lambda>x. \<not> up_path_null x) (upstreams (app_db s)) \<Longrightarrow>
     \<not> scan_failed (UpstreamRepository_List (qsgw_pkgs us up) off li s)"
  "\<not> scan_failed (RouteRepository_ListByGateway (qsgw_pkgs us up) i s)"
  "\<not> scan_failed (ThreatRepository_ListByGateway (qsgw_pkgs us up) i sev off li s)"
proof -
  note reads = query_scan_def scan_count_def as_int_def query_rows_page page_def invalid_value_def
  show "\<not> scan_failed (GatewayRepository_List (qsgw_pkgs us up) off li s)"
    by (simp add: GatewayRepository_List_def reads)
  have "list_all P (take m (drop n (sort_key k xs)))" if "list_all P xs" for P m n and k :: "upstream_tuple \<Rightarrow> int" and xs
    using that by (auto simp: list_all_iff dest!: in_set_takeD in_set_dropD)
  then show "\<not> scan_failed (UpstreamRepository_List (qsgw_pkgs us up) off li s)"
    if "list_all (\<lambda>x. \<not> up_path_null x) (upstreams (app_db s))"
    using that by (simp add: UpstreamRepository_List_def reads query_rows_upstreams)
  show "\<not> scan_failed (RouteRepository_ListByGateway (qsgw_pkgs us up) i s)"
    using RouteService_ListByGateway_qsgw [of us up i s] by (simp add: RouteService_ListByGateway_def)
  show "\<not> scan_failed (ThreatRepository_ListByGateway (qsgw_pkgs us up) i sev off li s)"
    by (simp add: ThreatRepository_ListByGateway_qsgw invalid_value_def)
qed

text \<open>
  After any sequence of statements, with any texts and arguments, every column of every row has a
  value of its declared type: texts within their length in characters, labels of the enums, 32-bit
  integers, timestamps in microseconds, NULL only where it is allowed. No read of a gateway, a route or
  a threat event fails because a row does not fit the variables it is scanned into; the read of an
  upstream does exactly when its path is NULL.
\<close>

theorem columns_typed:
  assumes "d = run_steps (\<lambda>(sql, args) d. snd (db_Exec d sql args)) stmts (empty_db ck z)" "app_db s = d"
  shows "db_typed d \<and>
    \<not> scan_failed (GatewayRepository_GetByID (qsgw_pkgs us up) i s) \<and>
    (scan_failed (UpstreamRepository_GetByID (qsgw_pkgs us up) i s) \<longleftrightarrow> (\<exists>x. upstream_view s i = Some x \<and> up_path_null x)) \<and>
    \<not> scan_failed (RouteRepository_GetByID (qsgw_pkgs us up) i s) \<and>
    \<not> scan_failed (GatewayRepository_List (qsgw_pkgs us up) off li s) \<and>
    (list_all (\<lambda>x. \<not> up_path_null x) (upstreams d) \<longrightarrow> \<not> scan_failed (UpstreamRepository_List (qsgw_pkgs us up) off li s)) \<and>
    \<not> scan_failed (RouteRepository_ListByGateway (qsgw_pkgs us up) i s) \<and>
    \<not> scan_failed (ThreatRepository_ListByGateway (qsgw_pkgs us up) i sev off li s)"
proof -
  have "db_typed d" unfolding assms(1) by (rule typed_run.inv_run) (simp add: db_typed_def empty_db_def)
  then show ?thesis using assms(2) by (auto simp: reads_scan lists_scan)
qed

theorem columns_typed_witness:
  "db_typed (snd (insert_gateway (app_db demo_app) demo_gateway))"
proof -
  let ?stmts = "[(sql_gateway_insert, gateway_args demo_gateway)]"
  have g: "demo_gateway\<lparr>gw_UpdatedAt := Time_zero\<rparr> = demo_gateway" by (simp add: demo_gateway_def)
  have "run_steps (\<lambda>(sql, args) d. snd (db_Exec d sql args)) ?stmts (empty_db (\<lambda>i. at_sec (int i)) 0) =
      snd (insert_gateway (app_db demo_app) demo_gateway)"
    by (simp add: db_Exec_def with_args_def demo_app_def g)
  then show ?thesis
    using columns_typed [of _ ?stmts "\<lambda>i. at_sec (int i)" 0 "demo_app\<lparr>app_db := snd (insert_gateway (app_db demo_app) demo_gateway)\<rparr>"]
    by simp
qed

end
