(* ===== verification/Router.thy ===== *)
theory Router
  imports Http
begin

text \<open>
  The router \<open>chi\<close> and its middleware, which are parameters of the server: trees of routers as the program
  builds them, what is relied on of the functions that serve them, and a small router that keeps
  this contract.
\<close>

section \<open>Routers\<close>

datatype (dead 's) chi_entry =
    Endpoint string string "'s handler"
  | Mount string "'s mux"
and (dead 's) mux = Mux "('s handler \<Rightarrow> 's handler) list" "'s chi_entry list"

record 's chi =
  chi_ServeHTTP :: "'s mux \<Rightarrow> 's handler"
  chimw_RequestID :: "'s handler \<Rightarrow> 's handler"
  chimw_RealIP :: "'s handler \<Rightarrow> 's handler"
  chimw_Logger :: "'s handler \<Rightarrow> 's handler"
  chimw_Recoverer :: "'s handler \<Rightarrow> 's handler"
  chimw_Timeout :: "duration \<Rightarrow> 's handler \<Rightarrow> 's handler"

section \<open>What is relied on of the router\<close>

text \<open>
  Routing and the infrastructure middleware hand a request on with other path parameters and another
  remote address, and change nothing else of it that the program can see. What they store in the
  context they store under keys of their own types.
\<close>

definition same_request :: "request \<Rightarrow> request \<Rightarrow> bool" where
  "same_request r r' \<longleftrightarrow> r'\<lparr>URLParams := URLParams r, RemoteAddr := RemoteAddr r\<rparr> = r"

text \<open>
  The answers 404 and 405 of the router: they leave the program's state alone and keep the headers
  that are already set, apart from the type and length of the content, \<open>Allow\<close> and the \<open>nosniff\<close> option.
\<close>

definition router_answer :: "'s \<times> rw \<Rightarrow> 's \<times> rw \<Rightarrow> bool" where
  "router_answer sw sw' \<longleftrightarrow> fst sw' = fst sw \<and>
     (rw_sent (snd sw) = None \<longrightarrow>
        (\<exists>st h. rw_sent (snd sw') = Some (st, h) \<and> st \<in> {404, 405} \<and>
           (\<forall>k. CanonicalHeaderKey k \<notin> {''Content-Type'', ''Content-Length'', ''X-Content-Type-Options'', ''Allow''} \<longrightarrow>
              Header_Get h k = Header_Get (rw_header (snd sw)) k) \<and>
           Header_Get h ''X-Content-Type-Options'' \<in> {''nosniff'', Header_Get (rw_header (snd sw)) ''X-Content-Type-Options''}))"

text \<open>
  A router runs its middleware in order, the first one outermost, around its routing; routing picks
  an endpoint of the request's method, or a mounted router whose pattern is part of the path, or
  answers itself.
\<close>

definition chi_serves :: "('s mux \<Rightarrow> 's handler) \<Rightarrow> bool" where
  "chi_serves serve \<longleftrightarrow>
     (\<forall>mws es. serve (Mux mws es) = foldr (\<lambda>m h. m h) mws (serve (Mux [] es))) \<and>
     (\<forall>es r sw.
        (\<exists>p h r'. Endpoint (Method r) p h \<in> set es \<and> same_request r r' \<and> serve (Mux [] es) r sw = h r' sw) \<or>
        (\<exists>p sub r'. Mount p sub \<in> set es \<and> (\<exists>a b. URLPath r = a @ p @ b) \<and> same_request r r' \<and>
           serve (Mux [] es) r sw = serve sub r' sw) \<or>
        router_answer sw (serve (Mux [] es) r sw))"

text \<open>Middleware that hands every request on, with its path parameters as they are.\<close>

definition transparent :: "('s handler \<Rightarrow> 's handler) \<Rightarrow> bool" where
  "transparent m \<longleftrightarrow>
     (\<forall>r sw. \<exists>r'. same_request r r' \<and> URLParams r' = URLParams r \<and> (\<forall>next. m next r sw = next r' sw))"

text \<open>
  Matching. A pattern matches a path segment by segment; the parameter \<open>{id}\<close>, the only one in the
  program, stands for a segment that is not empty. A mounted router takes its pattern and everything
  below it, and routes what is left of the path.
\<close>

fun match_segments :: "string list \<Rightarrow> string list \<Rightarrow> (string \<times> string) list option" where
  "match_segments [] [] = Some []"
| "match_segments (p # ps) (s # ss) =
     (if p = ''{id}'' then (if s = [] then None else map_option ((#) (''id'', s)) (match_segments ps ss))
      else if p = s then match_segments ps ss else None)"
| "match_segments _ _ = None"

definition match_path :: "string \<Rightarrow> string \<Rightarrow> (string \<times> string) list option" where
  "match_path p q = match_segments (Split CHR ''/'' p) (Split CHR ''/'' q)"

definition mount_rest :: "string \<Rightarrow> string \<Rightarrow> string option" where
  "mount_rest p q =
     (let rest = drop (length p) q in
      if take (length p) q \<noteq> p then None
      else if rest = [] then Some ''/'' else if hd rest = CHR ''/'' then Some rest else None)"

definition entry_matches :: "'s chi_entry \<Rightarrow> string \<Rightarrow> string \<Rightarrow> bool" where
  "entry_matches e m q \<longleftrightarrow>
     (case e of Endpoint m' p h \<Rightarrow> m' = m \<and> match_path p q \<noteq> None | Mount p sub \<Rightarrow> mount_rest p q \<noteq> None)"

text \<open>
  Where exactly one entry of a router matches what is left of the path (\<open>rp\<close>), the request goes there.
  What is left is the path of the URL at first; it is part of the routing context, which middleware
  keeps.
\<close>

definition chi_routes :: "(request \<Rightarrow> string) \<Rightarrow> ('s mux \<Rightarrow> 's handler) \<Rightarrow> bool" where
  "chi_routes rp serve \<longleftrightarrow>
     (\<forall>r. URLParams r = Map.empty \<longrightarrow> rp r = URLPath r) \<and>
     (\<forall>r r'. URLPath r' = URLPath r \<and> URLParams r' = URLParams r \<longrightarrow> rp r' = rp r) \<and>
     (\<forall>es m p h ps r sw.
        Endpoint m p h \<in> set es \<and> (\<forall>e \<in> set es. entry_matches e (Method r) (rp r) \<longleftrightarrow> e = Endpoint m p h) \<and>
        match_path p (rp r) = Some ps \<and> distinct (map fst ps) \<longrightarrow>
        (\<exists>up. (\<forall>(k, v) \<in> set ps. URLParam (r\<lparr>URLParams := up\<rparr>) k = v) \<and>
              serve (Mux [] es) r sw = h (r\<lparr>URLParams := up\<rparr>) sw)) \<and>
     (\<forall>es p sub a b q r sw.
        Mount p sub \<in> set es \<and> (\<forall>e \<in> set es. entry_matches e (Method r) (rp r) \<longleftrightarrow> e = Mount p sub) \<and>
        mount_rest p (rp r) = Some q \<and> URLPath r = a @ p @ b \<longrightarrow>
        (\<exists>up. rp (r\<lparr>URLParams := up\<rparr>) = q \<and> serve (Mux [] es) r sw = serve sub (r\<lparr>URLParams := up\<rparr>) sw))"

lemma same_request_simps:
  assumes "same_request r r'"
  shows "Method r' = Method r" "URLPath r' = URLPath r" "ReqHeader r' = ReqHeader r" "Body r' = Body r"
    "BodyMax r' = BodyMax r" "ContentLength r' = ContentLength r" "RawQuery r' = RawQuery r" "Ctx r' = Ctx r"
  using assms by (cases r; cases r'; simp add: same_request_def)+

lemma same_request_trans: "same_request r r' \<Longrightarrow> same_request r' r'' \<Longrightarrow> same_request r r''"
  by (cases r; cases r'; cases r'') (simp add: same_request_def)

lemma foldr_transparent:
  assumes "list_all transparent ms"
  shows "\<exists>r'. same_request r r' \<and> URLParams r' = URLParams r \<and> (\<forall>h. foldr (\<lambda>m h. m h) ms h r sw = h r' sw)"
  using assms
proof (induction ms arbitrary: r)
  case Nil
  show ?case by (rule exI [of _ r]) (simp add: same_request_def)
next
  case (Cons m ms)
  then have "transparent m" by simp
  then obtain r1 where r1: "same_request r r1" "URLParams r1 = URLParams r" "\<forall>next. m next r sw = next r1 sw"
    unfolding transparent_def by blast
  obtain r2 where r2: "same_request r1 r2" "URLParams r2 = URLParams r1" "\<forall>h. foldr (\<lambda>m h. m h) ms h r1 sw = h r2 sw"
    using Cons by auto
  show ?case using same_request_trans [OF r1(1) r2(1)] r1(2,3) r2(2,3) by auto
qed

text \<open>A postcondition of a router from its endpoints and mounted routers.\<close>

lemma routed:
  assumes "chi_serves serve"
    and "\<And>p h r'. Endpoint (Method r) p h \<in> set es \<Longrightarrow> same_request r r' \<Longrightarrow> R (h r' sw)"
    and "\<And>p sub r' a b. Mount p sub \<in> set es \<Longrightarrow> URLPath r = a @ p @ b \<Longrightarrow> same_request r r' \<Longrightarrow> R (serve sub r' sw)"
    and "\<And>sw'. router_answer sw sw' \<Longrightarrow> R sw'"
  shows "R (serve (Mux [] es) r sw)"
proof -
  from assms(1) consider
      p h r' where "Endpoint (Method r) p h \<in> set es" "same_request r r'" "serve (Mux [] es) r sw = h r' sw"
    | p sub r' a b where "Mount p sub \<in> set es" "URLPath r = a @ p @ b" "same_request r r'"
        "serve (Mux [] es) r sw = serve sub r' sw"
    | "router_answer sw (serve (Mux [] es) r sw)"
    unfolding chi_serves_def by blast
  then show ?thesis
  proof cases
    case 1
    then show ?thesis using assms(2) by simp
  next
    case 2
    then show ?thesis using assms(3) by metis
  next
    case 3
    then show ?thesis by (rule assms(4))
  qed
qed

lemma served: "chi_serves serve \<Longrightarrow> serve (Mux mws es) = foldr (\<lambda>m h. m h) mws (serve (Mux [] es))"
  unfolding chi_serves_def by blast

section \<open>A router\<close>

text \<open>
  A small router with the contract: the first entry that matches is taken; the rest of the path
  behind a mounted pattern is kept under the parameter \<open>*\<close>.
\<close>

definition route_path :: "request \<Rightarrow> string" where
  "route_path r = (case URLParams r ''*'' of Some q \<Rightarrow> q | None \<Rightarrow> URLPath r)"

definition occurs :: "string \<Rightarrow> string \<Rightarrow> bool" where
  "occurs p s \<longleftrightarrow> list_ex (\<lambda>i. take (length p) (drop i s) = p) [0..<Suc (length s)]"

lemma occursD: "occurs p s \<Longrightarrow> \<exists>a b. s = a @ p @ b"
  unfolding occurs_def list_ex_iff by (metis append_take_drop_id)

definition not_found :: "'s handler" where
  "not_found r sw = (fst sw, WriteHeader 404 (SetHeader ''Content-Type'' ''text/plain; charset=utf-8'' (snd sw)))"

fun simple_serve :: "'s mux \<Rightarrow> 's handler" and simple_route :: "'s chi_entry list \<Rightarrow> 's handler" where
  "simple_serve (Mux mws es) = foldr (\<lambda>m h. m h) mws (simple_route es)"
| "simple_route [] = not_found"
| "simple_route (Endpoint m p h # es) = (\<lambda>r sw.
     case match_path p (route_path r) of
       Some ps \<Rightarrow> if m = Method r then h (r\<lparr>URLParams := map_of ps\<rparr>) sw else simple_route es r sw
     | None \<Rightarrow> simple_route es r sw)"
| "simple_route (Mount p sub # es) = (\<lambda>r sw.
     case mount_rest p (route_path r) of
       Some q \<Rightarrow> if occurs p (URLPath r) then simple_serve sub (r\<lparr>URLParams := [''*'' \<mapsto> q]\<rparr>) sw
                 else simple_route es r sw
     | None \<Rightarrow> simple_route es r sw)"

definition simple_chi :: "'s chi" where
  "simple_chi = \<lparr>chi_ServeHTTP = simple_serve, chimw_RequestID = (\<lambda>h. h), chimw_RealIP = (\<lambda>h. h),
     chimw_Logger = (\<lambda>h. h), chimw_Recoverer = (\<lambda>h. h), chimw_Timeout = (\<lambda>_ h. h)\<rparr>"

lemma same_request_params [simp]: "same_request r (r\<lparr>URLParams := ps\<rparr>)"
  by (simp add: same_request_def)

lemma simple_route_cases:
  "(\<exists>p h r'. Endpoint (Method r) p h \<in> set es \<and> same_request r r' \<and> simple_route es r sw = h r' sw) \<or>
   (\<exists>p sub r'. Mount p sub \<in> set es \<and> (\<exists>a b. URLPath r = a @ p @ b) \<and> same_request r r' \<and>
      simple_route es r sw = simple_serve sub r' sw) \<or>
   router_answer sw (simple_route es r sw)"
proof (induction es)
  case Nil
  show ?case
    by (auto simp: router_answer_def not_found_def Header_Get_Set split: option.splits)
next
  case (Cons e es)
  show ?case
  proof (cases e)
    case (Endpoint m p h)
    show ?thesis
    proof (cases "m = Method r \<and> match_path p (route_path r) \<noteq> None")
      case True
      then obtain ps where "simple_route (e # es) r sw = h (r\<lparr>URLParams := map_of ps\<rparr>) sw" using Endpoint by auto
      then show ?thesis using Endpoint True
        by (intro disjI1 exI [of _ p] exI [of _ h] exI [of _ "r\<lparr>URLParams := map_of ps\<rparr>"]) simp
    next
      case False
      then have "simple_route (e # es) r sw = simple_route es r sw" using Endpoint by (auto split: option.splits)
      then show ?thesis using Cons.IH unfolding list.set(2) insert_iff by metis
    qed
  next
    case (Mount p sub)
    show ?thesis
    proof (cases "mount_rest p (route_path r) \<noteq> None \<and> occurs p (URLPath r)")
      case True
      then obtain q where "simple_route (e # es) r sw = simple_serve sub (r\<lparr>URLParams := [''*'' \<mapsto> q]\<rparr>) sw"
        using Mount by auto
      then obtain r' where r': "same_request r r'" "simple_route (e # es) r sw = simple_serve sub r' sw"
        using same_request_params by blast
      have "Mount p sub \<in> set (e # es)" using Mount by simp
      then show ?thesis using r' occursD True by blast
    next
      case False
      then have "simple_route (e # es) r sw = simple_route es r sw" using Mount by (auto split: option.splits)
      then show ?thesis using Cons.IH unfolding list.set(2) insert_iff by metis
    qed
  qed
qed

lemma simple_serve_serves: "chi_serves simple_serve"
  unfolding chi_serves_def
proof (intro conjI allI)
  fix mws and es :: "'a chi_entry list"
  show "simple_serve (Mux mws es) = foldr (\<lambda>m h. m h) mws (simple_serve (Mux [] es))" by simp
next
  fix es :: "'a chi_entry list" and r and sw :: "'a \<times> rw"
  have eq: "simple_serve (Mux [] es) = simple_route es" by simp
  show "(\<exists>p h r'. Endpoint (Method r) p h \<in> set es \<and> same_request r r' \<and> simple_serve (Mux [] es) r sw = h r' sw) \<or>
      (\<exists>p sub r'. Mount p sub \<in> set es \<and> (\<exists>a b. URLPath r = a @ p @ b) \<and> same_request r r' \<and>
         simple_serve (Mux [] es) r sw = simple_serve sub r' sw) \<or>
      router_answer sw (simple_serve (Mux [] es) r sw)"
    unfolding eq by (rule simple_route_cases)
qed


text \<open>The entry that alone matches is the one that is taken.\<close>

lemma occursI: "s = a @ p @ b \<Longrightarrow> occurs p s"
  by (force simp: occurs_def list_ex_iff intro!: bexI [of _ "length a"])

lemma simple_route_Endpoint:
  assumes "Endpoint m p h \<in> set es" "\<forall>e \<in> set es. entry_matches e (Method r) (route_path r) \<longleftrightarrow> e = Endpoint m p h"
    and "match_path p (route_path r) = Some ps"
  shows "simple_route es r sw = h (r\<lparr>URLParams := map_of ps\<rparr>) sw"
  using assms(1,2)
proof (induction es)
  case (Cons e es)
  show ?case
  proof (cases "e = Endpoint m p h")
    case True
    then have "m = Method r" using Cons.prems(2) by (simp add: entry_matches_def)
    then show ?thesis using True assms(3) by simp
  next
    case False
    then have "\<not> entry_matches e (Method r) (route_path r)" using Cons.prems(2) by simp
    then have "simple_route (e # es) r sw = simple_route es r sw"
      by (cases e) (auto simp: entry_matches_def split: option.splits)
    then show ?thesis using Cons False by auto
  qed
qed simp

lemma simple_route_Mount:
  assumes "Mount p sub \<in> set es" "\<forall>e \<in> set es. entry_matches e (Method r) (route_path r) \<longleftrightarrow> e = Mount p sub"
    and "mount_rest p (route_path r) = Some q" "URLPath r = a @ p @ b"
  shows "simple_route es r sw = simple_serve sub (r\<lparr>URLParams := [''*'' \<mapsto> q]\<rparr>) sw"
  using assms(1,2)
proof (induction es)
  case (Cons e es)
  show ?case
  proof (cases "e = Mount p sub")
    case True
    then show ?thesis using assms(3) occursI [OF assms(4)] by (simp add: fun_upd_def)
  next
    case False
    then have "\<not> entry_matches e (Method r) (route_path r)" using Cons.prems(2) by simp
    then have "simple_route (e # es) r sw = simple_route es r sw"
      by (cases e) (auto simp: entry_matches_def split: option.splits)
    then show ?thesis using Cons False by auto
  qed
qed simp

lemma simple_serve_routes: "chi_routes route_path simple_serve"
proof -
  have ep: "\<exists>up. (\<forall>(k, v) \<in> set ps. URLParam (r\<lparr>URLParams := up\<rparr>) k = v) \<and>
      simple_serve (Mux [] es) r sw = h (r\<lparr>URLParams := up\<rparr>) sw"
    if "Endpoint m p h \<in> set es" "\<forall>e \<in> set es. entry_matches e (Method r) (route_path r) \<longleftrightarrow> e = Endpoint m p h"
      "match_path p (route_path r) = Some ps" "distinct (map fst ps)" for es m p h ps r and sw :: "'a \<times> rw"
    using simple_route_Endpoint [OF that(1-3), of sw] that(4)
    by (intro exI [of _ "map_of ps"]) (auto simp: URLParam_def)
  have mount: "\<exists>up. route_path (r\<lparr>URLParams := up\<rparr>) = q \<and>
      simple_serve (Mux [] es) r sw = simple_serve sub (r\<lparr>URLParams := up\<rparr>) sw"
    if "Mount p sub \<in> set es" "\<forall>e \<in> set es. entry_matches e (Method r) (route_path r) \<longleftrightarrow> e = Mount p sub"
      "mount_rest p (route_path r) = Some q" "URLPath r = a @ p @ b" for es p sub a b q r and sw :: "'a \<times> rw"
    using simple_route_Mount [OF that, of sw]
    by (intro exI [of _ "[''*'' \<mapsto> q]"]) (simp add: route_path_def)
  have path: "\<forall>r. URLParams r = Map.empty \<longrightarrow> route_path r = URLPath r"
    "\<forall>r r'. URLPath r' = URLPath r \<and> URLParams r' = URLParams r \<longrightarrow> route_path r' = route_path r"
    by (simp_all add: route_path_def split: option.splits)
  show ?thesis
    unfolding chi_routes_def
    by (intro conjI path) (intro allI impI, elim conjE, rule ep mount; assumption)+
qed

end
