(* ===== verification/Server.thy ===== *)
theory Server
  imports Api Security Config Pool Router
begin

text \<open>
  The server, \<open>src/control-plane/cmd/server/main.go\<close>, and the routes of the handlers: the tree of
  routers with its middleware in the order of the calls of \<open>Use\<close>, start-up and shutdown. Panics,
  timeouts and the log are left out.
\<close>

section \<open>The routing tables\<close>

definition GatewayHandler_Routes :: "'d pkgs \<Rightarrow> ('d, 'a) app_scheme mux" where
  "GatewayHandler_Routes pk = Mux []
     [Endpoint ''POST'' ''/'' (GatewayHandler_Create pk), Endpoint ''GET'' ''/'' (GatewayHandler_List pk),
      Endpoint ''GET'' ''/{id}'' (GatewayHandler_Get pk),
      Endpoint ''POST'' ''/{id}/activate'' (GatewayHandler_Activate pk),
      Endpoint ''POST'' ''/{id}/deactivate'' (GatewayHandler_Deactivate pk)]"

definition UpstreamHandler_Routes :: "'d pkgs \<Rightarrow> ('d, 'a) app_scheme mux" where
  "UpstreamHandler_Routes pk = Mux []
     [Endpoint ''POST'' ''/'' (UpstreamHandler_Create pk), Endpoint ''GET'' ''/'' (UpstreamHandler_List pk),
      Endpoint ''GET'' ''/{id}'' (UpstreamHandler_Get pk)]"

definition RouteHandler_Routes :: "'d pkgs \<Rightarrow> ('d, 'a) app_scheme mux" where
  "RouteHandler_Routes pk = Mux []
     [Endpoint ''POST'' ''/'' (RouteHandler_Create pk), Endpoint ''GET'' ''/'' (RouteHandler_List pk),
      Endpoint ''DELETE'' ''/{id}'' (RouteHandler_Delete pk)]"

definition ThreatHandler_Routes :: "'d pkgs \<Rightarrow> ('d, 'a) app_scheme mux" where
  "ThreatHandler_Routes pk = Mux [] [Endpoint ''GET'' ''/'' (ThreatHandler_List pk)]"

section \<open>main\<close>

definition auth_config :: "Config \<Rightarrow> AuthConfig" where
  "auth_config cfg =
     \<lparr>JWTSecret = cfg_JWTSecret cfg, JWTIssuer = cfg_JWTIssuer cfg, APIKeys = ParseAPIKeyEntries (cfg_APIKeys cfg),
      SkipPaths = [''/health'']\<rparr>"

definition auth_enabled :: "Config \<Rightarrow> bool" where
  "auth_enabled cfg \<longleftrightarrow> cfg_JWTSecret cfg \<noteq> [] \<or> length (cfg_APIKeys cfg) > 0"

definition api_entries :: "'d pkgs \<Rightarrow> ('d, 'a) app_scheme chi_entry list" where
  "api_entries pk =
     [Mount ''/gateways'' (GatewayHandler_Routes pk), Mount ''/upstreams'' (UpstreamHandler_Routes pk),
      Mount ''/routes'' (RouteHandler_Routes pk), Mount ''/threats'' (ThreatHandler_Routes pk)]"

definition api_mux :: "'d pkgs \<Rightarrow> Config \<Rightarrow> ('d, 'a) app_scheme mux" where
  "api_mux pk cfg = Mux (if auth_enabled cfg then [Auth (auth_config cfg)] else []) (api_entries pk)"

definition infra_middleware :: "'s chi \<Rightarrow> ('s handler \<Rightarrow> 's handler) list" where
  "infra_middleware ch =
     [chimw_RequestID ch, chimw_RealIP ch, chimw_Logger ch, chimw_Recoverer ch, chimw_Timeout ch (30 * Second)]"

definition cors_config :: "Config \<Rightarrow> CORSConfig" where
  "cors_config cfg = DefaultCORSConfig\<lparr>AllowedOrigins := cfg_CORSOrigins cfg\<rparr>"

definition own_middleware :: "Config \<Rightarrow> (('d, 'a) app_scheme handler \<Rightarrow> ('d, 'a) app_scheme handler) list" where
  "own_middleware cfg =
     [SecurityHeaders DefaultSecurityHeadersConfig, MaxBodySize (cfg_MaxBodyBytes cfg)]
     @ (if length (cfg_CORSOrigins cfg) > 0 then [CORS (cors_config cfg)] else [])
     @ [RateLimiter_Middleware]"

definition server_mux :: "('d, 'a) app_scheme chi \<Rightarrow> 'd pkgs \<Rightarrow> Config \<Rightarrow> ('d, 'a) app_scheme mux" where
  "server_mux ch pk cfg =
     Mux (infra_middleware ch @ own_middleware cfg)
       [Endpoint ''GET'' ''/health'' HealthHandler_Check, Mount ''/api/v1'' (api_mux pk cfg)]"

definition server :: "('d, 'a) app_scheme chi \<Rightarrow> 'd pkgs \<Rightarrow> Config \<Rightarrow> ('d, 'a) app_scheme handler" where
  "server ch pk cfg = chi_ServeHTTP ch (server_mux ch pk cfg)"

record http_Server =
  srv_Addr :: string
  srv_ReadTimeout :: duration
  srv_WriteTimeout :: duration
  srv_IdleTimeout :: duration

definition http_server :: "Config \<Rightarrow> http_Server" where
  "http_server cfg =
     \<lparr>srv_Addr = '':'' @ cfg_Port cfg, srv_ReadTimeout = 10 * Second, srv_WriteTimeout = 30 * Second,
      srv_IdleTimeout = 60 * Second\<rparr>"

text \<open>Start-up ends in \<open>logger.Fatal\<close> or with a server, the pool and a fresh rate limiter.\<close>

datatype 'p started = Fatal string | Serving Config http_Server 'p RateLimiter

definition main_start :: "environment \<Rightarrow> ('r, 'p, 'w) pgxpool \<Rightarrow> 'w \<Rightarrow> 'p started \<times> 'w" where
  "main_start env pg w =
     (case Load env of
        Inl e \<Rightarrow> (Fatal ''failed to load config'', w)
      | Inr cfg \<Rightarrow>
          (case NewPool pg (DefaultPoolConfig (cfg_DatabaseURL cfg)) w of
             (Inl e, w') \<Rightarrow> (Fatal ''failed to connect to database'', w')
           | (Inr pool, w') \<Rightarrow>
               (Serving cfg (http_server cfg) pool (NewRateLimiter DefaultRateLimitConfig), w')))"

text \<open>
  After start-up the server runs until it fails or a signal comes; \<open>Shutdown\<close> then waits for the
  running requests, at most ten seconds. Package \<open>net/http\<close> is a parameter: each of its two functions
  gives an error or none, and the limiter and the outside world afterwards. \<open>logger.Fatal\<close> ends the
  process with none of the deferred calls; a return runs them, the last one first. Stopping a stopped
  limiter panics: \<open>None\<close>.
\<close>

record 'w net_http =
  net_Serve :: "http_Server \<Rightarrow> RateLimiter \<times> 'w \<Rightarrow> string option \<times> RateLimiter \<times> 'w"
  net_Shutdown :: "http_Server \<Rightarrow> duration \<Rightarrow> RateLimiter \<times> 'w \<Rightarrow> string option \<times> RateLimiter \<times> 'w"

datatype 'p deferred = SyncLogger | ClosePool 'p | StopLimiter | CancelContext

fun run_deferred :: "('r, 'p, 'w) pgxpool \<Rightarrow> 'p deferred list \<Rightarrow> RateLimiter \<times> 'w \<Rightarrow> (RateLimiter \<times> 'w) option" where
  "run_deferred pg [] (rl, w) = Some (rl, w)"
| "run_deferred pg (SyncLogger # ds) (rl, w) = run_deferred pg ds (rl, w)"
| "run_deferred pg (ClosePool p # ds) (rl, w) = run_deferred pg ds (rl, Close pg p w)"
| "run_deferred pg (StopLimiter # ds) (rl, w) =
     (case RateLimiter_Stop rl of None \<Rightarrow> None | Some rl' \<Rightarrow> run_deferred pg ds (rl', w))"
| "run_deferred pg (CancelContext # ds) (rl, w) = run_deferred pg ds (rl, w)"

datatype exit_kind = FatalExit string | Panicked | Returned

definition main_run :: "environment \<Rightarrow> ('r, 'p, 'w) pgxpool \<Rightarrow> 'w net_http \<Rightarrow> 'w \<Rightarrow> exit_kind \<times> RateLimiter option \<times> 'w" where
  "main_run env pg net w =
     (case main_start env pg w of
        (Fatal m, w1) \<Rightarrow> (FatalExit m, None, w1)
      | (Serving cfg srv pool rl, w1) \<Rightarrow>
          let ds = [StopLimiter, ClosePool pool, SyncLogger] in
          (case net_Serve net srv (rl, w1) of
             (Some e, rl2, w2) \<Rightarrow> (FatalExit ''server error'', Some rl2, w2)
           | (None, rl2, w2) \<Rightarrow>
               (case net_Shutdown net srv (10 * Second) (rl2, w2) of
                  (Some e, rl3, w3) \<Rightarrow> (FatalExit ''server forced to shutdown'', Some rl3, w3)
                | (None, rl3, w3) \<Rightarrow>
                    (case run_deferred pg (CancelContext # ds) (rl3, w3) of
                       None \<Rightarrow> (Panicked, Some rl3, w3)
                     | Some (rl4, w4) \<Rightarrow> (Returned, Some rl4, w4)))))"

section \<open>What is relied on of chi\<close>

definition chi_ok :: "'s chi \<Rightarrow> bool" where
  "chi_ok ch \<longleftrightarrow> chi_serves (chi_ServeHTTP ch) \<and> list_all transparent (infra_middleware ch)"

section \<open>Routing to the endpoints\<close>

text \<open>The endpoints of the API, whichever router they are mounted on.\<close>

lemma api_endpoint:
  assumes "Mount p sub \<in> set (api_entries pk)"
  shows "\<exists>es. sub = Mux [] es \<and> (\<forall>e \<in> set es. \<exists>m q h. e = Endpoint m q h \<and> h \<in> set (api_handlers pk))"
  using assms by (auto simp: api_entries_def GatewayHandler_Routes_def UpstreamHandler_Routes_def RouteHandler_Routes_def
      ThreatHandler_Routes_def api_handlers_def)

lemma api_routed:
  fixes pk :: "'d pkgs" and serve :: "('d, 'a) app_scheme mux \<Rightarrow> ('d, 'a) app_scheme handler"
  assumes "chi_serves serve"
    and "\<And>h r'. h \<in> set (api_handlers pk) \<Longrightarrow> same_request r r' \<Longrightarrow> R (h r' sw)"
    and "\<And>sw'. router_answer sw sw' \<Longrightarrow> R sw'"
  shows "R (serve (Mux [] (api_entries pk)) r sw)"
proof (rule routed [OF assms(1)])
  fix p r' a b and sub :: "('d, 'a) app_scheme mux"
  assume sub: "Mount p sub \<in> set (api_entries pk)" and r': "same_request r r'"
  obtain es where es: "sub = Mux [] es" "\<forall>e \<in> set es. \<exists>m q h. e = Endpoint m q h \<and> h \<in> set (api_handlers pk)"
    using api_endpoint [OF sub] by blast
  show "R (serve sub r' sw)"
    unfolding es(1)
  proof (rule routed [OF assms(1)])
    fix q h r''
    assume "Endpoint (Method r') q h \<in> set es" "same_request r' r''"
    then show "R (h r'' sw)" using es(2) assms(2) same_request_trans [OF r'] by blast
  qed (use es(2) assms(3) in auto)
qed (use assms(3) in \<open>auto simp: api_entries_def\<close>)

section \<open>Security headers on every answer\<close>

definition security_names :: "string list" where
  "security_names = [''X-Content-Type-Options'', ''X-Frame-Options'', ''X-Xss-Protection'', ''Content-Security-Policy'',
     ''Referrer-Policy'', ''Permissions-Policy'', ''Cache-Control'', ''Strict-Transport-Security'']"

lemma has_security_headers_cong:
  assumes "has_security_headers c h"
    and "\<And>k. CanonicalHeaderKey k \<in> set security_names \<Longrightarrow> Header_Get h' k = Header_Get h k"
  shows "has_security_headers c h'"
proof -
  have "Header_Get h' ''X-Content-Type-Options'' = Header_Get h ''X-Content-Type-Options''"
    "Header_Get h' ''X-Frame-Options'' = Header_Get h ''X-Frame-Options''"
    "Header_Get h' ''X-XSS-Protection'' = Header_Get h ''X-XSS-Protection''"
    "Header_Get h' ''Content-Security-Policy'' = Header_Get h ''Content-Security-Policy''"
    "Header_Get h' ''Referrer-Policy'' = Header_Get h ''Referrer-Policy''"
    "Header_Get h' ''Permissions-Policy'' = Header_Get h ''Permissions-Policy''"
    "Header_Get h' ''Cache-Control'' = Header_Get h ''Cache-Control''"
    "Header_Get h' ''Strict-Transport-Security'' = Header_Get h ''Strict-Transport-Security''"
    by (rule assms(2), simp add: security_names_def)+
  then show ?thesis using assms(1) unfolding has_security_headers_def by argo
qed

lemma has_security_headers_Set:
  assumes "has_security_headers c h" "CanonicalHeaderKey k \<notin> set security_names"
  shows "has_security_headers c (Header_Set h k v)" "has_security_headers c (Header_Add h k v)"
proof -
  have "CanonicalHeaderKey k' \<noteq> CanonicalHeaderKey k" if "CanonicalHeaderKey k' \<in> set security_names" for k'
    using that assms(2) by metis
  then show "has_security_headers c (Header_Set h k v)" "has_security_headers c (Header_Add h k v)"
    using has_security_headers_cong [OF assms(1)] by (simp_all add: Header_Get_Set Header_Get_Add_other)
qed

definition ready :: "SecurityHeadersConfig \<Rightarrow> 's \<times> rw \<Rightarrow> bool" where
  "ready c sw \<longleftrightarrow> rw_sent (snd sw) = None \<and> has_security_headers c (rw_header (snd sw))"

definition secured :: "SecurityHeadersConfig \<Rightarrow> 's \<times> rw \<Rightarrow> bool" where
  "secured c sw \<longleftrightarrow> (\<exists>st h. rw_sent (snd sw) = Some (st, h) \<and> has_security_headers c h)"

lemma secured_writeAuthError:
  "rw_sent w = None \<Longrightarrow> has_security_headers c (rw_header w) \<Longrightarrow> secured c (s, writeAuthError st m w)"
  by (simp add: secured_def writeAuthError_def has_security_headers_Set security_names_def)

lemma secured_writeJSON: "ready c (s, w) \<Longrightarrow> secured c (s', writeJSON st v w)"
  by (simp add: secured_def ready_def rw_sent_writeJSON has_security_headers_Set security_names_def)

lemma secured_answers: "answers h \<Longrightarrow> ready c sw \<Longrightarrow> secured c (h r sw)"
  unfolding answers_def by (metis prod.collapse secured_writeJSON)

lemma secured_router_answer: "router_answer sw sw' \<Longrightarrow> ready c sw \<Longrightarrow> secured c sw'"
  by (auto simp: router_answer_def ready_def secured_def has_security_headers_def)

lemma has_security_headers_setRateLimitHeaders:
  "has_security_headers c (rw_header w) \<Longrightarrow> has_security_headers c (rw_header (setRateLimitHeaders l m d w))"
  by (simp add: setRateLimitHeaders_def has_security_headers_Set security_names_def)

lemma rw_sent_setRateLimitHeaders [simp]: "rw_sent (setRateLimitHeaders l m d w) = rw_sent w"
  by (simp add: setRateLimitHeaders_def)

lemma rl_gate_ready:
  assumes "ready c sw"
  shows "rl_gate r sw = Inl sw' \<Longrightarrow> secured c sw'" "rl_gate r sw = Inr (r', sw') \<Longrightarrow> ready c sw'"
proof -
  obtain s w where sw: "sw = (s, w)" by (cases sw)
  have w: "rw_sent w = None" "has_security_headers c (rw_header w)" using assms by (simp_all add: ready_def sw)
  obtain d rl' where d: "rl_admit (limiter s) (rate_key (rl_cfg (limiter s)) r) (clock s 0) = (d, rl')" by fastforce
  show "secured c sw'" if "rl_gate r sw = Inl sw'"
    using that d w by (cases d)
      (auto simp: rl_gate_def sw Let_def has_security_headers_setRateLimitHeaders has_security_headers_Set security_names_def
        intro!: secured_writeAuthError split: if_splits)
  show "ready c sw'" if "rl_gate r sw = Inr (r', sw')"
    using that d w by (cases d)
      (auto simp: rl_gate_def sw Let_def ready_def has_security_headers_setRateLimitHeaders split: if_splits)
qed

lemma has_security_headers_cors:
  "has_security_headers c (rw_header w) \<Longrightarrow> has_security_headers c (rw_header (cors_headers cc orig w))"
  "has_security_headers c (rw_header w) \<Longrightarrow> has_security_headers c (rw_header (preflight_headers cc w))"
  by (simp_all add: cors_headers_def preflight_headers_def Let_def has_security_headers_Set security_names_def)

lemma cors_gate_ready:
  assumes "ready c sw"
  shows "cors_gate cc r sw = Inl sw' \<Longrightarrow> secured c sw'" "cors_gate cc r sw = Inr (r', sw') \<Longrightarrow> ready c sw'"
  using assms by (auto simp: cors_gate_def Let_def ready_def secured_def has_security_headers_cors preflight_headers_get
      split: if_splits)

lemma body_gate_ready:
  assumes "ready c sw"
  shows "body_gate n r sw = Inl sw' \<Longrightarrow> secured c sw'" "body_gate n r sw = Inr (r', sw') \<Longrightarrow> ready c sw'"
  using assms by (auto simp: body_gate_def ready_def secured_writeAuthError split: if_splits)

lemma auth_gate_ready:
  assumes "ready c sw"
  shows "auth_gate cfg r sw = Inl sw' \<Longrightarrow> secured c sw'" "auth_gate cfg r sw = Inr (r', sw') \<Longrightarrow> ready c sw'"
  using assms by (cases sw; auto simp: auth_gate_def Let_def ready_def secured_writeAuthError split: if_splits sum.splits)+

text \<open>The server as its own middleware around the routing.\<close>

definition root_entries :: "'d pkgs \<Rightarrow> Config \<Rightarrow> ('d, 'a) app_scheme chi_entry list" where
  "root_entries pk cfg = [Endpoint ''GET'' ''/health'' HealthHandler_Check, Mount ''/api/v1'' (api_mux pk cfg)]"

text \<open>
  The remote address with which the infrastructure middleware hands a request on, \<open>RealIP\<close> among them: what a
  handler behind them would write down.
\<close>

definition seen_addr :: "'s chi \<Rightarrow> request \<Rightarrow> 's \<times> rw \<Rightarrow> string" where
  "seen_addr ch r sw = rw_body (snd (foldr (\<lambda>m h. m h) (infra_middleware ch)
     (\<lambda>r' sw'. (fst sw', (snd sw')\<lparr>rw_body := RemoteAddr r'\<rparr>)) r sw))"

lemma server_own:
  assumes "chi_ok ch"
  shows "\<exists>r'. same_request r r' \<and> URLParams r' = URLParams r \<and> RemoteAddr r' = seen_addr ch r sw \<and> server ch pk cfg r sw =
    foldr (\<lambda>m h. m h) (own_middleware cfg) (chi_ServeHTTP ch (Mux [] (root_entries pk cfg))) r' sw"
proof -
  have "server ch pk cfg = foldr (\<lambda>m h. m h) (infra_middleware ch)
      (foldr (\<lambda>m h. m h) (own_middleware cfg) (chi_ServeHTTP ch (Mux [] (root_entries pk cfg))))"
    using assms unfolding server_def server_mux_def root_entries_def [symmetric] chi_ok_def
    by (subst served) simp_all
  moreover obtain r' where "same_request r r'" "URLParams r' = URLParams r"
      "\<And>h. foldr (\<lambda>m h. m h) (infra_middleware ch) h r sw = h r' sw"
    using assms foldr_transparent [of "infra_middleware ch" r sw] unfolding chi_ok_def by blast
  ultimately show ?thesis by (intro exI [of _ r']) (simp add: seen_addr_def)
qed

lemma answers_api: "h \<in> set (api_handlers pk) \<Longrightarrow> answers h"
  unfolding api_handlers_def by (auto simp: answers_handlers)

lemma api_secured:
  assumes "chi_serves serve" "ready c sw"
  shows "secured c (serve (api_mux pk cfg) r sw)"
proof -
  have inner: "secured c (serve (Mux [] (api_entries pk)) r sw)" if "ready c sw" for r sw
    by (rule api_routed [OF assms(1)])
      (auto intro: secured_answers [OF answers_api] secured_router_answer that)
  have "serve (api_mux pk cfg) =
      (if auth_enabled cfg then Auth (auth_config cfg) (serve (Mux [] (api_entries pk))) else serve (Mux [] (api_entries pk)))"
    unfolding api_mux_def by (subst served [OF assms(1)]) simp
  moreover have "secured c (Auth (auth_config cfg) (serve (Mux [] (api_entries pk))) r sw)"
    by (rule auth.wrapped [where Q = "\<lambda>_. ready c"]) (use auth_gate_ready [OF assms(2)] inner in blast)+
  ultimately show ?thesis using inner [OF assms(2)] by simp
qed

lemma root_secured:
  assumes "chi_serves serve" "ready c sw"
  shows "secured c (serve (Mux [] (root_entries pk cfg)) r sw)"
  by (rule routed [OF assms(1)])
    (auto simp: root_entries_def intro: secured_answers [OF answers_handlers(1)] secured_router_answer
      api_secured [OF assms(1)] assms(2))

lemma own_secured:
  assumes "rw_sent (snd sw) = None" "\<And>r sw. ready DefaultSecurityHeadersConfig sw \<Longrightarrow> secured DefaultSecurityHeadersConfig (h r sw)"
  shows "secured DefaultSecurityHeadersConfig (foldr (\<lambda>m h. m h) (own_middleware cfg) h r sw)"
proof -
  let ?c = DefaultSecurityHeadersConfig
  have rl: "secured ?c (RateLimiter_Middleware h r sw)" if "ready ?c sw" for r sw
    by (rule rlim.wrapped [where Q = "\<lambda>_. ready ?c"]) (use rl_gate_ready [OF that] assms(2) in blast)+
  let ?h = "if length (cfg_CORSOrigins cfg) > 0 then CORS (cors_config cfg) (RateLimiter_Middleware h)
      else RateLimiter_Middleware h"
  have cors: "secured ?c (?h r sw)" if "ready ?c sw" for r sw
  proof -
    have "secured ?c (CORS (cors_config cfg) (RateLimiter_Middleware h) r sw)"
      by (rule cors.wrapped [where Q = "\<lambda>_. ready ?c"]) (use cors_gate_ready [OF that] rl in blast)+
    then show ?thesis using rl [OF that] by simp
  qed
  have body: "secured ?c (MaxBodySize n ?h r sw)" if "ready ?c sw" for n r sw
    by (rule mbs.wrapped [where Q = "\<lambda>_. ready ?c"]) (use body_gate_ready [OF that] cors in blast)+
  have "secured ?c (SecurityHeaders ?c (MaxBodySize (cfg_MaxBodyBytes cfg) ?h) r sw)"
  proof (rule sec.wrapped [where Q = "\<lambda>_. ready ?c"])
    show "ready ?c sw'" if "security_gate ?c r sw = Inr (r', sw')" for r' sw'
      using that assms(1) has_security_headers_set [of ?c]
      by (auto simp: security_gate_def ready_def set_security_headers_def Let_def)
  qed (use body in \<open>simp_all add: security_gate_def\<close>)
  then show ?thesis by (cases "cfg_CORSOrigins cfg = []") (simp_all add: own_middleware_def)
qed

text \<open>
  C18. Every answer of the server, on every path, with or without credentials, and the 404 and 405
  of the router too, carries the security headers: no sniffing, no framing, the content security
  policy, the referrer and permissions policies, no caching and HSTS for two years.
\<close>

theorem server_security_headers:
  assumes "chi_ok ch" "rw_sent w = None"
  shows "\<exists>st h. rw_sent (snd (server ch pk cfg r (s, w))) = Some (st, h)
    \<and> has_security_headers DefaultSecurityHeadersConfig h"
proof -
  obtain r' where "server ch pk cfg r (s, w) =
      foldr (\<lambda>m h. m h) (own_middleware cfg) (chi_ServeHTTP ch (Mux [] (root_entries pk cfg))) r' (s, w)"
    using server_own [OF assms(1)] by blast
  moreover have "secured DefaultSecurityHeadersConfig \<dots>"
    using assms root_secured by (intro own_secured) (auto simp: chi_ok_def)
  ultimately show ?thesis by (simp add: secured_def)
qed

section \<open>No access without credentials\<close>

text \<open>
  A request that no credential backs: its Authorization header proves no identity, at any time.
\<close>

definition unauthenticated :: "AuthConfig \<Rightarrow> request \<Rightarrow> bool" where
  "unauthenticated ac r \<longleftrightarrow>
     (\<forall>now sub role meth. \<not> proves_identity ac (Header_Get (ReqHeader r) ''Authorization'') now sub role meth)"

definition health_body :: string where
  "health_body = json_encode (JObj [(''service'', JStr ''qsgw-control-plane''), (''status'', JStr ''ok'')]) @ [CHR 0x0A]"

definition untouched :: "'d \<Rightarrow> ('d, 'a) app_scheme \<times> rw \<Rightarrow> bool" where
  "untouched d sw \<longleftrightarrow> app_db (fst sw) = d \<and> rw_sent (snd sw) = None \<and> rw_body (snd sw) = []"

text \<open>The answers such a request may get: refusals, the router's answers, a preflight and the health check.\<close>

definition kept_out :: "'d \<Rightarrow> ('d, 'a) app_scheme \<times> rw \<Rightarrow> bool" where
  "kept_out d sw \<longleftrightarrow> app_db (fst sw) = d \<and>
     (\<exists>st. rw_status (snd sw) = Some st \<and>
        (st \<in> {204, 401, 404, 405, 413, 429} \<or> st = 200 \<and> rw_body (snd sw) = health_body))"

lemma kept_out_writeAuthError:
  "app_db s = d \<Longrightarrow> rw_sent w = None \<Longrightarrow> st \<in> {401, 413, 429} \<Longrightarrow> kept_out d (s, writeAuthError st m w)"
  by (auto simp: kept_out_def writeAuthError_def rw_status_def)

lemma kept_out_router_answer: "router_answer sw sw' \<Longrightarrow> untouched d sw \<Longrightarrow> kept_out d sw'"
  by (auto simp: router_answer_def untouched_def kept_out_def rw_status_def)

lemma kept_out_health: "untouched d sw \<Longrightarrow> kept_out d (HealthHandler_Check r sw)"
  by (simp add: untouched_def kept_out_def HealthHandler_Check_def health_body_def)

lemma unauthenticated_same: "unauthenticated ac r \<Longrightarrow> same_request r r' \<Longrightarrow> unauthenticated ac r'"
  by (simp add: unauthenticated_def same_request_simps)

lemma rl_gate_untouched:
  assumes "untouched d sw"
  shows "rl_gate r sw = Inl sw' \<Longrightarrow> kept_out d sw'" "rl_gate r sw = Inr (r', sw') \<Longrightarrow> r' = r \<and> untouched d sw'"
proof -
  obtain s w where sw: "sw = (s, w)" by (cases sw)
  have w: "app_db s = d" "rw_sent w = None" "rw_body w = []" using assms by (simp_all add: untouched_def sw)
  obtain x rl' where x: "rl_admit (limiter s) (rate_key (rl_cfg (limiter s)) r) (clock s 0) = (x, rl')" by fastforce
  show "kept_out d sw'" if "rl_gate r sw = Inl sw'"
    using that x w by (cases x)
      (auto simp: rl_gate_def sw Let_def intro!: kept_out_writeAuthError split: if_splits)
  show "r' = r \<and> untouched d sw'" if "rl_gate r sw = Inr (r', sw')"
    using that x w by (cases x)
      (auto simp: rl_gate_def sw Let_def untouched_def setRateLimitHeaders_def split: if_splits)
qed

lemma cors_gate_untouched:
  assumes "untouched d sw"
  shows "cors_gate cc r sw = Inl sw' \<Longrightarrow> kept_out d sw'" "cors_gate cc r sw = Inr (r', sw') \<Longrightarrow> r' = r \<and> untouched d sw'"
  using assms by (auto simp: cors_gate_def Let_def untouched_def kept_out_def preflight_headers_get rw_status_def
      split: if_splits)

lemma body_gate_untouched:
  assumes "untouched d sw"
  shows "body_gate n r sw = Inl sw' \<Longrightarrow> kept_out d sw'"
    "body_gate n r sw = Inr (r', sw') \<Longrightarrow> ReqHeader r' = ReqHeader r \<and> URLPath r' = URLPath r \<and> untouched d sw'"
  using assms by (auto simp: body_gate_def untouched_def kept_out_writeAuthError split: if_splits)

text \<open>The API behind \<open>Auth\<close>: the pattern of the mount keeps the skipped path out.\<close>

lemma api_kept_out:
  assumes "chi_serves serve" "auth_enabled cfg" "unauthenticated (auth_config cfg) r" "URLPath r = a @ ''/api/v1'' @ b"
    and "untouched d sw"
  shows "kept_out d (serve (api_mux pk cfg) r sw)"
proof -
  have path: "URLPath r \<notin> set (SkipPaths (auth_config cfg))"
    using assms(4) by (auto simp: auth_config_def append_eq_Cons_conv Cons_eq_append_conv)
  obtain s w where sw: "sw = (s, w)" by (cases sw)
  obtain s' m where g: "auth_gate (auth_config cfg) r (s, w) = Inl (s', writeAuthError 401 m w)"
    using auth_gate_cases [OF path, of s w] assms(3) unfolding unauthenticated_def by metis
  have "app_db s' = app_db s"
    using g by (auto simp: auth_gate_def Let_def split: if_splits sum.splits)
  then have "kept_out d (Auth (auth_config cfg) (serve (Mux [] (api_entries pk))) r sw)"
    using assms(5) auth.rejected [OF g] by (simp add: sw untouched_def kept_out_writeAuthError)
  moreover have "serve (api_mux pk cfg) = Auth (auth_config cfg) (serve (Mux [] (api_entries pk)))"
    using assms(2) unfolding api_mux_def by (subst served [OF assms(1)]) simp
  ultimately show ?thesis by simp
qed

lemma root_kept_out:
  fixes pk :: "'d pkgs" and serve :: "('d, 'a) app_scheme mux \<Rightarrow> ('d, 'a) app_scheme handler"
  assumes "chi_serves serve" "auth_enabled cfg" "unauthenticated (auth_config cfg) r" "untouched d sw"
  shows "kept_out d (serve (Mux [] (root_entries pk cfg)) r sw)"
proof (rule routed [OF assms(1)])
  fix p r' a b and sub :: "('d, 'a) app_scheme mux"
  assume m: "Mount p sub \<in> set (root_entries pk cfg)" and u: "URLPath r = a @ p @ b" and r': "same_request r r'"
  have "p = ''/api/v1''" "sub = api_mux pk cfg" using m by (auto simp: root_entries_def)
  then show "kept_out d (serve sub r' sw)"
    using api_kept_out [OF assms(1,2) unauthenticated_same [OF assms(3) r'] _ assms(4)] u same_request_simps(2) [OF r']
    by metis
next
  fix sw' :: "('d, 'a) app_scheme \<times> rw"
  assume "router_answer sw sw'"
  then show "kept_out d sw'" by (rule kept_out_router_answer [OF _ assms(4)])
qed (use kept_out_health [OF assms(4)] in \<open>auto simp: root_entries_def\<close>)

lemma own_kept_out:
  assumes "untouched d sw" "unauthenticated ac r"
    and "\<And>r sw. unauthenticated ac r \<Longrightarrow> untouched d sw \<Longrightarrow> kept_out d (h r sw)"
  shows "kept_out d (foldr (\<lambda>m h. m h) (own_middleware cfg) h r sw)"
proof -
  let ?Q = "\<lambda>r sw. unauthenticated ac r \<and> untouched d sw"
  have rl: "kept_out d (RateLimiter_Middleware h r sw)" if "?Q r sw" for r sw
    by (rule rlim.wrapped [where Q = ?Q]) (use rl_gate_untouched [of d sw] that assms(3) in blast)+
  let ?h = "if cfg_CORSOrigins cfg \<noteq> [] then CORS (cors_config cfg) (RateLimiter_Middleware h) else RateLimiter_Middleware h"
  have "kept_out d (CORS (cors_config cfg) (RateLimiter_Middleware h) r sw)" if "?Q r sw" for r sw
    by (rule cors.wrapped [where Q = ?Q]) (use cors_gate_untouched [of d sw] that rl in blast)+
  then have cors: "kept_out d (?h r sw)" if "?Q r sw" for r sw using that rl by simp
  have body: "kept_out d (MaxBodySize n ?h r sw)" if "?Q r sw" for n r sw
    by (rule mbs.wrapped [where Q = ?Q])
      (use body_gate_untouched [of d sw] that cors in \<open>auto simp: unauthenticated_def\<close>)
  have "kept_out d (SecurityHeaders DefaultSecurityHeadersConfig (MaxBodySize (cfg_MaxBodyBytes cfg) ?h) r sw)"
    by (rule sec.wrapped [where Q = ?Q])
      (use assms(1,2) body in \<open>auto simp: security_gate_def untouched_def set_security_headers_def Let_def\<close>)
  then show ?thesis by (cases "cfg_CORSOrigins cfg = []") (simp_all add: own_middleware_def)
qed

text \<open>
  C2. When a JWT secret or API keys are configured, a request whose Authorization header proves no
  identity, at no time (so not one whose token has merely expired), never gets to the API, whatever its path and method: the database stays as it is, and
  the answer is 401, 413, 429, a preflight's 204, the router's 404 or 405, or the health check.
\<close>

theorem server_requires_auth:
  assumes "chi_ok ch" "auth_enabled cfg" "unauthenticated (auth_config cfg) r" "rw_sent w = None" "rw_body w = []"
  shows "app_db (fst (server ch pk cfg r (s, w))) = app_db s \<and>
    (\<exists>st. rw_status (snd (server ch pk cfg r (s, w))) = Some st \<and>
       (st \<in> {204, 401, 404, 405, 413, 429} \<or> st = 200 \<and> rw_body (snd (server ch pk cfg r (s, w))) = health_body))"
proof -
  obtain r' where r': "same_request r r'" and eq: "server ch pk cfg r (s, w) =
      foldr (\<lambda>m h. m h) (own_middleware cfg) (chi_ServeHTTP ch (Mux [] (root_entries pk cfg))) r' (s, w)"
    using server_own [OF assms(1)] by blast
  have "untouched (app_db s) (s, w)" using assms(4,5) by (simp add: untouched_def)
  then have "kept_out (app_db s) (server ch pk cfg r (s, w))"
    unfolding eq using assms(1,2) unauthenticated_same [OF assms(3) r'] root_kept_out
    by (intro own_kept_out [where ac = "auth_config cfg"]) (auto simp: chi_ok_def)
  then show ?thesis by (simp add: kept_out_def)
qed

section \<open>Start-up and shutdown\<close>

text \<open>
  What is relied on of package \<open>net/http\<close>: it reaches the limiter only through requests and clean-up
  ticks, and neither opens nor closes a pool of connections.
\<close>

definition net_ok :: "'w net_http \<Rightarrow> ('w \<Rightarrow> int) \<Rightarrow> bool" where
  "net_ok net op \<longleftrightarrow>
     (\<forall>srv d rl w res rl' w'.
        net_Serve net srv (rl, w) = (res, rl', w') \<or> net_Shutdown net srv d (rl, w) = (res, rl', w') \<longrightarrow>
        op w' = op w \<and> (\<exists>es. StopCall \<notin> set es \<and> rl' = run_steps rl_apply es rl))"

lemma rl_admit_done [simp]: "rl_done (snd (rl_admit rl k now)) = rl_done rl"
  by (simp add: rl_admit_def Let_def split: option.splits)

lemma rl_done_run: "StopCall \<notin> set es \<Longrightarrow> rl_done (run_steps rl_apply es rl) = rl_done rl"
proof (induction es arbitrary: rl)
  case (Cons e es)
  moreover have "rl_done (rl_apply e rl) = rl_done rl"
    using Cons.prems by (cases e) (auto simp: cleanup_def)
  ultimately show ?case by simp
qed simp

lemma net_okD:
  assumes "net_ok net op" "net_Serve net srv (rl, w) = (res, rl', w') \<or> net_Shutdown net srv d (rl, w) = (res, rl', w')"
  shows "op w' = op w" "rl_done rl' = rl_done rl"
  using assms rl_done_run unfolding net_ok_def by metis+

lemma main_start_pools:
  assumes "pool_counts pg op" "main_start env pg w = (st, w')"
  shows "case st of
      Fatal m \<Rightarrow> op w' = op w
    | Serving cfg srv pool rl \<Rightarrow> Load env = Inr cfg \<and> op w' = op w + 1 \<and> \<not> rl_done rl"
  using assms NewPool_counts [OF assms(1)]
  by (auto simp: main_start_def NewRateLimiter_def split: sum.splits prod.splits)

text \<open>
  C37. The process gives back what it took: a failed start-up leaves no pool open, and after a
  graceful shutdown the pool of connections is closed and the limiter stopped, without a panic. A
  process that fails while it serves, or whose shutdown fails, ends with the pool still open.
\<close>

theorem main_run_resources:
  assumes "pool_counts pg op" "net_ok net op" "main_run env pg net w = (x, rl, w')"
  shows "case x of
      Returned \<Rightarrow> op w' = op w \<and> (\<exists>rl'. rl = Some rl' \<and> rl_done rl')
    | FatalExit m \<Rightarrow> op w' = op w + (if rl = None then 0 else 1)
    | Panicked \<Rightarrow> False"
proof -
  have close: "op (Close pg q v) = op v - 1" for q v using assms(1) by (simp add: pool_counts_def)
  obtain st w1 where st: "main_start env pg w = (st, w1)" by fastforce
  note start = main_start_pools [OF assms(1) st]
  show ?thesis
  proof (cases st)
    case (Fatal m)
    then show ?thesis using start st assms(3) by (auto simp: main_run_def)
  next
    case (Serving cfg srv pool rl1)
    obtain e2 rl2 w2 where serve: "net_Serve net srv (rl1, w1) = (e2, rl2, w2)" by (metis prod_cases3)
    obtain e3 rl3 w3 where down: "net_Shutdown net srv (10 * Second) (rl2, w2) = (e3, rl3, w3)" by (metis prod_cases3)
    have "op w1 = op w + 1" "\<not> rl_done rl1" using start Serving by simp_all
    moreover note net_okD [OF assms(2) disjI1 [OF serve]] net_okD [OF assms(2) disjI2 [OF down]]
    ultimately show ?thesis
      using st Serving serve down assms(3) close
      by (auto simp: main_run_def Let_def RateLimiter_Stop_def split: option.splits)
  qed
qed

text \<open>A database that answers, and a server that serves one request and stops at a signal.\<close>

definition demo_pgxpool :: "(unit, nat, int) pgxpool" where
  "demo_pgxpool = mute_pgxpool\<lparr>Ping := (\<lambda>_ w. (None, w))\<rparr>"

definition demo_net :: "int net_http" where
  "demo_net =
     \<lparr>net_Serve = (\<lambda>_ (rl, w). (None, rl_apply (Request ''10.0.0.1'' (at_sec 1)) rl, w)),
      net_Shutdown = (\<lambda>_ _ (rl, w). (None, rl, w))\<rparr>"

theorem main_run_resources_witness:
  "\<exists>rl. main_run demo_environment demo_pgxpool demo_net 7 = (Returned, Some rl, 7) \<and> rl_done rl"
proof -
  have "pool_counts demo_pgxpool (\<lambda>w. w)" by (simp add: pool_counts_def demo_pgxpool_def mute_pgxpool_def)
  moreover have "net_ok demo_net (\<lambda>w. w)"
    unfolding net_ok_def
  proof (intro allI impI)
    fix srv d rl w res rl' w'
    assume "net_Serve demo_net srv (rl, w) = (res, rl', w') \<or> net_Shutdown demo_net srv d (rl, w) = (res, rl', w')"
    then have "w' = w" "rl' = run_steps rl_apply [Request ''10.0.0.1'' (at_sec 1)] rl \<or> rl' = run_steps rl_apply [] rl"
      by (auto simp: demo_net_def)
    moreover have "StopCall \<notin> set [Request ''10.0.0.1'' (at_sec 1)]" "StopCall \<notin> set []" by simp_all
    ultimately show "w' = w \<and> (\<exists>es. StopCall \<notin> set es \<and> rl' = run_steps rl_apply es rl)" by blast
  qed
  moreover have "fst (main_run demo_environment demo_pgxpool demo_net 7) = Returned"
    by (simp add: main_run_def main_start_def Load_def getEnv_def demo_environment_def NewPool_def demo_pgxpool_def
        mute_pgxpool_def demo_net_def Let_def RateLimiter_Stop_def NewRateLimiter_def DefaultPoolConfig_def)
  ultimately show ?thesis
    using main_run_resources [of demo_pgxpool "\<lambda>w. w" demo_net demo_environment 7
        "fst (main_run demo_environment demo_pgxpool demo_net 7)"
        "fst (snd (main_run demo_environment demo_pgxpool demo_net 7))"
        "snd (snd (main_run demo_environment demo_pgxpool demo_net 7))"]
    by (auto simp: prod_eq_iff)
qed

section \<open>Examples\<close>

lemma simple_chi_ok: "chi_ok (simple_chi :: 'a chi)"
proof -
  have "transparent (\<lambda>h :: 'a handler. h)"
    unfolding transparent_def
  proof (intro allI)
    fix r :: request and sw :: "'a \<times> rw"
    show "\<exists>r'. same_request r r' \<and> URLParams r' = URLParams r \<and> (\<forall>next. next r sw = (next r' sw :: 'a \<times> rw))"
      by (rule exI [of _ r]) (simp add: same_request_def)
  qed
  then show ?thesis
    using simple_serve_serves by (simp add: chi_ok_def infra_middleware_def simple_chi_def)
qed

definition demo_config :: Config where
  "demo_config = \<lparr>cfg_Port = ''8085'', cfg_DatabaseURL = ''postgres://db/qsgw'', cfg_EtcdAddr = [], cfg_LogLevel = ''info'',
     cfg_JWTSecret = [], cfg_JWTIssuer = ''quantun'', cfg_APIKeys = [''k1:alice:admin''], cfg_CORSOrigins = [],
     cfg_MaxBodyBytes = 1048576\<rparr>"

definition open_config :: Config where
  "open_config = demo_config\<lparr>cfg_JWTSecret := [], cfg_APIKeys := []\<rparr>"

theorem server_security_headers_witness:
  "\<exists>st h. rw_sent (snd (server simple_chi (qsgw_pkgs uuid_text uuid_read) demo_config demo_request (demo_app, rw_new)))
       = Some (st, h) \<and> has_security_headers DefaultSecurityHeadersConfig h"
  by (rule server_security_headers) (simp_all add: simple_chi_ok)

theorem server_requires_auth_witness:
  "app_db (fst (server simple_chi (qsgw_pkgs uuid_text uuid_read) demo_config
     (demo_post\<lparr>ReqHeader := Map.empty\<rparr>) (demo_app, rw_new))) = app_db demo_app"
proof -
  have "unauthenticated (auth_config demo_config) (demo_post\<lparr>ReqHeader := Map.empty\<rparr>)"
    by (simp add: unauthenticated_def proves_identity_def Header_Get_def)
  moreover have "auth_enabled demo_config" by (simp add: auth_enabled_def demo_config_def)
  ultimately show ?thesis
    using server_requires_auth [OF simple_chi_ok, of demo_config "demo_post\<lparr>ReqHeader := Map.empty\<rparr>" rw_new
        "qsgw_pkgs uuid_text uuid_read" demo_app]
    by simp
qed

end
