(* ===== verification/Dispatch.thy ===== *)
theory Dispatch
  imports Server
begin

text \<open>
  The way of a request through the whole server: which handler it reaches, as whom, and with what.
  The routing tables that the server is built from are compared with one flat table of the API.
\<close>

section \<open>The table of the API\<close>

text \<open>Method, base path below \<open>/api/v1\<close>, pattern below the base, and handler.\<close>

definition api_table :: "'d pkgs \<Rightarrow> (string \<times> string \<times> string \<times> ('d, 'a) app_scheme handler) list" where
  "api_table pk =
     [(''POST'', ''/gateways'', ''/'', GatewayHandler_Create pk),
      (''GET'', ''/gateways'', ''/'', GatewayHandler_List pk),
      (''GET'', ''/gateways'', ''/{id}'', GatewayHandler_Get pk),
      (''POST'', ''/gateways'', ''/{id}/activate'', GatewayHandler_Activate pk),
      (''POST'', ''/gateways'', ''/{id}/deactivate'', GatewayHandler_Deactivate pk),
      (''POST'', ''/upstreams'', ''/'', UpstreamHandler_Create pk),
      (''GET'', ''/upstreams'', ''/'', UpstreamHandler_List pk),
      (''GET'', ''/upstreams'', ''/{id}'', UpstreamHandler_Get pk),
      (''POST'', ''/routes'', ''/'', RouteHandler_Create pk),
      (''GET'', ''/routes'', ''/'', RouteHandler_List pk),
      (''DELETE'', ''/routes'', ''/{id}'', RouteHandler_Delete pk),
      (''GET'', ''/threats'', ''/'', ThreatHandler_List pk)]"

lemma match_segments_Cons:
  "match_segments (p # ps) ss = Some qs \<longleftrightarrow>
     (\<exists>s ss'. ss = s # ss' \<and>
        (if p = ''{id}'' then s \<noteq> [] \<and> (\<exists>qs'. match_segments ps ss' = Some qs' \<and> qs = (''id'', s) # qs')
         else p = s \<and> match_segments ps ss' = Some qs))"
  by (cases ss) auto

lemma match_segments_Nil: "match_segments [] ss = Some qs \<longleftrightarrow> ss = [] \<and> qs = []"
  by (cases ss) auto

lemma match_patterns:
  "match_path ''/'' q = Some ps \<longleftrightarrow> Split CHR ''/'' q = [[], []] \<and> ps = []"
  "match_path ''/{id}'' q = Some ps \<longleftrightarrow> (\<exists>x. x \<noteq> [] \<and> Split CHR ''/'' q = [[], x] \<and> ps = [(''id'', x)])"
  "match_path ''/{id}/activate'' q = Some ps \<longleftrightarrow>
     (\<exists>x. x \<noteq> [] \<and> Split CHR ''/'' q = [[], x, ''activate''] \<and> ps = [(''id'', x)])"
  "match_path ''/{id}/deactivate'' q = Some ps \<longleftrightarrow>
     (\<exists>x. x \<noteq> [] \<and> Split CHR ''/'' q = [[], x, ''deactivate''] \<and> ps = [(''id'', x)])"
  by (auto simp: match_path_def match_segments_Cons match_segments_Nil simp del: match_segments.simps)

lemma mount_rest_append:
  "mount_rest p (p @ x) = (if x = [] then Some ''/'' else if hd x = CHR ''/'' then Some x else None)"
  by (simp add: mount_rest_def)

lemmas tree_defs = api_entries_def GatewayHandler_Routes_def UpstreamHandler_Routes_def RouteHandler_Routes_def
  ThreatHandler_Routes_def

lemma mounts:
  "Mount ''/gateways'' (GatewayHandler_Routes pk) \<in> set (api_entries pk)"
  "Mount ''/upstreams'' (UpstreamHandler_Routes pk) \<in> set (api_entries pk)"
  "Mount ''/routes'' (RouteHandler_Routes pk) \<in> set (api_entries pk)"
  "Mount ''/threats'' (ThreatHandler_Routes pk) \<in> set (api_entries pk)"
  unfolding api_entries_def by simp_all

text \<open>Each row of the table is an endpoint of a mounted router.\<close>

lemma table_tree:
  assumes "(m, base, pat, h) \<in> set (api_table pk)"
  shows "\<exists>es. Mount base (Mux [] es) \<in> set (api_entries pk) \<and> Endpoint m pat h \<in> set es"
proof -
  have "list_all (\<lambda>(m, base, pat, h). \<exists>es. Mount base (Mux [] es) \<in> set (api_entries pk) \<and> Endpoint m pat h \<in> set es)
      (api_table pk)"
    unfolding api_table_def list.pred_inject prod.case
    by (intro conjI TrueI exI; (rule mounts [unfolded tree_defs(2-)])?) simp_all
  then show ?thesis using assms by (auto simp: list_all_iff)
qed

definition patterns :: "string set" where
  "patterns = {''/'', ''/{id}'', ''/{id}/activate'', ''/{id}/deactivate''}"

lemma tree_endpoints:
  assumes "Mount base sub \<in> set (api_entries pk)"
  shows "\<exists>es. sub = Mux [] es \<and> (\<forall>e \<in> set es. \<exists>m p h. e = Endpoint m p h \<and> p \<in> patterns) \<and>
    (\<forall>m p h h'. Endpoint m p h \<in> set es \<longrightarrow> Endpoint m p h' \<in> set es \<longrightarrow> h = h')"
  using assms unfolding tree_defs patterns_def by auto

lemma patterns_exclusive:
  assumes "p \<in> patterns" "p' \<in> patterns" "match_path p q = Some ps" "match_path p' q = Some ps'"
  shows "p = p' \<and> distinct (map fst ps)"
  using assms unfolding patterns_def by (elim insertE emptyE) (auto simp: match_patterns)

text \<open>No other entry of its router matches the paths of an endpoint, and no other router its base.\<close>

definition sole_entry :: "'s chi_entry list \<Rightarrow> string \<Rightarrow> string \<Rightarrow> 's chi_entry \<Rightarrow> bool" where
  "sole_entry es m q e \<longleftrightarrow> e \<in> set es \<and> (\<forall>e' \<in> set es. entry_matches e' m q \<longleftrightarrow> e' = e)"

lemma sole_endpoint:
  assumes "Mount base (Mux [] es) \<in> set (api_entries pk)" "Endpoint m pat h \<in> set es" "match_path pat q = Some ps"
  shows "sole_entry es m q (Endpoint m pat h) \<and> distinct (map fst ps)"
proof -
  have es: "\<forall>e \<in> set es. \<exists>m p h. e = Endpoint m p h \<and> p \<in> patterns"
    "\<forall>m p h h'. Endpoint m p h \<in> set es \<longrightarrow> Endpoint m p h' \<in> set es \<longrightarrow> h = h'"
    using tree_endpoints [OF assms(1)] by auto
  have pat: "pat \<in> patterns" using es(1) assms(2) by fastforce
  have "entry_matches e m q \<longleftrightarrow> e = Endpoint m pat h" if e: "e \<in> set es" for e
  proof -
    obtain m' p' h' where e': "e = Endpoint m' p' h'" "p' \<in> patterns" using es(1) e by blast
    then show ?thesis
      using patterns_exclusive [OF e'(2) pat _ assms(3)] es(2) assms(2,3) e by (auto simp: entry_matches_def)
  qed
  then show ?thesis using assms(2) patterns_exclusive [OF pat pat assms(3,3)] by (simp add: sole_entry_def)
qed

lemma sole_mount:
  assumes "Mount base sub \<in> set (api_entries pk)" "mount_rest base (base @ rest) = Some q"
  shows "sole_entry (api_entries pk) m (base @ rest) (Mount base sub)"
proof -
  have e: "entry_matches (Mount base sub) m (base @ rest)" using assms(2) by (simp add: entry_matches_def)
  have "\<not> entry_matches (Mount b s) m (base @ rest)" if "Mount b s \<in> set (api_entries pk)" "b \<noteq> base" for b s
    using that assms(1) unfolding api_entries_def by (auto simp: entry_matches_def mount_rest_def)
  moreover have "s = sub" if "Mount base s \<in> set (api_entries pk)" for s
    using that assms(1) unfolding api_entries_def by auto
  moreover have "\<exists>b s. e = Mount b s" if "e \<in> set (api_entries pk)" for e
    using that unfolding api_entries_def by auto
  ultimately show ?thesis using e assms(1) unfolding sole_entry_def by metis
qed

section \<open>Through the middleware\<close>

text \<open>What reaches the next handler, whichever it is, when every gate lets the request pass.\<close>

lemma rl_gate_passes:
  assumes "admitted (fst (rl_admit (limiter s) (rate_key (rl_cfg (limiter s)) r) (clock s 0)))"
  shows "\<exists>w' rl'. rl_gate r (s, w) = Inr (r, (snd (time_Now s))\<lparr>limiter := rl'\<rparr>, w')
    \<and> rw_sent w' = rw_sent w \<and> rw_body w' = rw_body w"
proof -
  obtain d rl' where d: "rl_admit (limiter s) (rate_key (rl_cfg (limiter s)) r) (clock s 0) = (d, rl')" by fastforce
  then show ?thesis
    using assms by (cases d) (auto simp: rl_gate_def Let_def admitted_def setRateLimitHeaders_def)
qed

lemma cors_gate_passes:
  assumes "Method r \<noteq> ''OPTIONS''"
  shows "\<exists>w'. cors_gate c r (s, w) = Inr (r, s, w') \<and> rw_sent w' = rw_sent w \<and> rw_body w' = rw_body w"
  using assms by (auto simp: cors_gate_def Let_def cors_headers_def)

lemma own_passes:
  assumes "ContentLength r \<le> cfg_MaxBodyBytes cfg" "BodyMax r = None" "Method r \<noteq> ''OPTIONS''"
    and "KeyFunc (rl_cfg (limiter s)) = Some RemoteAddr" "admitted (fst (rl_admit (limiter s) (RemoteAddr r) (clock s 0)))"
  shows "\<exists>w' rl'. (\<forall>h. foldr (\<lambda>m h. m h) (own_middleware cfg) h r (s, w) =
      h (r\<lparr>BodyMax := Some (cfg_MaxBodyBytes cfg)\<rparr>) ((snd (time_Now s))\<lparr>limiter := rl'\<rparr>, w'))
    \<and> rw_sent w' = rw_sent w \<and> rw_body w' = rw_body w"
proof -
  let ?r = "r\<lparr>BodyMax := Some (cfg_MaxBodyBytes cfg)\<rparr>"
  define w1 where "w1 = set_security_headers (normalize_security DefaultSecurityHeadersConfig) w"
  have w1: "rw_sent w1 = rw_sent w" "rw_body w1 = rw_body w"
    by (simp_all add: w1_def set_security_headers_def Let_def)
  obtain w2 where w2: "cors_gate (cors_config cfg) ?r (s, w1) = Inr (?r, s, w2)"
      "rw_sent w2 = rw_sent w1" "rw_body w2 = rw_body w1"
    using cors_gate_passes [of ?r "cors_config cfg" s w1] assms(3) by auto
  define w3 where "w3 = (if cfg_CORSOrigins cfg = [] then w1 else w2)"
  obtain w4 rl' where w4: "rl_gate ?r (s, w3) = Inr (?r, (snd (time_Now s))\<lparr>limiter := rl'\<rparr>, w4)"
      "rw_sent w4 = rw_sent w3" "rw_body w4 = rw_body w3"
    using rl_gate_passes [of s ?r w3] assms(4,5) by (auto simp: rate_key_def)
  have "SecurityHeaders DefaultSecurityHeadersConfig h' r (s, w) = h' r (s, w1)" for h'
    by (rule sec.passed) (simp add: security_gate_def w1_def)
  moreover have "MaxBodySize (cfg_MaxBodyBytes cfg) h' r (s, w1) = h' ?r (s, w1)" for h'
    by (rule mbs.passed) (use assms(1,2) in \<open>simp add: body_gate_def\<close>)
  moreover note cors.passed [OF w2(1)] rlim.passed [OF w4(1)]
  ultimately have "foldr (\<lambda>m h. m h) (own_middleware cfg) h r (s, w) = h ?r ((snd (time_Now s))\<lparr>limiter := rl'\<rparr>, w4)" for h
    by (cases "cfg_CORSOrigins cfg = []") (simp_all add: own_middleware_def w3_def)
  then show ?thesis using w1 w2(2,3) w4(2,3) by (auto simp: w3_def)
qed

section \<open>Routing\<close>

lemma chi_routesD:
  assumes "chi_routes rp serve"
  shows "URLParams r = Map.empty \<Longrightarrow> rp r = URLPath r"
    "URLPath r' = URLPath r \<Longrightarrow> URLParams r' = URLParams r \<Longrightarrow> rp r' = rp r"
    "sole_entry es (Method r) (rp r) (Endpoint m p h) \<Longrightarrow> match_path p (rp r) = Some ps \<Longrightarrow> distinct (map fst ps) \<Longrightarrow>
       \<exists>up. (\<forall>(k, v) \<in> set ps. URLParam (r\<lparr>URLParams := up\<rparr>) k = v) \<and> serve (Mux [] es) r sw = h (r\<lparr>URLParams := up\<rparr>) sw"
    "sole_entry es (Method r) (rp r) (Mount p sub) \<Longrightarrow> mount_rest p (rp r) = Some q \<Longrightarrow> URLPath r = a @ p @ b \<Longrightarrow>
       \<exists>up. rp (r\<lparr>URLParams := up\<rparr>) = q \<and> serve (Mux [] es) r sw = serve sub (r\<lparr>URLParams := up\<rparr>) sw"
  using assms unfolding chi_routes_def sole_entry_def by blast+

lemma sole_api:
  fixes pk :: "'d pkgs"
  assumes x: "x \<noteq> []" "hd x = CHR ''/''"
  shows "sole_entry (root_entries pk cfg :: ('d, 'a) app_scheme chi_entry list) m (''/api/v1'' @ x)
    (Mount ''/api/v1'' (api_mux pk cfg))"
proof -
  have "entry_matches (Mount ''/api/v1'' (api_mux pk cfg :: ('d, 'a) app_scheme mux)) m (''/api/v1'' @ x)"
    using x unfolding entry_matches_def chi_entry.case mount_rest_append by simp
  moreover have "Split CHR ''/'' (''/api/v1'' @ x) = [] # ''api'' # Split CHR ''/'' (''v1'' @ x)"
    using Split_append_sep [of "CHR ''/''" "[]" "''api/v1'' @ x"] Split_append_sep [of "CHR ''/''" "''api''" "''v1'' @ x"] by simp
  then have "\<not> entry_matches (Endpoint ''GET'' ''/health'' (HealthHandler_Check :: ('d, 'a) app_scheme handler)) m (''/api/v1'' @ x)"
    by (simp only: entry_matches_def chi_entry.case match_path_def) simp
  ultimately show ?thesis by (simp add: sole_entry_def root_entries_def del: append.simps)
qed

lemma auth_gate_passes:
  assumes "identify ac (Header_Get (ReqHeader r) ''Authorization'') (clock s 0) = Inr (sub, role, meth)"
    and "URLPath r \<notin> set (SkipPaths ac)"
  shows "\<exists>s'. auth_gate ac r (s, w) = Inr (with_identity sub role meth r, s', w) \<and> (s' = s \<or> s' = snd (time_Now s))"
  using assms by (auto simp: auth_gate_def Let_def)

text \<open>
  What authentication makes of a request that it lets in: with credentials configured, the request of
  somebody it identifies; without, every request as it is.
\<close>

definition lets_in :: "Config \<Rightarrow> request \<Rightarrow> Time \<Rightarrow> (request \<Rightarrow> request) \<Rightarrow> bool" where
  "lets_in cfg r now upd \<longleftrightarrow>
     (if auth_enabled cfg
      then \<exists>sub role meth. identify (auth_config cfg) (Header_Get (ReqHeader r) ''Authorization'') now = Inr (sub, role, meth)
             \<and> upd = with_identity sub role meth
      else upd = id)"

lemma lets_in_same:
  assumes "lets_in cfg r now upd"
  shows "Method (upd x) = Method x" "URLPath (upd x) = URLPath x" "URLParams (upd x) = URLParams x"
    "ReqHeader (upd x) = ReqHeader x" "RawQuery (upd x) = RawQuery x" "Body (upd x) = Body x" "BodyMax (upd x) = BodyMax x"
    "(upd x)\<lparr>URLParams := up\<rparr> = upd (x\<lparr>URLParams := up\<rparr>)"
  using assms by (auto simp: lets_in_def with_identity_def split: if_splits)

lemma api_mux_lets_in:
  fixes s :: "('d, 'a) app_scheme"
  assumes "chi_serves serve" "lets_in cfg r (clock s 0) upd" "URLPath r \<noteq> ''/health''"
  shows "\<exists>s'. serve (api_mux pk cfg) r (s, w) = serve (Mux [] (api_entries pk)) (upd r) (s', w) \<and>
    (s' = s \<or> s' = snd (time_Now s))"
proof (cases "auth_enabled cfg")
  case True
  obtain sub role meth where i: "identify (auth_config cfg) (Header_Get (ReqHeader r) ''Authorization'') (clock s 0) =
      Inr (sub, role, meth)" "upd = with_identity sub role meth"
    using assms(2) True by (auto simp: lets_in_def)
  have "URLPath r \<notin> set (SkipPaths (auth_config cfg))" using assms(3) by (simp add: auth_config_def)
  then obtain s' where g: "auth_gate (auth_config cfg) r (s, w) = Inr (upd r, s', w)" "s' = s \<or> s' = snd (time_Now s)"
    using auth_gate_passes [OF i(1)] i(2) by blast
  have "serve (api_mux pk cfg) = Auth (auth_config cfg) (serve (Mux [] (api_entries pk)))"
    using True unfolding api_mux_def by (subst served [OF assms(1)]) simp
  then show ?thesis using auth.passed [OF g(1)] g(2) by auto
next
  case False
  then show ?thesis using assms(2) by (auto simp: api_mux_def lets_in_def)
qed

text \<open>The way through the two routers above an endpoint, with authentication between them.\<close>

lemma routed_to_handler:
  fixes pk :: "'d pkgs" and s :: "('d, 'a) app_scheme"
  assumes chi: "chi_serves serve" "chi_routes rp serve"
    and row: "(Method r, base, pat, h) \<in> set (api_table pk)"
    and path: "URLPath r = ''/api/v1'' @ base @ rest" "mount_rest base (base @ rest) = Some q" "match_path pat q = Some ps"
    and fresh: "URLParams r = Map.empty"
    and auth: "lets_in cfg r (clock s 0) upd"
  shows "\<exists>up s'. serve (Mux [] (root_entries pk cfg)) r (s, w) = h (upd (r\<lparr>URLParams := up\<rparr>)) (s', w) \<and>
    (\<forall>(k, v) \<in> set ps. URLParam (r\<lparr>URLParams := up\<rparr>) k = v) \<and> (s' = s \<or> s' = snd (time_Now s))"
proof -
  note routes = chi_routesD [OF chi(2)] and same = lets_in_same [OF auth]
  obtain es where es: "Mount base (Mux [] es) \<in> set (api_entries pk)" "Endpoint (Method r) pat h \<in> set es"
    using table_tree [OF row] by blast
  have below: "base @ rest \<noteq> []" "hd (base @ rest) = CHR ''/''" using row by (auto simp: api_table_def)
  have rp: "rp r = ''/api/v1'' @ base @ rest" using routes(1) path(1) fresh by simp
  have "mount_rest ''/api/v1'' (rp r) = Some (base @ rest)" unfolding rp mount_rest_append using below by simp
  then obtain up1 where up1: "rp (r\<lparr>URLParams := up1\<rparr>) = base @ rest"
      "serve (Mux [] (root_entries pk cfg)) r (s, w) = serve (api_mux pk cfg) (r\<lparr>URLParams := up1\<rparr>) (s, w)"
    using routes(4) [of "root_entries pk cfg" r "''/api/v1''" "api_mux pk cfg" "base @ rest" "[]" "base @ rest" "(s, w)"]
      sole_api [OF below, of pk cfg "Method r"] rp path(1) by auto
  define r1 where "r1 = upd (r\<lparr>URLParams := up1\<rparr>)"
  have r1: "Method r1 = Method r" "URLPath r1 = URLPath r" "rp r1 = base @ rest"
    using routes(2) [of r1 "r\<lparr>URLParams := up1\<rparr>"] up1(1) by (simp_all add: r1_def same)
  have "lets_in cfg (r\<lparr>URLParams := up1\<rparr>) (clock s 0) upd" using auth by (simp add: lets_in_def)
  then obtain s' where api: "serve (api_mux pk cfg) (r\<lparr>URLParams := up1\<rparr>) (s, w) = serve (Mux [] (api_entries pk)) r1 (s', w)"
      and s': "s' = s \<or> s' = snd (time_Now s)"
    using api_mux_lets_in [OF chi(1), of cfg "r\<lparr>URLParams := up1\<rparr>" s upd pk w] path(1) unfolding r1_def by auto
  obtain up2 where up2: "rp (r1\<lparr>URLParams := up2\<rparr>) = q"
      "serve (Mux [] (api_entries pk)) r1 (s', w) = serve (Mux [] es) (r1\<lparr>URLParams := up2\<rparr>) (s', w)"
    using routes(4) [of "api_entries pk" r1 base "Mux [] es" q "''/api/v1''" rest "(s', w)"]
      sole_mount [OF es(1) path(2), of "Method r1"] r1 path by auto
  obtain up3 where "\<forall>(k, v) \<in> set ps. URLParam (r1\<lparr>URLParams := up3\<rparr>) k = v"
      "serve (Mux [] es) (r1\<lparr>URLParams := up2\<rparr>) (s', w) = h (r1\<lparr>URLParams := up3\<rparr>) (s', w)"
    using routes(3) [of es "r1\<lparr>URLParams := up2\<rparr>" "Method r" pat h ps "(s', w)"] sole_endpoint [OF es path(3)]
      path(3) up2(1) r1(1) by auto
  then show ?thesis
    using up1(2) api up2(2) s' by (intro exI [of _ up3] exI [of _ s']) (simp add: r1_def same URLParam_def)
qed

text \<open>From the server to the handler, for every way of being let in.\<close>

lemma dispatched:
  assumes chi: "chi_ok ch" "chi_routes rp (chi_ServeHTTP ch)"
    and row: "(Method r, base, pat, h) \<in> set (api_table pk)"
    and path: "URLPath r = ''/api/v1'' @ base @ rest" "mount_rest base (base @ rest) = Some q" "match_path pat q = Some ps"
    and fresh: "URLParams r = Map.empty" "BodyMax r = None" "rw_sent w = None"
    and size: "ContentLength r \<le> cfg_MaxBodyBytes cfg"
    and rate: "KeyFunc (rl_cfg (limiter s)) = Some RemoteAddr"
      "admitted (fst (rl_admit (limiter s) (seen_addr ch r (s, w)) (clock s 0)))"
    and auth: "lets_in cfg r (clock s 1) upd"
  shows "\<exists>r1 r' s' w'. server ch pk cfg r (s, w) = h r' (s', w') \<and> same_request r r1 \<and>
    r' = upd (r1\<lparr>BodyMax := Some (cfg_MaxBodyBytes cfg), URLParams := URLParams r'\<rparr>) \<and>
    (\<forall>(k, v) \<in> set ps. URLParam r' k = v) \<and>
    app_db s' = app_db s \<and> new_uuids s' = new_uuids s \<and> rw_sent w' = None \<and> rw_body w' = rw_body w"
proof -
  have serves: "chi_serves (chi_ServeHTTP ch)" using chi(1) by (simp add: chi_ok_def)
  obtain r1 where r1: "same_request r r1" "URLParams r1 = URLParams r" "RemoteAddr r1 = seen_addr ch r (s, w)" "server ch pk cfg r (s, w) =
      foldr (\<lambda>m h. m h) (own_middleware cfg) (chi_ServeHTTP ch (Mux [] (root_entries pk cfg))) r1 (s, w)"
    using server_own [OF chi(1)] by blast
  note r1s = same_request_simps [OF r1(1)]
  have "Method r \<noteq> ''OPTIONS''" using row by (auto simp: api_table_def)
  then obtain w' rl' where own: "\<forall>h. foldr (\<lambda>m h. m h) (own_middleware cfg) h r1 (s, w) =
      h (r1\<lparr>BodyMax := Some (cfg_MaxBodyBytes cfg)\<rparr>) ((snd (time_Now s))\<lparr>limiter := rl'\<rparr>, w')"
      "rw_sent w' = None" "rw_body w' = rw_body w"
    using own_passes [of r1 cfg s w] size fresh rate r1(3) r1s by auto
  define r2 where "r2 = r1\<lparr>BodyMax := Some (cfg_MaxBodyBytes cfg)\<rparr>"
  define s1 where "s1 = (snd (time_Now s))\<lparr>limiter := rl'\<rparr>"
  have s1: "clock s1 0 = clock s 1" "app_db s1 = app_db s" "new_uuids s1 = new_uuids s"
    by (simp_all add: s1_def time_Now_def)
  have "lets_in cfg r2 (clock s1 0) upd" using auth r1s by (simp add: lets_in_def r2_def s1(1))
  then obtain up s' where d: "chi_ServeHTTP ch (Mux [] (root_entries pk cfg)) r2 (s1, w') =
      h (upd (r2\<lparr>URLParams := up\<rparr>)) (s', w')"
      "\<forall>(k, v) \<in> set ps. URLParam (r2\<lparr>URLParams := up\<rparr>) k = v" "s' = s1 \<or> s' = snd (time_Now s1)"
    using routed_to_handler [OF serves chi(2), of r2 base pat h pk rest q ps cfg s1 upd w'] row path fresh(1)
      r1(2) r1s by (auto simp: r2_def)
  define r3 where "r3 = upd (r2\<lparr>URLParams := up\<rparr>)"
  have r3: "URLParams r3 = up" "r3 = upd (r1\<lparr>BodyMax := Some (cfg_MaxBodyBytes cfg), URLParams := URLParams r3\<rparr>)"
    by (simp_all add: r3_def r2_def lets_in_same [OF auth])
  have "server ch pk cfg r (s, w) = h r3 (s', w')" using d(1) own(1) r1(4) by (simp add: r2_def s1_def r3_def)
  moreover have "\<forall>(k, v) \<in> set ps. URLParam r3 k = v" using d(2) r3(1) by (simp add: URLParam_def)
  moreover have "app_db s' = app_db s" "new_uuids s' = new_uuids s" using d(3) s1 by auto
  ultimately show ?thesis using own(2,3) r1(1) r3(2) by blast
qed

text \<open>
  C3. The whole server serves the whole API: for every row of the table, a request with that method
  and a path of that pattern, whose credentials identify somebody, whose declared length is within
  the limit and whose remote address, as chi's middleware hands it on, the rate limiter admits, reaches
  exactly that handler, whatever the limiter thinks of other addresses. The handler sees the
  identity, the parameter of the path, the headers, query and body that were sent, the body limit,
  and the database as it was.
\<close>

theorem server_dispatch:
  assumes chi: "chi_ok ch" "chi_routes rp (chi_ServeHTTP ch)"
    and row: "(Method r, base, pat, h) \<in> set (api_table pk)"
    and path: "URLPath r = ''/api/v1'' @ base @ rest" "mount_rest base (base @ rest) = Some q" "match_path pat q = Some ps"
    and fresh: "URLParams r = Map.empty" "BodyMax r = None" "rw_sent w = None"
    and size: "ContentLength r \<le> cfg_MaxBodyBytes cfg"
    and rate: "KeyFunc (rl_cfg (limiter s)) = Some RemoteAddr"
      "admitted (fst (rl_admit (limiter s) (seen_addr ch r (s, w)) (clock s 0)))"
    and auth: "auth_enabled cfg"
      "identify (auth_config cfg) (Header_Get (ReqHeader r) ''Authorization'') (clock s 1) = Inr (sub, role, meth)"
  shows "\<exists>r' s' w'. server ch pk cfg r (s, w) = h r' (s', w') \<and>
    SubjectFromContext (Ctx r') = sub \<and> RoleFromContext (Ctx r') = role \<and> AuthMethodFromContext (Ctx r') = meth \<and>
    (\<forall>(k, v) \<in> set ps. URLParam r' k = v) \<and>
    ReqHeader r' = ReqHeader r \<and> RawQuery r' = RawQuery r \<and> Body r' = Body r \<and> BodyMax r' = Some (cfg_MaxBodyBytes cfg) \<and>
    app_db s' = app_db s \<and> new_uuids s' = new_uuids s \<and> rw_sent w' = None \<and> rw_body w' = rw_body w"
proof -
  have "lets_in cfg r (clock s 1) (with_identity sub role meth)" using auth by (simp add: lets_in_def)
  from dispatched [OF chi row path fresh size rate this] obtain r1 r' s' w' where d:
      "server ch pk cfg r (s, w) = h r' (s', w')" "same_request r r1"
      "r' = with_identity sub role meth (r1\<lparr>BodyMax := Some (cfg_MaxBodyBytes cfg), URLParams := URLParams r'\<rparr>)"
      "\<forall>(k, v) \<in> set ps. URLParam r' k = v"
      "app_db s' = app_db s" "new_uuids s' = new_uuids s" "rw_sent w' = None" "rw_body w' = rw_body w"
    by blast
  let ?r = "r1\<lparr>BodyMax := Some (cfg_MaxBodyBytes cfg), URLParams := URLParams r'\<rparr>"
  have "SubjectFromContext (Ctx r') = sub" "RoleFromContext (Ctx r') = role" "AuthMethodFromContext (Ctx r') = meth"
    by (subst d(3), simp)+
  moreover have "ReqHeader r' = ReqHeader ?r" "RawQuery r' = RawQuery ?r" "Body r' = Body ?r" "BodyMax r' = BodyMax ?r"
    by (subst d(3), simp add: with_identity_def)+
  ultimately show ?thesis using d(1,4-8) same_request_simps [OF d(2)] by auto
qed

text \<open>
  C36. Without a secret and without API keys the API is open: for every row of the table, a request with
  that method and a path of that pattern, within the body limit, whose remote address the rate limiter admits,
  reaches exactly that handler whatever its Authorization header says, and no identity is added
  to its context.
\<close>

theorem server_open:
  assumes chi: "chi_ok ch" "chi_routes rp (chi_ServeHTTP ch)"
    and row: "(Method r, base, pat, h) \<in> set (api_table pk)"
    and path: "URLPath r = ''/api/v1'' @ base @ rest" "mount_rest base (base @ rest) = Some q" "match_path pat q = Some ps"
    and fresh: "URLParams r = Map.empty" "BodyMax r = None" "rw_sent w = None"
    and size: "ContentLength r \<le> cfg_MaxBodyBytes cfg"
    and rate: "KeyFunc (rl_cfg (limiter s)) = Some RemoteAddr"
      "admitted (fst (rl_admit (limiter s) (seen_addr ch r (s, w)) (clock s 0)))"
    and open_api: "cfg_JWTSecret cfg = []" "cfg_APIKeys cfg = []"
  shows "\<exists>r' s' w'. server ch pk cfg r (s, w) = h r' (s', w') \<and>
    Ctx r' = Ctx r \<and> (\<forall>(k, v) \<in> set ps. URLParam r' k = v) \<and>
    ReqHeader r' = ReqHeader r \<and> RawQuery r' = RawQuery r \<and> Body r' = Body r \<and> BodyMax r' = Some (cfg_MaxBodyBytes cfg) \<and>
    app_db s' = app_db s \<and> new_uuids s' = new_uuids s \<and> rw_sent w' = None \<and> rw_body w' = rw_body w"
proof -
  have "lets_in cfg r (clock s 1) id" using open_api by (simp add: lets_in_def auth_enabled_def)
  from dispatched [OF chi row path fresh size rate this] obtain r1 r' s' w' where d:
      "server ch pk cfg r (s, w) = h r' (s', w')" "same_request r r1"
      "r' = id (r1\<lparr>BodyMax := Some (cfg_MaxBodyBytes cfg), URLParams := URLParams r'\<rparr>)"
      "\<forall>(k, v) \<in> set ps. URLParam r' k = v"
      "app_db s' = app_db s" "new_uuids s' = new_uuids s" "rw_sent w' = None" "rw_body w' = rw_body w"
    by blast
  let ?r = "r1\<lparr>BodyMax := Some (cfg_MaxBodyBytes cfg), URLParams := URLParams r'\<rparr>"
  have "Ctx r' = Ctx ?r" "ReqHeader r' = ReqHeader ?r" "RawQuery r' = RawQuery ?r" "Body r' = Body ?r" "BodyMax r' = BodyMax ?r"
    by (subst d(3), simp)+
  then show ?thesis
    using d(1,4-8) same_request_simps [OF d(2)] by (intro exI [of _ r'] exI [of _ s'] exI [of _ w']) simp
qed

text \<open>Alice creates a gateway with her API key.\<close>

definition alice_post :: request where
  "alice_post = demo_post\<lparr>ReqHeader := [''Authorization'' \<mapsto> [''ApiKey k1'']]\<rparr>"

lemma alice_identified:
  "identify (auth_config demo_config) ''ApiKey k1'' t = Inr (''alice'', ''admin'', AuthMethodAPIKey)"
proof -
  have "APIKeys (auth_config demo_config) = [\<lparr>key_Key = ''k1'', key_Subject = ''alice'', key_Role = ''admin''\<rparr>]"
    by (simp only: auth_config_def demo_config_def AuthConfig.simps Config.simps) code_simp
  moreover have "ToLower ''ApiKey'' = ''apikey''" by code_simp
  ultimately show ?thesis by (simp add: identify_def validateAPIKey_def last_match_find)
qed

text \<open>A POST to the gateways on a fresh server with the small router.\<close>

lemma demo_dispatch:
  fixes pk :: "qsgw_db pkgs"
  shows "(''POST'', ''/gateways'', ''/'', GatewayHandler_Create pk :: qsgw_db app handler) \<in> set (api_table pk)"
    and "mount_rest ''/gateways'' (''/gateways'' @ []) = Some ''/''" "match_path ''/'' ''/'' = Some []"
    and "admitted (fst (rl_admit (limiter demo_app) k (clock demo_app 0)))" "KeyFunc (rl_cfg (limiter demo_app)) = Some RemoteAddr"
    and "chi_routes route_path (chi_ServeHTTP (simple_chi :: qsgw_db app chi))"
proof -
  show "(''POST'', ''/gateways'', ''/'', GatewayHandler_Create pk :: qsgw_db app handler) \<in> set (api_table pk)"
    unfolding api_table_def by (rule list.set_intros)
  show "mount_rest ''/gateways'' (''/gateways'' @ []) = Some ''/''" "match_path ''/'' ''/'' = Some []"
    unfolding mount_rest_append match_patterns by simp_all
  show "admitted (fst (rl_admit (limiter demo_app) k (clock demo_app 0)))" "KeyFunc (rl_cfg (limiter demo_app)) = Some RemoteAddr"
    by (simp_all add: demo_app_def rl_admit_def NewRateLimiter_def admitted_def DefaultRateLimitConfig_def normalize_config_def
        Let_def fcard_fempty)
  show "chi_routes route_path (chi_ServeHTTP (simple_chi :: qsgw_db app chi))"
    using simple_serve_routes by (simp add: simple_chi_def)
qed

theorem server_dispatch_witness:
  "\<exists>r' s' w'. server simple_chi (qsgw_pkgs uuid_text uuid_read) demo_config alice_post (demo_app, rw_new) =
       GatewayHandler_Create (qsgw_pkgs uuid_text uuid_read) r' (s', w') \<and>
     SubjectFromContext (Ctx r') = ''alice'' \<and> Body r' = json_encode (cg_json demo_cg) \<and> app_db s' = app_db demo_app"
proof -
  let ?pk = "qsgw_pkgs uuid_text uuid_read"
  have r: "Method alice_post = ''POST''" "URLPath alice_post = ''/api/v1'' @ ''/gateways'' @ []" "URLParams alice_post = Map.empty"
    "BodyMax alice_post = None" "ContentLength alice_post = 0" "Body alice_post = json_encode (cg_json demo_cg)"
    "Header_Get (ReqHeader alice_post) ''Authorization'' = ''ApiKey k1''"
    by (simp_all add: alice_post_def demo_post_def demo_request_def Header_Get_def)
  have "auth_enabled demo_config" "0 \<le> cfg_MaxBodyBytes demo_config" by (simp_all add: auth_enabled_def demo_config_def)
  then show ?thesis
    using server_dispatch [OF simple_chi_ok demo_dispatch(6), of alice_post "''/gateways''" "''/''" "GatewayHandler_Create ?pk" ?pk
        "[]" "''/''" "[]" rw_new demo_config demo_app "''alice''" "''admin''" AuthMethodAPIKey] alice_identified r
      demo_dispatch(1-5) by auto
qed

theorem server_open_witness:
  "\<exists>r' s' w'. server simple_chi (qsgw_pkgs uuid_text uuid_read) open_config (demo_post\<lparr>ReqHeader := Map.empty\<rparr>) (demo_app, rw_new) =
       GatewayHandler_Create (qsgw_pkgs uuid_text uuid_read) r' (s', w') \<and>
     Ctx r' = Map.empty \<and> Body r' = json_encode (cg_json demo_cg) \<and> app_db s' = app_db demo_app"
proof -
  let ?pk = "qsgw_pkgs uuid_text uuid_read" and ?r = "demo_post\<lparr>ReqHeader := Map.empty\<rparr>"
  have r: "Method ?r = ''POST''" "URLPath ?r = ''/api/v1'' @ ''/gateways'' @ []" "URLParams ?r = Map.empty"
    "BodyMax ?r = None" "ContentLength ?r = 0" "Body ?r = json_encode (cg_json demo_cg)" "Ctx ?r = Map.empty"
    by (simp_all add: demo_post_def demo_request_def)
  have "0 \<le> cfg_MaxBodyBytes open_config" "cfg_JWTSecret open_config = []" "cfg_APIKeys open_config = []"
    by (simp_all add: open_config_def demo_config_def)
  then show ?thesis
    using server_open [OF simple_chi_ok demo_dispatch(6), of ?r "''/gateways''" "''/''" "GatewayHandler_Create ?pk" ?pk
        "[]" "''/''" "[]" rw_new open_config demo_app] r demo_dispatch(1-5) by auto
qed

end
