(* ===== verification/Interleave.thy ===== *)
theory Interleave
  imports Prelude
begin

text \<open>
  Concurrent requests. The goroutine of a request is a program of atomic steps on the shared state; the
  steps of different requests interleave in any order. Two interfaces carry the proofs over schedules:
  what every single step keeps holds in every state that a schedule reaches (\<open>interleaving\<close>), and
  programs whose last step is the only one that a specification can see behave, in the order of
  their answers, as the specification does (\<open>linearizable\<close>).
\<close>

section \<open>Programs of atomic steps\<close>

datatype ('s, 'r) proc = Return 'r | Step "'s \<Rightarrow> ('s, 'r) proc \<times> 's"

definition atomic :: "('s \<Rightarrow> 'r \<times> 's) \<Rightarrow> ('s, 'r) proc" where
  "atomic f = Step (\<lambda>s. (Return (fst (f s)), snd (f s)))"

definition reading :: "('s \<Rightarrow> 'r) \<Rightarrow> ('s, 'r) proc" where
  "reading f = Step (\<lambda>s. (Return (f s), s))"

primrec proc_bind :: "('s, 'a) proc \<Rightarrow> ('a \<Rightarrow> ('s, 'b) proc) \<Rightarrow> ('s, 'b) proc" where
  "proc_bind (Return x) k = k x"
| "proc_bind (Step f) k = Step (\<lambda>s. map_prod (\<lambda>p. proc_bind p k) id (f s))"

lemma bind_atomic:
  "proc_bind (atomic f) k = Step (\<lambda>s. (k (fst (f s)), snd (f s)))"
  "proc_bind (reading g) k = Step (\<lambda>s. (k (g s), s))"
  by (simp_all add: atomic_def reading_def)

text \<open>A program that nothing interrupts.\<close>

primrec run_alone :: "('s, 'r) proc \<Rightarrow> 's \<Rightarrow> 'r \<times> 's" where
  "run_alone (Return x) s = (x, s)"
| "run_alone (Step f) s = (let (g, s') = map_prod run_alone id (f s) in g s')"

lemma run_alone_bind: "run_alone (proc_bind p k) s = (let (x, s') = run_alone p s in run_alone (k x) s')"
proof (induction p arbitrary: s)
  case (Step f)
  obtain p s' where f: "f s = (p, s')" by fastforce
  then have "run_alone (proc_bind p k) s' = (let (x, s'') = run_alone p s' in run_alone (k x) s'')"
    using Step [OF rangeI [of f s], of p s'] by simp
  then show ?case using f by simp
qed simp

lemma run_alone_atomic [simp]: "run_alone (atomic f) s = f s" "run_alone (reading g) s = (g s, s)"
  by (simp_all add: atomic_def reading_def)

text \<open>A program that ends after at most \<open>n\<close> of its own steps, whatever the state is at each of them.\<close>

primrec ends_within :: "nat \<Rightarrow> ('s, 'r) proc \<Rightarrow> bool" where
  "ends_within 0 p \<longleftrightarrow> (case p of Return _ \<Rightarrow> True | Step _ \<Rightarrow> False)"
| "ends_within (Suc n) p \<longleftrightarrow> (case p of Return _ \<Rightarrow> True | Step f \<Rightarrow> \<forall>s. ends_within n (fst (f s)))"

lemma ends_within_Return [simp]: "ends_within n (Return x)"
  by (cases n) simp_all

lemma ends_within_Step [simp]: "ends_within (Suc n) (Step f) \<longleftrightarrow> (\<forall>s. ends_within n (fst (f s)))"
  by simp

lemma ends_within_mono: "ends_within n p \<Longrightarrow> n \<le> m \<Longrightarrow> ends_within m p"
proof (induction n arbitrary: p m)
  case 0
  then show ?case by (cases p) auto
next
  case (Suc n)
  then obtain m' where "m = Suc m'" by (cases m) auto
  then show ?case using Suc by (cases p) auto
qed

lemma ends_within_bind:
  "ends_within n p \<Longrightarrow> (\<And>x. ends_within m (k x)) \<Longrightarrow> ends_within (n + m) (proc_bind p k)"
proof (induction n arbitrary: p)
  case 0
  then show ?case by (cases p) auto
next
  case (Suc n)
  then show ?case
  proof (cases p)
    case (Return x)
    then show ?thesis using ends_within_mono [OF Suc.prems(2), of "Suc n + m" x] by simp
  qed auto
qed

declare ends_within.simps(2) [simp del]

lemma ends_within_atomic [simp]: "ends_within (Suc n) (atomic f)" "ends_within (Suc n) (reading g)"
  by (simp_all add: atomic_def reading_def)

lemma ends_within_bind_atomic: "(\<And>x. ends_within n (k x)) \<Longrightarrow> ends_within (Suc n) (proc_bind (atomic f) k)"
  by (simp add: atomic_def)

section \<open>Schedules\<close>

text \<open>
  A request arrives and starts its thread, or a thread makes its next step. An answer is recorded
  with the thread, the state its request arrived in and the request.
\<close>

datatype 'c event = Arrive 'c | Run nat

record ('s, 'c, 'r) thread =
  th_call :: 'c
  th_begin :: 's
  th_proc :: "('s, 'r) proc"

record ('s, 'c, 'r) conc =
  conc_state :: 's
  conc_threads :: "('s, 'c, 'r) thread list"
  conc_log :: "(nat \<times> 's \<times> 'c \<times> 'r) list"

definition conc_start :: "'s \<Rightarrow> ('s, 'c, 'r) conc" where
  "conc_start s = \<lparr>conc_state = s, conc_threads = [], conc_log = []\<rparr>"

definition answer_of :: "nat \<Rightarrow> ('s, 'c, 'r) thread \<Rightarrow> (nat \<times> 's \<times> 'c \<times> 'r) list" where
  "answer_of t th = (case th_proc th of Return r \<Rightarrow> [(t, th_begin th, th_call th, r)] | Step _ \<Rightarrow> [])"

fun conc_step :: "('c \<Rightarrow> ('s, 'r) proc) \<Rightarrow> 'c event \<Rightarrow> ('s, 'c, 'r) conc \<Rightarrow> ('s, 'c, 'r) conc" where
  "conc_step prog (Arrive c) cf =
     (let th = \<lparr>th_call = c, th_begin = conc_state cf, th_proc = prog c\<rparr> in
      cf\<lparr>conc_threads := conc_threads cf @ [th], conc_log := conc_log cf @ answer_of (length (conc_threads cf)) th\<rparr>)"
| "conc_step prog (Run t) cf =
     (if t < length (conc_threads cf) then
        (case th_proc (conc_threads cf ! t) of
           Return _ \<Rightarrow> cf
         | Step f \<Rightarrow>
             let (p, s') = f (conc_state cf); th = (conc_threads cf ! t)\<lparr>th_proc := p\<rparr> in
             cf\<lparr>conc_state := s', conc_threads := (conc_threads cf)[t := th], conc_log := conc_log cf @ answer_of t th\<rparr>)
      else cf)"

definition calls_of :: "'c event list \<Rightarrow> 'c list" where
  "calls_of es = List.map_filter (\<lambda>e. case e of Arrive c \<Rightarrow> Some c | Run _ \<Rightarrow> None) es"

lemma calls_of_simps [simp]:
  "calls_of [] = []" "calls_of (Arrive c # es) = c # calls_of es" "calls_of (Run t # es) = calls_of es"
  by (simp_all add: calls_of_def List.map_filter_def)

lemma answer_of_simps [simp]:
  "th_proc th = Return r \<Longrightarrow> answer_of t th = [(t, th_begin th, th_call th, r)]"
  "th_proc th = Step f \<Longrightarrow> answer_of t th = []"
  by (simp_all add: answer_of_def)

section \<open>What every step keeps\<close>

text \<open>Every step of a program changes the state by \<open>R\<close>, from whatever state it is made.\<close>

inductive does :: "('s \<Rightarrow> 's \<Rightarrow> bool) \<Rightarrow> ('s, 'r) proc \<Rightarrow> bool" for R where
  does_Return: "does R (Return x)"
| does_Step: "(\<And>s. R s (snd (f s))) \<Longrightarrow> (\<And>s. does R (fst (f s))) \<Longrightarrow> does R (Step f)"

inductive_simps does_simps [simp]: "does R (Return x)" "does R (Step f)"

lemma does_atomic: "(\<And>s. R s (snd (f s))) \<Longrightarrow> does R (atomic f)"
  by (simp add: atomic_def)

lemma does_reading: "(\<And>s. R s s) \<Longrightarrow> does R (reading f)"
  by (simp add: reading_def)

lemma does_bind: "does R p \<Longrightarrow> (\<And>x. does R (k x)) \<Longrightarrow> does R (proc_bind p k)"
  by (induction rule: does.induct) simp_all

lemma does_mono: "does R p \<Longrightarrow> (\<And>s t. R s t \<Longrightarrow> R' s t) \<Longrightarrow> does R' p"
  by (induction rule: does.induct) simp_all

locale interleaving =
  fixes prog :: "'c \<Rightarrow> ('s, 'r) proc"
    and inv :: "'s \<Rightarrow> bool"
  assumes prog_keeps: "does (\<lambda>s t. inv s \<longrightarrow> inv t) (prog c)"
begin

definition conc_inv :: "('s, 'c, 'r) conc \<Rightarrow> bool" where
  "conc_inv cf \<longleftrightarrow> inv (conc_state cf) \<and> (\<forall>th \<in> set (conc_threads cf). does (\<lambda>s t. inv s \<longrightarrow> inv t) (th_proc th))"

lemma conc_inv_step: "conc_inv cf \<Longrightarrow> conc_inv (conc_step prog e cf)"
proof (cases e)
  case (Run t)
  assume inv: "conc_inv cf"
  show ?thesis
  proof (cases "t < length (conc_threads cf)")
    case True
    then have "does (\<lambda>s t. inv s \<longrightarrow> inv t) (th_proc (conc_threads cf ! t))" using inv by (simp add: conc_inv_def)
    then show ?thesis
      using Run True inv set_update_subset_insert [of "conc_threads cf" t]
      by (cases "th_proc (conc_threads cf ! t)") (fastforce simp: conc_inv_def Let_def split_def)+
  qed (use Run inv in simp)
qed (simp add: conc_inv_def Let_def prog_keeps)

end

sublocale interleaving \<subseteq> schedule: run_invariant "conc_step prog" conc_inv
  by unfold_locales (rule conc_inv_step)

context interleaving
begin

lemma inv_schedule: "inv s \<Longrightarrow> inv (conc_state (run_steps (conc_step prog) es (conc_start s)))"
  using schedule.inv_run [of "conc_start s" es] by (simp add: conc_inv_def conc_start_def)

end

section \<open>Every answer is recorded\<close>

definition log_ok :: "('s, 'c, 'r) conc \<Rightarrow> bool" where
  "log_ok cf \<longleftrightarrow> distinct (map fst (conc_log cf)) \<and>
     (\<forall>t b c r. (t, b, c, r) \<in> set (conc_log cf) \<longleftrightarrow> t < length (conc_threads cf) \<and>
        conc_threads cf ! t = \<lparr>th_call = c, th_begin = b, th_proc = Return r\<rparr>)"

lemma log_ok_Run:
  assumes "log_ok cf" "t < length (conc_threads cf)" "th_proc (conc_threads cf ! t) = Step f"
  shows "log_ok (conc_step prog (Run t) cf)"
proof -
  define th where "th = (conc_threads cf ! t)\<lparr>th_proc := fst (f (conc_state cf))\<rparr>"
  have step: "conc_step prog (Run t) cf = cf\<lparr>conc_state := snd (f (conc_state cf)),
      conc_threads := (conc_threads cf)[t := th], conc_log := conc_log cf @ answer_of t th\<rparr>"
    using assms(2,3) by (simp add: th_def Let_def split_def)
  have new: "t \<notin> fst ` set (conc_log cf)" using assms by (auto simp: log_ok_def)
  have "(i, b, c, r) \<in> set (conc_log cf @ answer_of t th) \<longleftrightarrow> i < length (conc_threads cf) \<and>
      (conc_threads cf)[t := th] ! i = \<lparr>th_call = c, th_begin = b, th_proc = Return r\<rparr>" for i b c r
    using assms new by (cases th; cases "th_proc th") (auto simp: log_ok_def nth_list_update)
  moreover have "distinct (map fst (conc_log cf @ answer_of t th))"
    using assms(1) new by (cases "th_proc th") (auto simp: log_ok_def)
  ultimately show ?thesis unfolding step by (simp add: log_ok_def)
qed

lemma log_ok_step:
  assumes "log_ok cf"
  shows "log_ok (conc_step prog e cf)"
proof (cases e)
  case (Arrive c)
  have "fst ` set (conc_log cf) \<subseteq> {..<length (conc_threads cf)}" using assms by (auto simp: log_ok_def)
  then show ?thesis
    using assms Arrive by (cases "prog c") (auto simp: log_ok_def Let_def nth_append less_Suc_eq split: if_splits)
next
  case (Run t)
  show ?thesis
  proof (cases "t < length (conc_threads cf)")
    case True
    then show ?thesis
      using log_ok_Run [OF assms True] assms Run by (cases "th_proc (conc_threads cf ! t)") auto
  qed (use assms Run in simp)
qed

interpretation logging: run_invariant "conc_step prog" log_ok for prog
  by unfold_locales (rule log_ok_step)

lemma log_ok_start: "log_ok (conc_start s)"
  by (simp add: log_ok_def conc_start_def)

lemma filter_fst_distinct: "distinct (map fst xs) \<Longrightarrow> (k, v) \<in> set xs \<Longrightarrow> filter (\<lambda>x. fst x = k) xs = [(k, v)]"
proof (induction xs)
  case (Cons x xs)
  show ?case
  proof (cases "fst x = k")
    case True
    then have "k \<notin> fst ` set xs" using Cons.prems(1) by auto
    then have "filter (\<lambda>x. fst x = k) xs = []" "x = (k, v)"
      using Cons.prems(2) by (auto simp: filter_empty_conv image_iff)
    then show ?thesis by simp
  qed (use Cons in auto)
qed simp

section \<open>Threads end\<close>

lemma step_thread:
  assumes "t < length (conc_threads cf)" "ends_within k (th_proc (conc_threads cf ! t))"
  shows "t < length (conc_threads (conc_step prog e cf))"
    and "ends_within (if e = Run t then k - 1 else k) (th_proc (conc_threads (conc_step prog e cf) ! t))"
    and "th_call (conc_threads (conc_step prog e cf) ! t) = th_call (conc_threads cf ! t)"
proof -
  have own: "ends_within (k - 1) (fst (f (conc_state cf)))" if "th_proc (conc_threads cf ! t) = Step f" for f
    using assms(2) that by (cases k) auto
  show "t < length (conc_threads (conc_step prog e cf))"
    using assms(1) by (cases e) (auto simp: Let_def split_def split: proc.splits)
  show "th_call (conc_threads (conc_step prog e cf) ! t) = th_call (conc_threads cf ! t)"
    using assms(1) by (cases e) (auto simp: Let_def split_def nth_append nth_list_update split: proc.splits)
  show "ends_within (if e = Run t then k - 1 else k) (th_proc (conc_threads (conc_step prog e cf) ! t))"
    using assms own by (cases e) (auto simp: Let_def split_def nth_append nth_list_update split: proc.splits)
qed

lemma thread_ends:
  assumes "t < length (conc_threads cf)" "ends_within k (th_proc (conc_threads cf ! t))" "k \<le> count_list es (Run t)"
  shows "\<exists>r. t < length (conc_threads (run_steps (conc_step prog) es cf)) \<and>
    th_proc (conc_threads (run_steps (conc_step prog) es cf) ! t) = Return r \<and>
    th_call (conc_threads (run_steps (conc_step prog) es cf) ! t) = th_call (conc_threads cf ! t)"
  using assms
proof (induction es arbitrary: cf k)
  case Nil
  then show ?case by (cases "th_proc (conc_threads cf ! t)") auto
next
  case (Cons e es)
  note st = step_thread [OF Cons.prems(1,2), where prog = prog and e = e]
  have "(if e = Run t then k - 1 else k) \<le> count_list es (Run t)" using Cons.prems(3) by (auto split: if_splits)
  then show ?case using Cons.IH [OF st(1,2)] st(3) by simp
qed

text \<open>
  A thread that gets its number of steps after its arrival has answered, whatever the schedule does
  besides.
\<close>

lemma arrival_answered:
  assumes "ends_within n (prog c)" "n \<le> count_list es' (Run t)" "t = length (calls_of es)"
  shows "\<exists>b r. (t, b, c, r) \<in> set (conc_log (run_steps (conc_step prog) (es @ Arrive c # es') (conc_start s)))"
proof -
  have len: "length (conc_threads (run_steps (conc_step prog) es cf)) = length (conc_threads cf) + length (calls_of es)"
    for cf
  proof (induction es arbitrary: cf)
    case (Cons e es)
    then show ?case by (cases e) (auto simp: Let_def split_def split: proc.splits)
  qed simp
  define cf where "cf = run_steps (conc_step prog) es (conc_start s)"
  define cf' where "cf' = conc_step prog (Arrive c) cf"
  let ?last = "run_steps (conc_step prog) es' cf'"
  have "length (conc_threads cf) = t" by (simp add: cf_def len assms(3) conc_start_def)
  then have t: "t < length (conc_threads cf')" "th_proc (conc_threads cf' ! t) = prog c" "th_call (conc_threads cf' ! t) = c"
    by (simp_all add: cf'_def Let_def nth_append)
  obtain r where r: "t < length (conc_threads ?last)" "th_proc (conc_threads ?last ! t) = Return r"
      "th_call (conc_threads ?last ! t) = c"
    using thread_ends [where t = t and cf = cf' and k = n and es = es' and prog = prog] t assms(1,2) by auto
  have eq: "run_steps (conc_step prog) (es @ Arrive c # es') (conc_start s) = ?last"
    by (simp add: run_steps_append cf'_def cf_def)
  have "log_ok ?last" using logging.inv_run [OF log_ok_start] eq by metis
  then show ?thesis unfolding eq using r by (cases "conc_threads ?last ! t") (auto simp: log_ok_def)
qed

section \<open>What is answered\<close>

text \<open>Every result of a program satisfies \<open>P\<close>, whatever states its steps find.\<close>

inductive returns :: "('r \<Rightarrow> bool) \<Rightarrow> ('s, 'r) proc \<Rightarrow> bool" for P where
  returns_Return: "P x \<Longrightarrow> returns P (Return x)"
| returns_Step: "(\<And>s. returns P (fst (f s))) \<Longrightarrow> returns P (Step f)"

inductive_simps returns_simps [simp]: "returns P (Return x)" "returns P (Step f)"

lemma returns_bind: "(\<And>x. returns P (k x)) \<Longrightarrow> returns P (proc_bind p k)"
proof (induction p)
  case (Step f)
  have "returns P (proc_bind (fst (f s)) k)" for s
    using Step.IH [OF rangeI [of f s]] Step.prems by (cases "f s") auto
  then show ?case by simp
qed simp

lemma returns_mono: "returns P p \<Longrightarrow> (\<And>x. P x \<Longrightarrow> Q x) \<Longrightarrow> returns Q p"
  by (induction rule: returns.induct) simp_all

locale answering =
  fixes prog :: "'c \<Rightarrow> ('s, 'r) proc"
    and good :: "'c \<Rightarrow> 'r \<Rightarrow> bool"
  assumes prog_returns: "returns (good c) (prog c)"
begin

definition threads_good :: "('s, 'c, 'r) conc \<Rightarrow> bool" where
  "threads_good cf \<longleftrightarrow> (\<forall>th \<in> set (conc_threads cf). returns (good (th_call th)) (th_proc th))"

lemma threads_good_step: "threads_good cf \<Longrightarrow> threads_good (conc_step prog e cf)"
proof (cases e)
  case (Run t)
  assume good: "threads_good cf"
  show ?thesis
  proof (cases "t < length (conc_threads cf)")
    case True
    then have "returns (good (th_call (conc_threads cf ! t))) (th_proc (conc_threads cf ! t))"
      using good by (simp add: threads_good_def)
    then show ?thesis
      using Run True good set_update_subset_insert [of "conc_threads cf" t]
      by (cases "th_proc (conc_threads cf ! t)") (fastforce simp: threads_good_def Let_def split_def)+
  qed (use Run good in simp)
qed (simp add: threads_good_def Let_def prog_returns)

end

sublocale answering \<subseteq> answers_run: run_invariant "conc_step prog" threads_good
  by unfold_locales (rule threads_good_step)

context answering
begin

lemma log_good:
  assumes "(t, b, c, r) \<in> set (conc_log (run_steps (conc_step prog) es (conc_start s)))"
  shows "good c r"
proof -
  let ?cf = "run_steps (conc_step prog) es (conc_start s)"
  have "threads_good ?cf" by (rule answers_run.inv_run) (simp add: threads_good_def conc_start_def)
  moreover have "log_ok ?cf" by (rule logging.inv_run [OF log_ok_start])
  ultimately show ?thesis using assms by (fastforce simp: log_ok_def threads_good_def dest: nth_mem)
qed

text \<open>A thread that got its steps has given one answer, and a good one.\<close>

lemma answered_once:
  assumes "ends_within n (prog c)" "n \<le> count_list es' (Run t)" "t = length (calls_of es)"
  shows "\<exists>b r. filter (\<lambda>x. fst x = t) (conc_log (run_steps (conc_step prog) (es @ Arrive c # es') (conc_start s))) = [(t, b, c, r)]
    \<and> good c r"
proof -
  let ?log = "conc_log (run_steps (conc_step prog) (es @ Arrive c # es') (conc_start s))"
  obtain b r where r: "(t, b, c, r) \<in> set ?log" using arrival_answered [where prog = prog and c = c, OF assms] by blast
  have "distinct (map fst ?log)" using logging.inv_run [OF log_ok_start] by (metis log_ok_def)
  then have "filter (\<lambda>x. fst x = t) ?log = [(t, b, c, r)]" using filter_fst_distinct [OF _ r] by simp
  with log_good [OF r] show ?thesis by blast
qed

end

section \<open>Linearization\<close>

text \<open>
  A specification relates the abstract state at the arrival of a call, the one before and the one
  after it takes effect, and the reply. The answers of a schedule are a run of it, in the order
  in which they were given.
\<close>

inductive lin_run :: "('s \<Rightarrow> 'm) \<Rightarrow> ('m \<Rightarrow> 'm \<Rightarrow> 'c \<Rightarrow> 'r \<Rightarrow> 'm \<Rightarrow> bool) \<Rightarrow> 'm \<Rightarrow> (nat \<times> 's \<times> 'c \<times> 'r) list \<Rightarrow> 'm \<Rightarrow> bool"
  for abst spec m where
  lin_Nil: "lin_run abst spec m [] m"
| lin_snoc: "lin_run abst spec m es m1 \<Longrightarrow> spec (abst b) m1 c r m2 \<Longrightarrow> lin_run abst spec m (es @ [(t, b, c, r)]) m2"

text \<open>
  The rest of a thread, from any later state: a step that does not end it is invisible, the last one is
  a step of the specification. \<open>le\<close> is what all threads do to the state.
\<close>

inductive behaves :: "('s \<Rightarrow> 'm) \<Rightarrow> ('m \<Rightarrow> 'm \<Rightarrow> 'c \<Rightarrow> 'r \<Rightarrow> 'm \<Rightarrow> bool) \<Rightarrow> ('s \<Rightarrow> bool) \<Rightarrow> ('s \<Rightarrow> 's \<Rightarrow> bool) \<Rightarrow>
    's \<Rightarrow> 'c \<Rightarrow> 's \<Rightarrow> ('s, 'r) proc \<Rightarrow> bool" for abst spec P le b c where
  behaves_Step: "(\<And>s. P s \<Longrightarrow> le s0 s \<Longrightarrow> P (snd (f s)) \<and> le s (snd (f s)) \<and>
       (\<forall>r. fst (f s) = Return r \<longrightarrow> spec (abst b) (abst s) c r (abst (snd (f s)))) \<and>
       (\<forall>g. fst (f s) = Step g \<longrightarrow> abst (snd (f s)) = abst s \<and> behaves abst spec P le b c (snd (f s)) (fst (f s))))
     \<Longrightarrow> behaves abst spec P le b c s0 (Step f)"

inductive_cases behavesE: "behaves abst spec P le b c s0 (Step f)"

locale linearizable =
  fixes prog :: "'c \<Rightarrow> ('s, 'r) proc"
    and abst :: "'s \<Rightarrow> 'm"
    and spec :: "'m \<Rightarrow> 'm \<Rightarrow> 'c \<Rightarrow> 'r \<Rightarrow> 'm \<Rightarrow> bool"
    and inv :: "'s \<Rightarrow> bool"
    and le :: "'s \<Rightarrow> 's \<Rightarrow> bool"
    and ok :: "'c \<Rightarrow> bool"
  assumes le_refl: "le s s"
    and le_trans: "le s t \<Longrightarrow> le t u \<Longrightarrow> le s u"
    and prog_Return: "inv s \<Longrightarrow> ok c \<Longrightarrow> prog c = Return r \<Longrightarrow> spec (abst s) (abst s) c r (abst s)"
    and prog_Step: "inv s \<Longrightarrow> ok c \<Longrightarrow> prog c = Step f \<Longrightarrow> behaves abst spec inv le s c s (Step f)"
begin

definition conc_sim :: "'m \<Rightarrow> ('s, 'c, 'r) conc \<Rightarrow> bool" where
  "conc_sim m cf \<longleftrightarrow> inv (conc_state cf) \<and> lin_run abst spec m (conc_log cf) (abst (conc_state cf)) \<and>
     (\<forall>th \<in> set (conc_threads cf). \<forall>f. th_proc th = Step f \<longrightarrow>
        (\<exists>s0. le s0 (conc_state cf) \<and> behaves abst spec inv le (th_begin th) (th_call th) s0 (Step f)))"

lemma sim_Arrive:
  assumes "conc_sim m cf" "ok c"
  shows "conc_sim m (conc_step prog (Arrive c) cf)"
proof (cases "prog c")
  case (Return r)
  have "spec (abst (conc_state cf)) (abst (conc_state cf)) c r (abst (conc_state cf))"
    using prog_Return [OF _ assms(2) Return] assms(1) by (simp add: conc_sim_def)
  then show ?thesis using assms(1) Return by (auto simp: conc_sim_def Let_def intro: lin_snoc)
next
  case (Step f)
  have "behaves abst spec inv le (conc_state cf) c (conc_state cf) (Step f)"
    using prog_Step [OF _ assms(2) Step] assms(1) by (simp add: conc_sim_def)
  then show ?thesis using assms(1) Step le_refl by (auto simp: conc_sim_def Let_def)
qed

lemma sim_Run:
  assumes sim: "conc_sim m cf" and t: "t < length (conc_threads cf)" and f: "th_proc (conc_threads cf ! t) = Step f"
  shows "conc_sim m (conc_step prog (Run t) cf)"
proof -
  let ?s = "conc_state cf" and ?th = "conc_threads cf ! t"
  obtain p s' where fs: "f ?s = (p, s')" by fastforce
  define th where "th = ?th\<lparr>th_proc := p\<rparr>"
  have step: "conc_step prog (Run t) cf = cf\<lparr>conc_state := s', conc_threads := (conc_threads cf)[t := th],
      conc_log := conc_log cf @ answer_of t th\<rparr>"
    using t f fs by (simp add: th_def Let_def)
  have th_mem: "?th \<in> set (conc_threads cf)" using t by simp
  then obtain s0 where s0: "le s0 ?s" "behaves abst spec inv le (th_begin ?th) (th_call ?th) s0 (Step f)"
    using sim f unfolding conc_sim_def by blast
  have b: "inv s'" "le ?s s'"
      "\<And>r. p = Return r \<Longrightarrow> spec (abst (th_begin ?th)) (abst ?s) (th_call ?th) r (abst s')"
      "\<And>g. p = Step g \<Longrightarrow> abst s' = abst ?s \<and> behaves abst spec inv le (th_begin ?th) (th_call ?th) s' (Step g)"
    using s0(2) sim s0(1) fs by (auto elim!: behavesE simp: conc_sim_def)
  have others: "\<exists>s0. le s0 s' \<and> behaves abst spec inv le (th_begin x) (th_call x) s0 (Step g)"
    if "x \<in> set (conc_threads cf)" "th_proc x = Step g" for x g
    using sim that b(2) le_trans unfolding conc_sim_def by blast
  have "\<exists>s0. le s0 s' \<and> behaves abst spec inv le (th_begin x) (th_call x) s0 (Step g)"
    if "x \<in> set ((conc_threads cf)[t := th])" "th_proc x = Step g" for x g
  proof (cases "x = th")
    case True
    then show ?thesis using that(2) b(4) le_refl by (auto simp: th_def)
  next
    case False
    then show ?thesis using that others set_update_subset_insert [of "conc_threads cf" t th] by auto
  qed
  moreover have "lin_run abst spec m (conc_log cf @ answer_of t th) (abst s')"
    using sim b(3,4) by (cases p) (auto simp: th_def conc_sim_def intro: lin_snoc)
  ultimately show ?thesis unfolding step using b(1) by (simp add: conc_sim_def)
qed

lemma sim_schedule:
  "conc_sim m cf \<Longrightarrow> list_all ok (calls_of es) \<Longrightarrow> conc_sim m (run_steps (conc_step prog) es cf)"
proof (induction es arbitrary: cf)
  case (Cons e es)
  have "conc_sim m (conc_step prog e cf)"
  proof (cases e)
    case (Arrive c)
    then show ?thesis using sim_Arrive [OF Cons.prems(1)] Cons.prems(2) by simp
  next
    case (Run t)
    then show ?thesis
      using sim_Run [OF Cons.prems(1)] Cons.prems(1)
      by (cases "t < length (conc_threads cf)"; cases "th_proc (conc_threads cf ! t)") auto
  qed
  then show ?case using Cons.IH Cons.prems(2) by (cases e) auto
qed simp

lemma linearized:
  assumes "inv s" "list_all ok (calls_of es)" "cf = run_steps (conc_step prog) es (conc_start s)"
  shows "lin_run abst spec (abst s) (conc_log cf) (abst (conc_state cf)) \<and> inv (conc_state cf)"
proof -
  have "conc_sim (abst s) (conc_start s)" using assms(1) by (simp add: conc_sim_def conc_start_def lin_Nil)
  then show ?thesis using sim_schedule assms(2,3) by (auto simp: conc_sim_def)
qed

end

end
