(* ===== verification/Steps.thy ===== *)
theory Steps
  imports Interleave Server
begin

text \<open>
  The goroutine of a request as a program of atomic steps: the reads of the clock and of the source of
  UUIDs, the critical section of the rate limiter and the single SQL statements are the moments at
  which it touches what it shares with other requests. The programs are written along the
  source once more; run without interruption, each is the handler or middleware it stands for.
\<close>

type_synonym 's steps = "request \<Rightarrow> rw \<Rightarrow> ('s, rw) proc"

section \<open>Repositories and services\<close>

definition GatewayRepository_List_steps :: "'d pkgs \<Rightarrow> int \<Rightarrow> int \<Rightarrow> (('d, 'a) app_scheme, repo_error + Gateway list \<times> int) proc" where
  "GatewayRepository_List_steps pk offset limit =
     proc_bind (reading (query_scan pk scan_count sql_gateway_count [])) (\<lambda>res. case res of
        Inl e \<Rightarrow> Return (Inl (Wrapped ''failed to count gateways'' e))
      | Inr n \<Rightarrow>
          proc_bind (reading (query_rows pk scan_gateway ''failed to list gateways'' ''failed to scan gateway''
              sql_gateway_list [SqlInt offset, SqlInt limit])) (\<lambda>rows. Return (case rows of
             Inl e \<Rightarrow> Inl e
           | Inr gws \<Rightarrow> Inr (gws, n))))"

definition GatewayRepository_UpdateStatus_steps :: "'d pkgs \<Rightarrow> uuid \<Rightarrow> string \<Rightarrow> (('d, 'a) app_scheme, repo_error option) proc" where
  "GatewayRepository_UpdateStatus_steps pk i status =
     proc_bind (atomic time_Now) (\<lambda>now.
       proc_bind (atomic (pool_Exec pk sql_gateway_status [SqlText status, SqlTime (Time_UTC now), SqlUuid i]))
         (\<lambda>res. Return (case res of
            Inl e \<Rightarrow> Some (Wrapped ''failed to update gateway status'' e)
          | Inr n \<Rightarrow> if n = 0 then Some (NotFound ''gateway not found'' i) else None)))"

definition ThreatRepository_ListByGateway_steps :: "'d pkgs \<Rightarrow> uuid \<Rightarrow> string \<Rightarrow> int \<Rightarrow> int \<Rightarrow>
    (('d, 'a) app_scheme, repo_error + ThreatEvent list \<times> int) proc" where
  "ThreatRepository_ListByGateway_steps pk gatewayID severity offset limit =
     (let (countQuery, countArgs) = threat_count_stmt gatewayID severity;
          (listQuery, listArgs) = threat_list_stmt gatewayID severity offset limit
      in proc_bind (reading (query_scan pk scan_count countQuery countArgs)) (\<lambda>res. case res of
           Inl e \<Rightarrow> Return (Inl (Wrapped ''failed to count threats'' e))
         | Inr n \<Rightarrow>
             proc_bind (reading (query_rows pk scan_threat ''failed to list threats'' ''failed to scan threat'' listQuery listArgs))
               (\<lambda>rows. Return (case rows of
                  Inl e \<Rightarrow> Inl e
                | Inr events \<Rightarrow> Inr (events, n)))))"

definition UpstreamRepository_List_steps :: "'d pkgs \<Rightarrow> int \<Rightarrow> int \<Rightarrow> (('d, 'a) app_scheme, repo_error + Upstream list \<times> int) proc" where
  "UpstreamRepository_List_steps pk offset limit =
     proc_bind (reading (query_scan pk scan_count sql_upstream_count [])) (\<lambda>res. case res of
        Inl e \<Rightarrow> Return (Inl (Wrapped ''failed to count upstreams'' e))
      | Inr n \<Rightarrow>
          proc_bind (reading (query_rows pk scan_upstream ''failed to list upstreams'' ''failed to scan upstream''
              sql_upstream_list [SqlInt offset, SqlInt limit])) (\<lambda>rows. Return (case rows of
             Inl e \<Rightarrow> Inl e
           | Inr ups \<Rightarrow> Inr (ups, n))))"

text \<open>The body of \<open>Create\<close> up to the error of the repository.\<close>

definition create_gateway_steps :: "'d pkgs \<Rightarrow> CreateGatewayRequest \<Rightarrow> (('d, 'a) app_scheme, Gateway \<times> repo_error option) proc" where
  "create_gateway_steps pk req =
     proc_bind (atomic uuid_New) (\<lambda>i.
     proc_bind (atomic time_Now) (\<lambda>now.
       let g = new_gateway (gateway_defaults req) i now in
       proc_bind (atomic (GatewayRepository_Create pk g)) (\<lambda>err. Return (g, err))))"

definition GatewayService_Create_steps :: "'d pkgs \<Rightarrow> CreateGatewayRequest \<Rightarrow> (('d, 'a) app_scheme, repo_error + Gateway) proc" where
  "GatewayService_Create_steps pk req =
     proc_bind (create_gateway_steps pk req) (\<lambda>(g, err). Return (case err of Some e \<Rightarrow> Inl e | None \<Rightarrow> Inr g))"

definition GatewayService_List_steps :: "'d pkgs \<Rightarrow> int \<Rightarrow> int \<Rightarrow> (('d, 'a) app_scheme, repo_error + Gateway list \<times> int) proc" where
  "GatewayService_List_steps pk offset limit =
     GatewayRepository_List_steps pk offset (if limit \<le> 0 \<or> limit > 100 then 50 else limit)"

definition RouteService_Create_steps :: "'d pkgs \<Rightarrow> CreateRouteRequest \<Rightarrow> (('d, 'a) app_scheme, service_error + Route) proc" where
  "RouteService_Create_steps pk req =
     (case uuid_Parse pk (cr_GatewayID req) of
        None \<Rightarrow> Return (Inl InvalidGatewayID)
      | Some gatewayID \<Rightarrow>
     (case uuid_Parse pk (cr_UpstreamID req) of
        None \<Rightarrow> Return (Inl InvalidUpstreamID)
      | Some upstreamID \<Rightarrow>
          proc_bind (atomic uuid_New) (\<lambda>i.
          proc_bind (atomic time_Now) (\<lambda>now.
            let route = new_route req gatewayID upstreamID i now in
            proc_bind (atomic (RouteRepository_Create pk route))
              (\<lambda>err. Return (case err of Some e \<Rightarrow> Inl (RepoError e) | None \<Rightarrow> Inr route))))))"

definition UpstreamService_Create_steps :: "'d pkgs \<Rightarrow> CreateUpstreamRequest \<Rightarrow> (('d, 'a) app_scheme, repo_error + Upstream) proc" where
  "UpstreamService_Create_steps pk req =
     proc_bind (atomic uuid_New) (\<lambda>i.
     proc_bind (atomic time_Now) (\<lambda>now.
       let u = new_upstream (upstream_defaults req) i now in
       proc_bind (atomic (UpstreamRepository_Create pk u)) (\<lambda>err. Return (case err of Some e \<Rightarrow> Inl e | None \<Rightarrow> Inr u))))"

definition UpstreamService_List_steps :: "'d pkgs \<Rightarrow> int \<Rightarrow> int \<Rightarrow> (('d, 'a) app_scheme, repo_error + Upstream list \<times> int) proc" where
  "UpstreamService_List_steps pk offset limit =
     UpstreamRepository_List_steps pk offset (if limit \<le> 0 \<or> limit > 100 then 50 else limit)"

text \<open>Run alone, they are the operations of the repositories and services.\<close>

lemma run_alone_lists [simp]:
  "run_alone (GatewayRepository_List_steps pk off li) s = (GatewayRepository_List pk off li s, s)"
  "run_alone (GatewayService_List_steps pk off li) s = (GatewayService_List pk off li s, s)"
  "run_alone (ThreatRepository_ListByGateway_steps pk g sev off li) s = (ThreatRepository_ListByGateway pk g sev off li s, s)"
  "run_alone (UpstreamRepository_List_steps pk off li) s = (UpstreamRepository_List pk off li s, s)"
  "run_alone (UpstreamService_List_steps pk off li) s = (UpstreamService_List pk off li s, s)"
  by (simp_all add: GatewayRepository_List_steps_def GatewayRepository_List_def GatewayService_List_steps_def
      GatewayService_List_def ThreatRepository_ListByGateway_steps_def ThreatRepository_ListByGateway_def
      UpstreamRepository_List_steps_def UpstreamRepository_List_def UpstreamService_List_steps_def
      UpstreamService_List_def run_alone_bind split_def Let_def split: sum.splits)

lemma run_alone_writes [simp]:
  "run_alone (GatewayRepository_UpdateStatus_steps pk i st) s = GatewayRepository_UpdateStatus pk i st s"
  "run_alone (GatewayService_Create_steps pk cg) s = GatewayService_Create pk cg s"
  "run_alone (RouteService_Create_steps pk cr) s = RouteService_Create pk cr s"
  "run_alone (UpstreamService_Create_steps pk cu) s = UpstreamService_Create pk cu s"
  by (simp_all add: GatewayRepository_UpdateStatus_steps_def GatewayRepository_UpdateStatus_def
      GatewayService_Create_steps_def create_gateway_steps_def GatewayService_Create_def RouteService_Create_steps_def RouteService_Create_def
      UpstreamService_Create_steps_def UpstreamService_Create_def run_alone_bind Let_def
      split: sum.splits prod.splits option.splits)

section \<open>Handlers\<close>

definition GatewayHandler_Create_steps :: "'d pkgs \<Rightarrow> ('d, 'a) app_scheme steps" where
  "GatewayHandler_Create_steps pk r w =
     (case decode_body cg_fields r cg_zero of
        None \<Rightarrow> Return (writeError 400 ''invalid request body'' w)
      | Some req \<Rightarrow>
          if cg_Name req = [] \<or> cg_Hostname req = [] then
            Return (writeError 400 ''name and hostname are required'' w)
          else if length (cg_Name req) > maxNameLength \<or> length (cg_Hostname req) > maxNameLength then
            Return (writeError 400 ''name or hostname exceeds maximum length'' w)
          else
            let req' = (if cg_CreatedBy req = [] then req\<lparr>cg_CreatedBy := actorFromRequest r\<rparr> else req)
            in proc_bind (GatewayService_Create_steps pk req') (\<lambda>res. Return (case res of
                 Inl _ \<Rightarrow> writeError 500 ''failed to create gateway'' w
               | Inr gw \<Rightarrow> writeJSON 201 (GatewayResponse_json (uuid_String pk) (Gateway_ToResponse gw)) w)))"

definition GatewayHandler_Get_steps :: "'d pkgs \<Rightarrow> ('d, 'a) app_scheme steps" where
  "GatewayHandler_Get_steps pk r w =
     (case uuid_Parse pk (URLParam r ''id'') of
        None \<Rightarrow> Return (writeError 400 ''invalid gateway ID'' w)
      | Some i \<Rightarrow> proc_bind (reading (GatewayService_Get pk i)) (\<lambda>res. Return (case res of
             Inl _ \<Rightarrow> writeError 404 ''gateway not found'' w
           | Inr gw \<Rightarrow> writeJSON 200 (GatewayResponse_json (uuid_String pk) (Gateway_ToResponse gw)) w)))"

definition GatewayHandler_List_steps :: "'d pkgs \<Rightarrow> ('d, 'a) app_scheme steps" where
  "GatewayHandler_List_steps pk r w =
     (let pg = ParsePagination r in
      proc_bind (GatewayService_List_steps pk (pg_Offset pg) (pg_Limit pg)) (\<lambda>res. Return (case res of
        Inl _ \<Rightarrow> writeError 500 ''failed to list gateways'' w
      | Inr (gws, n) \<Rightarrow>
          writeJSON 200 (GatewayListResponse_json (uuid_String pk)
                \<lparr>gl_Gateways = map Gateway_ToResponse gws, gl_TotalCount = n, gl_Offset = pg_Offset pg,
                 gl_Limit = pg_Limit pg\<rparr>) w)))"

definition GatewayHandler_SetStatus_steps :: "string \<Rightarrow> string \<Rightarrow> string \<Rightarrow> 'd pkgs \<Rightarrow> ('d, 'a) app_scheme steps" where
  "GatewayHandler_SetStatus_steps status failure success pk r w =
     (case uuid_Parse pk (URLParam r ''id'') of
        None \<Rightarrow> Return (writeError 400 ''invalid gateway ID'' w)
      | Some i \<Rightarrow> proc_bind (GatewayRepository_UpdateStatus_steps pk i status) (\<lambda>err. Return (case err of
             Some _ \<Rightarrow> writeError 500 failure w
           | None \<Rightarrow> writeJSON 200 (JObj [(''status'', JStr success)]) w)))"

definition RouteHandler_Create_steps :: "'d pkgs \<Rightarrow> ('d, 'a) app_scheme steps" where
  "RouteHandler_Create_steps pk r w =
     (case decode_body cr_fields r cr_zero of
        None \<Rightarrow> Return (writeError 400 ''invalid request body'' w)
      | Some req \<Rightarrow>
          if cr_GatewayID req = [] \<or> cr_UpstreamID req = [] \<or> cr_PathPrefix req = [] then
            Return (writeError 400 ''gateway_id, upstream_id, and path_prefix are required'' w)
          else proc_bind (RouteService_Create_steps pk req) (\<lambda>res. Return (case res of
               Inl _ \<Rightarrow> writeError 500 ''failed to create route'' w
             | Inr route \<Rightarrow> writeJSON 201 (RouteResponse_json (uuid_String pk) (Route_ToResponse route)) w)))"

definition RouteHandler_List_steps :: "'d pkgs \<Rightarrow> ('d, 'a) app_scheme steps" where
  "RouteHandler_List_steps pk r w =
     (let gatewayIDStr = Query_Get (URL_Query r) ''gateway_id'' in
      if gatewayIDStr = [] then Return (writeError 400 ''gateway_id is required'' w)
      else case uuid_Parse pk gatewayIDStr of
        None \<Rightarrow> Return (writeError 400 ''invalid gateway_id'' w)
      | Some gatewayID \<Rightarrow> proc_bind (reading (RouteService_ListByGateway pk gatewayID)) (\<lambda>res. Return (case res of
             Inl _ \<Rightarrow> writeError 500 ''failed to list routes'' w
           | Inr rts \<Rightarrow> writeJSON 200 (RouteListResponse_json (uuid_String pk)
                 \<lparr>rl_Routes = map Route_ToResponse rts, rl_TotalCount = int (length rts)\<rparr>) w)))"

definition RouteHandler_Delete_steps :: "'d pkgs \<Rightarrow> ('d, 'a) app_scheme steps" where
  "RouteHandler_Delete_steps pk r w =
     (case uuid_Parse pk (URLParam r ''id'') of
        None \<Rightarrow> Return (writeError 400 ''invalid route ID'' w)
      | Some i \<Rightarrow> proc_bind (atomic (RouteService_Delete pk i)) (\<lambda>err. Return (case err of
             Some _ \<Rightarrow> writeError 500 ''failed to delete route'' w
           | None \<Rightarrow> writeJSON 200 (JObj [(''status'', JStr ''deleted'')]) w)))"

definition ThreatHandler_List_steps :: "'d pkgs \<Rightarrow> ('d, 'a) app_scheme steps" where
  "ThreatHandler_List_steps pk r w =
     (let q = URL_Query r; gatewayIDStr = Query_Get q ''gateway_id'' in
      if gatewayIDStr = [] then Return (writeError 400 ''gateway_id is required'' w)
      else case uuid_Parse pk gatewayIDStr of
        None \<Rightarrow> Return (writeError 400 ''invalid gateway_id'' w)
      | Some gatewayID \<Rightarrow>
          let offset = fst (Atoi (Query_Get q ''offset''));
              limit0 = fst (Atoi (Query_Get q ''limit''));
              severity = Query_Get q ''severity'';
              limit = (if limit0 \<le> 0 \<or> limit0 > 100 then 50 else limit0)
          in proc_bind (ThreatRepository_ListByGateway_steps pk gatewayID severity offset limit) (\<lambda>res. Return (case res of
               Inl _ \<Rightarrow> writeError 500 ''failed to list threats'' w
             | Inr (events, n) \<Rightarrow>
                 writeJSON 200 (ThreatEventListResponse_json (uuid_String pk)
                       \<lparr>tl_Events = map ThreatEvent_ToResponse events, tl_TotalCount = n, tl_Offset = offset,
                        tl_Limit = limit\<rparr>) w)))"

definition UpstreamHandler_Create_steps :: "'d pkgs \<Rightarrow> ('d, 'a) app_scheme steps" where
  "UpstreamHandler_Create_steps pk r w =
     (case decode_body cu_fields r cu_zero of
        None \<Rightarrow> Return (writeError 400 ''invalid request body'' w)
      | Some req \<Rightarrow>
          if cu_Name req = [] \<or> cu_Host req = [] \<or> cu_Port req = 0 then
            Return (writeError 400 ''name, host, and port are required'' w)
          else proc_bind (UpstreamService_Create_steps pk req) (\<lambda>res. Return (case res of
               Inl _ \<Rightarrow> writeError 500 ''failed to create upstream'' w
             | Inr u \<Rightarrow> writeJSON 201 (UpstreamResponse_json (uuid_String pk) (Upstream_ToResponse u)) w)))"

definition UpstreamHandler_Get_steps :: "'d pkgs \<Rightarrow> ('d, 'a) app_scheme steps" where
  "UpstreamHandler_Get_steps pk r w =
     (case uuid_Parse pk (URLParam r ''id'') of
        None \<Rightarrow> Return (writeError 400 ''invalid upstream ID'' w)
      | Some i \<Rightarrow> proc_bind (reading (UpstreamService_Get pk i)) (\<lambda>res. Return (case res of
             Inl _ \<Rightarrow> writeError 404 ''upstream not found'' w
           | Inr u \<Rightarrow> writeJSON 200 (UpstreamResponse_json (uuid_String pk) (Upstream_ToResponse u)) w)))"

definition UpstreamHandler_List_steps :: "'d pkgs \<Rightarrow> ('d, 'a) app_scheme steps" where
  "UpstreamHandler_List_steps pk r w =
     (let offset = fst (Atoi (Query_Get (URL_Query r) ''offset''));
          limit = fst (Atoi (Query_Get (URL_Query r) ''limit''))
      in proc_bind (UpstreamService_List_steps pk offset limit) (\<lambda>res. Return (case res of
           Inl _ \<Rightarrow> writeError 500 ''failed to list upstreams'' w
         | Inr (ups, n) \<Rightarrow> writeJSON 200 (UpstreamListResponse_json (uuid_String pk)
               \<lparr>ul_Upstreams = map Upstream_ToResponse ups, ul_TotalCount = n\<rparr>) w)))"

text \<open>The endpoints of the server.\<close>

datatype endpoint = GatewayCreate | GatewayList | GatewayGet | GatewayActivate | GatewayDeactivate
  | UpstreamCreate | UpstreamList | UpstreamGet | RouteCreate | RouteList | RouteDelete | ThreatList | Health

fun endpoint_handler :: "'d pkgs \<Rightarrow> endpoint \<Rightarrow> ('d, 'a) app_scheme handler" where
  "endpoint_handler pk GatewayCreate = GatewayHandler_Create pk"
| "endpoint_handler pk GatewayList = GatewayHandler_List pk"
| "endpoint_handler pk GatewayGet = GatewayHandler_Get pk"
| "endpoint_handler pk GatewayActivate = GatewayHandler_Activate pk"
| "endpoint_handler pk GatewayDeactivate = GatewayHandler_Deactivate pk"
| "endpoint_handler pk UpstreamCreate = UpstreamHandler_Create pk"
| "endpoint_handler pk UpstreamList = UpstreamHandler_List pk"
| "endpoint_handler pk UpstreamGet = UpstreamHandler_Get pk"
| "endpoint_handler pk RouteCreate = RouteHandler_Create pk"
| "endpoint_handler pk RouteList = RouteHandler_List pk"
| "endpoint_handler pk RouteDelete = RouteHandler_Delete pk"
| "endpoint_handler pk ThreatList = ThreatHandler_List pk"
| "endpoint_handler pk Health = HealthHandler_Check"

fun endpoint_steps :: "'d pkgs \<Rightarrow> endpoint \<Rightarrow> ('d, 'a) app_scheme steps" where
  "endpoint_steps pk GatewayCreate = GatewayHandler_Create_steps pk"
| "endpoint_steps pk GatewayList = GatewayHandler_List_steps pk"
| "endpoint_steps pk GatewayGet = GatewayHandler_Get_steps pk"
| "endpoint_steps pk GatewayActivate = GatewayHandler_SetStatus_steps ''ACTIVE'' ''failed to activate gateway'' ''activated'' pk"
| "endpoint_steps pk GatewayDeactivate =
     GatewayHandler_SetStatus_steps ''INACTIVE'' ''failed to deactivate gateway'' ''deactivated'' pk"
| "endpoint_steps pk UpstreamCreate = UpstreamHandler_Create_steps pk"
| "endpoint_steps pk UpstreamList = UpstreamHandler_List_steps pk"
| "endpoint_steps pk UpstreamGet = UpstreamHandler_Get_steps pk"
| "endpoint_steps pk RouteCreate = RouteHandler_Create_steps pk"
| "endpoint_steps pk RouteList = RouteHandler_List_steps pk"
| "endpoint_steps pk RouteDelete = RouteHandler_Delete_steps pk"
| "endpoint_steps pk ThreatList = ThreatHandler_List_steps pk"
| "endpoint_steps pk Health = (\<lambda>r w. Return (snd (HealthHandler_Check r ((), w))))"

text \<open>Programs that stand for a handler: run alone, they do and answer what it does.\<close>

definition steps_of :: "'s steps \<Rightarrow> 's handler \<Rightarrow> bool" where
  "steps_of p h \<longleftrightarrow> (\<forall>r w s. run_alone (p r w) s = prod.swap (h r (s, w)))"

lemma steps_of_gateways:
  "steps_of (GatewayHandler_Create_steps pk) (GatewayHandler_Create pk)"
  "steps_of (GatewayHandler_Get_steps pk) (GatewayHandler_Get pk)"
  "steps_of (GatewayHandler_List_steps pk) (GatewayHandler_List pk)"
  "steps_of (endpoint_steps pk GatewayActivate) (GatewayHandler_Activate pk)"
  "steps_of (endpoint_steps pk GatewayDeactivate) (GatewayHandler_Deactivate pk)"
  by (simp_all add: steps_of_def GatewayHandler_Create_steps_def GatewayHandler_Create_def GatewayHandler_Get_steps_def
      GatewayHandler_Get_def GatewayHandler_List_steps_def GatewayHandler_List_def GatewayHandler_SetStatus_steps_def
      GatewayHandler_Activate_def GatewayHandler_Deactivate_def GatewayService_Activate_def GatewayService_Deactivate_def
      run_alone_bind Let_def split: option.splits sum.splits prod.splits)

lemma steps_of_others:
  "steps_of (RouteHandler_Create_steps pk) (RouteHandler_Create pk)"
  "steps_of (RouteHandler_List_steps pk) (RouteHandler_List pk)"
  "steps_of (RouteHandler_Delete_steps pk) (RouteHandler_Delete pk)"
  "steps_of (ThreatHandler_List_steps pk) (ThreatHandler_List pk)"
  "steps_of (UpstreamHandler_Create_steps pk) (UpstreamHandler_Create pk)"
  "steps_of (UpstreamHandler_Get_steps pk) (UpstreamHandler_Get pk)"
  "steps_of (UpstreamHandler_List_steps pk) (UpstreamHandler_List pk)"
  by (simp_all add: steps_of_def RouteHandler_Create_steps_def RouteHandler_Create_def RouteHandler_List_steps_def
      RouteHandler_List_def RouteHandler_Delete_steps_def RouteHandler_Delete_def ThreatHandler_List_steps_def
      ThreatHandler_List_def UpstreamHandler_Create_steps_def UpstreamHandler_Create_def UpstreamHandler_Get_steps_def
      UpstreamHandler_Get_def UpstreamHandler_List_steps_def UpstreamHandler_List_def
      run_alone_bind Let_def split: option.splits sum.splits prod.splits)

lemma steps_of_endpoint: "steps_of (endpoint_steps pk e) (endpoint_handler pk e)"
  using steps_of_gateways [of pk] steps_of_others [of pk]
  by (cases e) (simp_all add: steps_of_def HealthHandler_Check_def)

section \<open>Middleware\<close>

text \<open>
  Security headers, the body limit and CORS touch only the request and the writer: their gates work
  without a state.
\<close>

definition pure_steps :: "unit gate \<Rightarrow> 's steps \<Rightarrow> 's steps" where
  "pure_steps g next r w =
     (case g r ((), w) of Inl (_, w') \<Rightarrow> Return w' | Inr (r', _, w') \<Rightarrow> next r' w')"

definition Auth_steps :: "AuthConfig \<Rightarrow> 'a env_scheme steps \<Rightarrow> 'a env_scheme steps" where
  "Auth_steps cfg next r w =
     (if URLPath r \<in> set (SkipPaths cfg) then next r w
      else
        let authHeader = Header_Get (ReqHeader r) ''Authorization'' in
        if authHeader = [] then Return (writeAuthError 401 ''missing Authorization header'' w)
        else case SplitN CHR '' '' 2 authHeader of
          [scheme, credential] \<Rightarrow>
            if ToLower scheme = ''bearer'' then
              (if JWTSecret cfg = [] then Return (writeAuthError 401 ''JWT authentication not configured'' w)
               else case verified_claims credential (JWTSecret cfg) of
                 Inl _ \<Rightarrow> Return (writeAuthError 401 ''invalid or expired token'' w)
               | Inr cl \<Rightarrow> proc_bind (atomic time_Now) (\<lambda>now. case check_claims cl (JWTIssuer cfg) (Time_Unix now) of
                   Inl _ \<Rightarrow> Return (writeAuthError 401 ''invalid or expired token'' w)
                 | Inr claims \<Rightarrow> next (with_identity (claim_Subject claims) (claim_Role claims) AuthMethodJWT r) w))
            else if ToLower scheme = ''apikey'' then
              (if APIKeys cfg = [] then Return (writeAuthError 401 ''API key authentication not configured'' w)
               else case validateAPIKey credential (APIKeys cfg) of
                   None \<Rightarrow> Return (writeAuthError 401 ''invalid API key'' w)
                 | Some entry \<Rightarrow> next (with_identity (key_Subject entry) (key_Role entry) AuthMethodAPIKey r) w)
            else Return (writeAuthError 401 (''unsupported auth scheme: '' @ scheme) w)
        | _ \<Rightarrow> Return (writeAuthError 401 ''malformed Authorization header'' w))"

text \<open>The clock is read before the lock is taken; the limits of a limiter never change.\<close>

definition RateLimiter_steps :: "'a rl_env_scheme steps \<Rightarrow> 'a rl_env_scheme steps" where
  "RateLimiter_steps next r w =
     proc_bind (atomic (\<lambda>s. let (now, s1) = time_Now s in ((rl_cfg (limiter s), now), s1))) (\<lambda>(c, now).
     proc_bind (atomic (\<lambda>s. let (d, rl') = rl_admit (limiter s) (rate_key c r) now in (d, s\<lparr>limiter := rl'\<rparr>))) (\<lambda>d.
       case d of
         TooManyKeys \<Rightarrow>
           Return (writeAuthError 429 ''rate limit exceeded''
                    (SetHeader ''Retry-After'' ''60'' (setRateLimitHeaders (RequestsPerWindow c) 0 (Window c) w)))
       | NewWindow \<Rightarrow>
           next r (setRateLimitHeaders (RequestsPerWindow c) (wrap64 (RequestsPerWindow c - 1)) (Window c) w)
       | Counted count windowStart allowed \<Rightarrow>
           let remaining = wrap64 (RequestsPerWindow c - count);
               w1 = setRateLimitHeaders (RequestsPerWindow c) (if remaining < 0 then 0 else remaining) (Window c) w
           in if \<not> allowed
              then Return (writeAuthError 429 ''rate limit exceeded''
                            (SetHeader ''Retry-After'' (Itoa (retry_after c now windowStart)) w1))
              else next r w1))"

definition own_steps :: "Config \<Rightarrow> ('d, 'a) app_scheme steps \<Rightarrow> ('d, 'a) app_scheme steps" where
  "own_steps cfg next =
     pure_steps (security_gate DefaultSecurityHeadersConfig) (pure_steps (body_gate (cfg_MaxBodyBytes cfg))
       ((if length (cfg_CORSOrigins cfg) > 0 then pure_steps (cors_gate (cors_config cfg)) else id)
         (RateLimiter_steps next)))"

text \<open>A request for an endpoint, through the middleware of the server and of the API.\<close>

definition guarded :: "Config \<Rightarrow> endpoint \<Rightarrow> bool" where
  "guarded cfg e \<longleftrightarrow> e \<noteq> Health \<and> auth_enabled cfg"

definition request_steps :: "'d pkgs \<Rightarrow> Config \<Rightarrow> endpoint \<times> request \<Rightarrow> (('d, 'a) app_scheme, rw) proc" where
  "request_steps pk cfg = (\<lambda>(e, r). own_steps cfg
     ((if guarded cfg e then Auth_steps (auth_config cfg) else id) (endpoint_steps pk e)) r rw_new)"

definition request_handler :: "'d pkgs \<Rightarrow> Config \<Rightarrow> endpoint \<Rightarrow> ('d, 'a) app_scheme handler" where
  "request_handler pk cfg e = foldr (\<lambda>m h. m h) (own_middleware cfg)
     ((if guarded cfg e then Auth (auth_config cfg) else id) (endpoint_handler pk e))"

lemma steps_of_pure:
  assumes "middleware mw g" "steps_of p h"
    and "\<And>r s w. g r (s, w) = (case g' r ((), w) of Inl (_, w') \<Rightarrow> Inl (s, w') | Inr (r', _, w') \<Rightarrow> Inr (r', s, w'))"
  shows "steps_of (pure_steps g' p) (mw h)"
  using assms(2,3) middleware.mw_gate [OF assms(1)]
  by (auto simp: steps_of_def pure_steps_def split: sum.splits)

lemma steps_of_Auth:
  assumes "steps_of p h"
  shows "steps_of (Auth_steps cfg p) (Auth cfg h)"
  using assms
  by (simp add: steps_of_def Auth_steps_def Auth_def validateJWT_def run_alone_bind Let_def
      split: list.splits sum.splits option.splits prod.splits)

lemma steps_of_RateLimiter:
  assumes "steps_of p h"
  shows "steps_of (RateLimiter_steps p) (RateLimiter_Middleware h)"
  using assms
  by (simp add: steps_of_def RateLimiter_steps_def RateLimiter_Middleware_def run_alone_bind Let_def
      split: rl_decision.splits prod.splits)

end
