(* ===== verification/Faults.thy ===== *)
theory Faults
  imports Steps
begin

text \<open>
  A database that fails: the driver may report an error for any statement at any time, because a connection
  is lost, a deadline has passed or a context is cancelled, and then the statement may or may not
  have taken effect. The interface \<open>flaky_driver\<close> is what the program can rely on all the same. Under it, a
  request is either answered as over a database that never fails, or with an error.
\<close>

section \<open>The contract of the driver\<close>

text \<open>
  \<open>content\<close> is the content of the database. A reported success is true; a reported failure leaves open
  whether the statement was executed; rows that are delivered without an error are the rows of the table.
\<close>

locale flaky_driver =
  fixes pk :: "'d pkgs"
    and content :: "'d \<Rightarrow> qsgw_db"
  assumes exec_done: "pgx_Exec pk d sql args = (Inr n, d') \<Longrightarrow> db_Exec (content d) sql args = (Inr n, content d')"
    and exec_failed: "pgx_Exec pk d sql args = (Inl err, d') \<Longrightarrow> content d' = content d \<or> content d' = snd (db_Exec (content d) sql args)"
    and row_read: "pgx_QueryRow pk d sql args = Inr vals \<Longrightarrow> db_QueryRow (content d) sql args = Inr vals"
    and rows_read: "pgx_Query pk d sql args = Inr (rows, None) \<Longrightarrow> db_Query (content d) sql args = Inr (rows, None)"

text \<open>The state of the program over the content of the database.\<close>

definition app_view :: "('d \<Rightarrow> 'e) \<Rightarrow> ('d, 'a) app_scheme \<Rightarrow> ('e, 'a) app_scheme" where
  "app_view f s = \<lparr>clock = clock s, new_uuids = new_uuids s, limiter = limiter s, app_db = f (app_db s), \<dots> = app.more s\<rparr>"

lemma app_view_simps [simp]:
  "clock (app_view f s) = clock s" "new_uuids (app_view f s) = new_uuids s" "limiter (app_view f s) = limiter s"
  "app_db (app_view f s) = f (app_db s)" "app_view f (s\<lparr>clock := c\<rparr>) = (app_view f s)\<lparr>clock := c\<rparr>"
  "app_view f (s\<lparr>new_uuids := u\<rparr>) = (app_view f s)\<lparr>new_uuids := u\<rparr>"
  "app_view f (s\<lparr>limiter := l\<rparr>) = (app_view f s)\<lparr>limiter := l\<rparr>"
  "app_view f (s\<lparr>app_db := d\<rparr>) = (app_view f s)\<lparr>app_db := f d\<rparr>"
  by (simp_all add: app_view_def)

lemma app_db_self [simp]: "(app_view f s)\<lparr>app_db := f (app_db s)\<rparr> = app_view f s"
  by (simp add: app_view_def)

lemma sources_view [simp]:
  "time_Now (app_view f s) = map_prod id (app_view f) (time_Now s)"
  "uuid_New (app_view f s) = map_prod id (app_view f) (uuid_New s)"
  by (simp_all add: time_Now_def uuid_New_def)

lemma app_db_sources_view [simp]: "app_db (snd (time_Now s)) = app_db s" "app_db (snd (uuid_New s)) = app_db s"
  by (simp_all add: time_Now_def uuid_New_def)

section \<open>Answers over a database that fails\<close>

text \<open>
  An outcome is honest when it is the outcome of the reliable database, or an error 404 or 500 with
  the database as before or as after the reliable execution. The sources of time and of UUIDs, the limiter and the
  rest of the state are the same in any case.
\<close>

definition honest :: "('d \<Rightarrow> qsgw_db) \<Rightarrow> 'd \<Rightarrow> ('d, 'a) app_scheme \<times> rw \<Rightarrow> (qsgw_db, 'a) app_scheme \<times> rw \<Rightarrow> bool" where
  "honest content d x y \<longleftrightarrow>
     (app_view content (fst x) = fst y \<and> snd x = snd y) \<or>
     (rw_status (snd x) \<in> {Some 404, Some 500} \<and>
      (app_view content (fst x) = fst y \<or> app_view content (fst x) = (fst y)\<lparr>app_db := content d\<rparr>))"

definition honest_handler :: "('d \<Rightarrow> qsgw_db) \<Rightarrow> ('d, 'a) app_scheme handler \<Rightarrow> (qsgw_db, 'a) app_scheme handler \<Rightarrow> bool" where
  "honest_handler content h h0 \<longleftrightarrow>
     (\<forall>r s w. rw_sent w = None \<longrightarrow> honest content (app_db s) (h r (s, w)) (h0 r (app_view content s, w)))"

lemma honestI:
  "(app_view content s' = t \<and> w' = w0) \<or> (rw_status w' \<in> {Some 404, Some 500} \<and>
      (app_view content s' = t \<or> app_view content s' = t\<lparr>app_db := content d\<rparr>)) \<Longrightarrow>
     honest content d (s', w') (t, w0)"
  by (simp add: honest_def)

lemma honest_same [simp]: "honest content d (s', w') (app_view content s', w')"
  by (simp add: honest_def)

lemma honest_error:
  "rw_status w' \<in> {Some 404, Some 500} \<Longrightarrow> honest content d (s', w') (app_view content s', w0)"
  by (simp add: honest_def)

lemma rw_status_writeError [simp]: "rw_sent w = None \<Longrightarrow> rw_status (writeError st m w) = Some st"
  by (simp add: writeError_eq)

abbreviation reliable :: "'d pkgs \<Rightarrow> qsgw_db pkgs" where
  "reliable pk \<equiv> qsgw_pkgs (uuid_String pk) (uuid_Parse pk)"

context flaky_driver
begin

lemma query_scan_honest: "query_scan pk scan sql args s = Inr x \<Longrightarrow> query_scan (reliable pk) scan sql args (app_view content s) = Inr x"
  using row_read [of "app_db s" sql args] by (auto simp: query_scan_def split: sum.splits option.splits)

lemma query_rows_honest:
  "query_rows pk scan m1 m2 sql args s = Inr xs \<Longrightarrow> query_rows (reliable pk) scan m1 m2 sql args (app_view content s) = Inr xs"
  using rows_read [of "app_db s" sql args] by (auto simp: query_rows_def split: sum.splits option.splits)

text \<open>What a statement may do: report its success, or fail and leave one of two states.\<close>

lemma exec_honest:
  assumes "pool_Exec pk sql args s = (res, s')" "pool_Exec (reliable pk) sql args (app_view content s) = (res0, t)"
  shows "res = Inr n \<Longrightarrow> res0 = Inr n \<and> app_view content s' = t"
    and "app_view content s' = t \<or> app_view content s' = t\<lparr>app_db := content (app_db s)\<rparr>"
proof -
  obtain d where d: "pgx_Exec pk (app_db s) sql args = (res, d)" "s' = s\<lparr>app_db := d\<rparr>"
    using assms(1) by (auto simp: pool_Exec_def split: prod.splits)
  have t: "(res0, t) = (fst (db_Exec (content (app_db s)) sql args),
      (app_view content s)\<lparr>app_db := snd (db_Exec (content (app_db s)) sql args)\<rparr>)"
    using assms(2) by (auto simp: pool_Exec_def split: prod.splits)
  show "res0 = Inr n \<and> app_view content s' = t" if "res = Inr n"
    using exec_done [of "app_db s" sql args n d] d t that by simp
  show "app_view content s' = t \<or> app_view content s' = t\<lparr>app_db := content (app_db s)\<rparr>"
    using exec_failed [of "app_db s" sql args _ d] exec_done [of "app_db s" sql args _ d] d t by (cases res) auto
qed

lemma lists_honest:
  "GatewayRepository_List pk off li s = Inr x \<Longrightarrow> GatewayRepository_List (reliable pk) off li (app_view content s) = Inr x"
  "UpstreamRepository_List pk off li s = Inr y \<Longrightarrow> UpstreamRepository_List (reliable pk) off li (app_view content s) = Inr y"
  "ThreatRepository_ListByGateway pk i sev off li s = Inr z \<Longrightarrow>
     ThreatRepository_ListByGateway (reliable pk) i sev off li (app_view content s) = Inr z"
  by (auto simp: GatewayRepository_List_def UpstreamRepository_List_def ThreatRepository_ListByGateway_def Let_def split_def
      dest: query_scan_honest query_rows_honest split: sum.splits)

lemma reads_honest:
  "GatewayService_Get pk i s = Inr g \<Longrightarrow> GatewayService_Get (reliable pk) i (app_view content s) = Inr g"
  "UpstreamService_Get pk i s = Inr u \<Longrightarrow> UpstreamService_Get (reliable pk) i (app_view content s) = Inr u"
  "GatewayService_List pk off li s = Inr x \<Longrightarrow> GatewayService_List (reliable pk) off li (app_view content s) = Inr x"
  "UpstreamService_List pk off li s = Inr y \<Longrightarrow> UpstreamService_List (reliable pk) off li (app_view content s) = Inr y"
  "RouteService_ListByGateway pk i s = Inr rs \<Longrightarrow> RouteService_ListByGateway (reliable pk) i (app_view content s) = Inr rs"
  unfolding GatewayService_List_def UpstreamService_List_def RouteService_ListByGateway_def RouteRepository_ListByGateway_def
  by (auto simp: GatewayService_Get_def GatewayRepository_GetByID_def UpstreamService_Get_def UpstreamRepository_GetByID_def
      dest: query_scan_honest query_rows_honest lists_honest split: sum.splits)

text \<open>The operations that write: an outcome without an error is the outcome of the reliable database.\<close>

definition honest_write :: "('d, 'a) app_scheme \<Rightarrow> 'e option \<times> ('d, 'a) app_scheme \<Rightarrow> 'e option \<times> (qsgw_db, 'a) app_scheme \<Rightarrow> bool" where
  "honest_write s x y \<longleftrightarrow> (fst x = None \<longrightarrow> fst y = None \<and> app_view content (snd x) = snd y) \<and>
     (app_view content (snd x) = snd y \<or> app_view content (snd x) = (snd y)\<lparr>app_db := content (app_db s)\<rparr>)"

lemma honest_write_after: "honest_write s' x y \<Longrightarrow> app_db s' = app_db s \<Longrightarrow> honest_write s x y"
  by (simp add: honest_write_def)

lemma exec_honest_write:
  assumes "\<And>e. f (Inl e) \<noteq> None"
  shows "honest_write s (apfst f (pool_Exec pk sql args s)) (apfst f (pool_Exec (reliable pk) sql args (app_view content s)))"
proof -
  obtain res s' res0 t where x: "pool_Exec pk sql args s = (res, s')" "pool_Exec (reliable pk) sql args (app_view content s) = (res0, t)"
    by (metis surj_pair)
  show ?thesis using exec_honest [OF x] assms [of "projl res"] by (cases res) (auto simp: honest_write_def x)
qed

lemma creates_honest:
  "honest_write s (GatewayRepository_Create pk g s) (GatewayRepository_Create (reliable pk) g (app_view content s))"
  "honest_write s (RouteRepository_Create pk rt s) (RouteRepository_Create (reliable pk) rt (app_view content s))"
  "honest_write s (UpstreamRepository_Create pk u s) (UpstreamRepository_Create (reliable pk) u (app_view content s))"
proof -
  have eq: "(case x of (Inl e, s') \<Rightarrow> (Some (Wrapped m e), s') | (Inr _, s') \<Rightarrow> (None, s')) =
      apfst (\<lambda>res. case res of Inl e \<Rightarrow> Some (Wrapped m e) | Inr (n :: int) \<Rightarrow> None) x" for x :: "(pgx_error + int) \<times> 's" and m
    by (simp split: prod.splits sum.splits)
  show "honest_write s (GatewayRepository_Create pk g s) (GatewayRepository_Create (reliable pk) g (app_view content s))"
    "honest_write s (RouteRepository_Create pk rt s) (RouteRepository_Create (reliable pk) rt (app_view content s))"
    "honest_write s (UpstreamRepository_Create pk u s) (UpstreamRepository_Create (reliable pk) u (app_view content s))"
    unfolding GatewayRepository_Create_def RouteRepository_Create_def UpstreamRepository_Create_def eq
    by (rule exec_honest_write; simp)+
qed

lemma changes_honest:
  "honest_write s (GatewayRepository_UpdateStatus pk i st s) (GatewayRepository_UpdateStatus (reliable pk) i st (app_view content s))"
  "honest_write s (RouteRepository_Delete pk i s) (RouteRepository_Delete (reliable pk) i (app_view content s))"
proof -
  have eq: "(case x of (Inl e, s') \<Rightarrow> (Some (Wrapped m e), s') | (Inr n, s') \<Rightarrow> if n = 0 then (Some y, s') else (None, s')) =
      apfst (\<lambda>res. case res of Inl e \<Rightarrow> Some (Wrapped m e) | Inr (n :: int) \<Rightarrow> if n = 0 then Some y else None) x"
    for x :: "(pgx_error + int) \<times> 's" and m y by (simp split: prod.splits sum.splits)
  show "honest_write s (RouteRepository_Delete pk i s) (RouteRepository_Delete (reliable pk) i (app_view content s))"
    unfolding RouteRepository_Delete_def eq by (rule exec_honest_write) simp
  obtain now s1 where now: "time_Now s = (now, s1)" by fastforce
  have "app_db s1 = app_db s" using app_db_sources_view(1) [of s] by (simp add: now)
  then show "honest_write s (GatewayRepository_UpdateStatus pk i st s) (GatewayRepository_UpdateStatus (reliable pk) i st (app_view content s))"
    unfolding GatewayRepository_UpdateStatus_def sources_view now map_prod_simp Let_def prod.case id_apply eq
    by (intro honest_write_after [OF exec_honest_write]) simp_all
qed

section \<open>Handlers over a database that fails\<close>

lemma honest_read:
  assumes "rw_sent w = None" "\<And>x. res = Inr x \<Longrightarrow> res0 = Inr x" "st \<in> {404, 500}"
    and "\<And>x. fst (k0 x) = app_view content s" "\<And>x. honest content (app_db s) (k x) (k0 x)"
  shows "honest content (app_db s) (case res of Inl e \<Rightarrow> (s, writeError st m w) | Inr x \<Rightarrow> k x)
    (case res0 of Inl e \<Rightarrow> (app_view content s, writeError st m w) | Inr x \<Rightarrow> k0 x)"
  using assms by (cases res; cases res0) (auto simp: honest_def)

lemma honest_written:
  assumes "rw_sent w = None" "honest_write s x y"
  shows "honest content (app_db s) (case x of (Some e, s') \<Rightarrow> (s', writeError 500 m w) | (None, s') \<Rightarrow> (s', v))
    (case y of (Some e, s') \<Rightarrow> (s', writeError 500 m w) | (None, s') \<Rightarrow> (s', v))"
  using assms by (auto simp: honest_def honest_write_def split: prod.splits option.splits)

lemma read_handlers_honest:
  "honest_handler content (GatewayHandler_Get pk) (GatewayHandler_Get (reliable pk))"
  "honest_handler content (GatewayHandler_List pk) (GatewayHandler_List (reliable pk))"
  "honest_handler content (UpstreamHandler_Get pk) (UpstreamHandler_Get (reliable pk))"
  "honest_handler content (UpstreamHandler_List pk) (UpstreamHandler_List (reliable pk))"
  "honest_handler content (RouteHandler_List pk) (RouteHandler_List (reliable pk))"
  "honest_handler content (ThreatHandler_List pk) (ThreatHandler_List (reliable pk))"
  unfolding honest_handler_def GatewayHandler_Get_def GatewayHandler_List_def UpstreamHandler_Get_def UpstreamHandler_List_def
    RouteHandler_List_def ThreatHandler_List_def Let_def prod.case qsgw_pkgs_simps
  by (auto simp: case_prod_beta split: option.split intro!: honest_read reads_honest lists_honest)

lemma write_handlers_honest:
  "honest_handler content (GatewayHandler_Activate pk) (GatewayHandler_Activate (reliable pk))"
  "honest_handler content (GatewayHandler_Deactivate pk) (GatewayHandler_Deactivate (reliable pk))"
  "honest_handler content (RouteHandler_Delete pk) (RouteHandler_Delete (reliable pk))"
  unfolding honest_handler_def GatewayHandler_Activate_def GatewayHandler_Deactivate_def RouteHandler_Delete_def
    GatewayService_Activate_def GatewayService_Deactivate_def RouteService_Delete_def
  by (auto simp: Let_def intro!: honest_written changes_honest split: option.splits)

text \<open>The services that create: a new entity with the next UUID and time, and its insertion.\<close>

definition honest_new :: "('d, 'a) app_scheme \<Rightarrow> ('e + 'x) \<times> ('d, 'a) app_scheme \<Rightarrow> ('e + 'x) \<times> (qsgw_db, 'a) app_scheme \<Rightarrow> bool" where
  "honest_new s x y \<longleftrightarrow> (\<forall>v. fst x = Inr v \<longrightarrow> fst y = Inr v \<and> app_view content (snd x) = snd y) \<and>
     (app_view content (snd x) = snd y \<or> app_view content (snd x) = (snd y)\<lparr>app_db := content (app_db s)\<rparr>)"

lemma honest_inserted:
  assumes "honest_write s x y"
  shows "honest_new s (case x of (err, s3) \<Rightarrow> case err of Some e \<Rightarrow> (Inl (c e), s3) | None \<Rightarrow> (Inr v, s3))
    (case y of (err, s3) \<Rightarrow> case err of Some e \<Rightarrow> (Inl (c e), s3) | None \<Rightarrow> (Inr v, s3))"
  using assms by (auto simp: honest_new_def honest_write_def split: prod.splits option.splits)

lemma services_honest:
  "honest_new s (GatewayService_Create pk cg s) (GatewayService_Create (reliable pk) cg (app_view content s))"
  "honest_new s (UpstreamService_Create pk cu s) (UpstreamService_Create (reliable pk) cu (app_view content s))"
  "honest_new s (RouteService_Create pk cr s) (RouteService_Create (reliable pk) cr (app_view content s))"
proof -
  obtain i s1 now s2 where src: "uuid_New s = (i, s1)" "time_Now s1 = (now, s2)" by (metis surj_pair)
  have s2: "app_db s2 = app_db s"
    using app_db_sources_view(2) [of s] app_db_sources_view(1) [of s1] by (simp add: src)
  note after = honest_inserted [OF honest_write_after [OF creates_honest(1) s2]]
    honest_inserted [OF honest_write_after [OF creates_honest(2) s2]]
    honest_inserted [OF honest_write_after [OF creates_honest(3) s2]]
  have views: "uuid_New (app_view content s) = (i, app_view content s1)" "time_Now (app_view content s1) = (now, app_view content s2)"
    by (simp_all add: src)
  show "honest_new s (GatewayService_Create pk cg s) (GatewayService_Create (reliable pk) cg (app_view content s))"
    "honest_new s (UpstreamService_Create pk cu s) (UpstreamService_Create (reliable pk) cu (app_view content s))"
    unfolding GatewayService_Create_def UpstreamService_Create_def src views Let_def prod.case by (rule after)+
  have "honest_new s (Inl e, s) (Inl e, app_view content s)" for e :: service_error by (simp add: honest_new_def)
  then show "honest_new s (RouteService_Create pk cr s) (RouteService_Create (reliable pk) cr (app_view content s))"
    unfolding RouteService_Create_def src views Let_def prod.case qsgw_pkgs_simps
    by (auto intro: after split: option.split)
qed

lemma honest_made:
  assumes "honest_new s x y" "rw_sent w = None"
  shows "honest content (app_db s) (case x of (Inl _, s') \<Rightarrow> (s', writeError 500 m w) | (Inr u, s') \<Rightarrow> (s', k u))
    (case y of (Inl _, s') \<Rightarrow> (s', writeError 500 m w) | (Inr u, s') \<Rightarrow> (s', k u))"
  using assms by (auto simp: honest_def honest_new_def split: prod.splits sum.splits)

lemma create_handlers_honest:
  "honest_handler content (GatewayHandler_Create pk) (GatewayHandler_Create (reliable pk))"
  "honest_handler content (UpstreamHandler_Create pk) (UpstreamHandler_Create (reliable pk))"
  "honest_handler content (RouteHandler_Create pk) (RouteHandler_Create (reliable pk))"
  unfolding honest_handler_def GatewayHandler_Create_def UpstreamHandler_Create_def RouteHandler_Create_def Let_def
    prod.case qsgw_pkgs_simps
  by (auto intro!: honest_made services_honest split: option.split)

lemma endpoint_honest: "honest_handler content (endpoint_handler pk e) (endpoint_handler (reliable pk) e)"
proof (cases e)
  case Health
  then show ?thesis by (simp add: honest_handler_def HealthHandler_Check_def)
qed (simp_all add: read_handlers_honest write_handlers_honest create_handlers_honest)

end

section \<open>Through the middleware\<close>

text \<open>A gate that looks at nothing of the database and leaves it alone.\<close>

definition gate_view :: "('d \<Rightarrow> qsgw_db) \<Rightarrow> ('d, 'a) app_scheme gate \<Rightarrow> (qsgw_db, 'a) app_scheme gate \<Rightarrow> bool" where
  "gate_view content g g0 \<longleftrightarrow> (\<forall>r s w. rw_sent w = None \<longrightarrow> (case g r (s, w) of
     Inl (s', w') \<Rightarrow> g0 r (app_view content s, w) = Inl (app_view content s', w')
   | Inr (r', s', w') \<Rightarrow> g0 r (app_view content s, w) = Inr (r', app_view content s', w') \<and> app_db s' = app_db s \<and> rw_sent w' = None))"

lemma honest_middleware:
  assumes "middleware mw g" "middleware mw0 g0" "gate_view content g g0" "honest_handler content h h0"
  shows "honest_handler content (mw h) (mw0 h0)"
  unfolding honest_handler_def
proof (intro allI impI)
  fix r s and w :: rw
  assume w: "rw_sent w = None"
  note view = assms(3) [unfolded gate_view_def, rule_format, OF w, of r s]
  show "honest content (app_db s) (mw h r (s, w)) (mw0 h0 r (app_view content s, w))"
  proof (cases "g r (s, w)")
    case (Inl x)
    then obtain s' w' where "g r (s, w) = Inl (s', w')" by (cases x) auto
    with view show ?thesis by (simp add: middleware.mw_gate [OF assms(1)] middleware.mw_gate [OF assms(2)])
  next
    case (Inr x)
    then obtain r' s' w' where x: "g r (s, w) = Inr (r', s', w')" by (cases x) auto
    with view have "honest content (app_db s) (h r' (s', w')) (h0 r' (app_view content s', w'))"
      using assms(4) [unfolded honest_handler_def, rule_format, of w' s' r'] by simp
    with view x show ?thesis by (simp add: middleware.mw_gate [OF assms(1)] middleware.mw_gate [OF assms(2)])
  qed
qed

lemma gates_view:
  "gate_view content (security_gate sc) (security_gate sc)" "gate_view content (body_gate n) (body_gate n)"
  "gate_view content (cors_gate cc) (cors_gate cc)" "gate_view content (auth_gate ac) (auth_gate ac)"
  "gate_view content rl_gate rl_gate"
proof -
  show "gate_view content (security_gate sc) (security_gate sc)"
    by (simp add: gate_view_def security_gate_def set_security_headers_def Let_def)
  show "gate_view content (body_gate n) (body_gate n)" by (simp add: gate_view_def body_gate_def)
  show "gate_view content (cors_gate cc) (cors_gate cc)" by (simp add: gate_view_def cors_gate_def Let_def)
  show "gate_view content (auth_gate ac) (auth_gate ac)"
    by (auto simp: gate_view_def auth_gate_def Let_def split: sum.splits)
  show "gate_view content rl_gate rl_gate"
    by (auto simp: gate_view_def rl_gate_def Let_def split: prod.splits rl_decision.splits)
qed

lemma honest_own:
  assumes "honest_handler content h h0"
  shows "honest_handler content (foldr (\<lambda>m h. m h) (own_middleware cfg) h) (foldr (\<lambda>m h. m h) (own_middleware cfg) h0)"
proof -
  have rl: "honest_handler content (RateLimiter_Middleware h) (RateLimiter_Middleware h0)"
    by (rule honest_middleware [OF rlim.middleware_axioms rlim.middleware_axioms gates_view(5) assms])
  have "honest_handler content (SecurityHeaders sc (MaxBodySize n h)) (SecurityHeaders sc (MaxBodySize n h0))"
    if "honest_handler content h h0" for sc n and h :: "('a, 'b) app_scheme handler" and h0
    by (intro honest_middleware [OF sec.middleware_axioms sec.middleware_axioms gates_view(1)]
        honest_middleware [OF mbs.middleware_axioms mbs.middleware_axioms gates_view(2)] that)
  moreover have "honest_handler content (CORS cc (RateLimiter_Middleware h)) (CORS cc (RateLimiter_Middleware h0))" for cc
    by (rule honest_middleware [OF cors.middleware_axioms cors.middleware_axioms gates_view(3) rl])
  ultimately show ?thesis using rl by (simp add: own_middleware_def)
qed

text \<open>
  C6. Whatever the database driver does within its contract, failing at any statement before or after it took
  effect, every request is answered honestly, through the whole chain of middleware: either the answer and
  the new state are those of a database that never fails, or the answer is an error 404 or 500
  and the database is as before the request or as after its reliable execution. No success is
  reported that did not happen, and no wrong or partial rows are ever answered.
\<close>

theorem request_honest:
  fixes pk :: "'d pkgs" and s :: "('d, 'a) app_scheme"
  assumes "flaky_driver pk content"
  shows "honest content (app_db s) (request_handler pk cfg e r (s, rw_new))
    (request_handler (reliable pk) cfg e r (app_view content s, rw_new))"
proof -
  have "honest_handler content (endpoint_handler pk e :: ('d, 'a) app_scheme handler) (endpoint_handler (reliable pk) e)"
    using assms by (rule flaky_driver.endpoint_honest)
  moreover from this have "honest_handler content (Auth ac (endpoint_handler pk e :: ('d, 'a) app_scheme handler)) (Auth ac (endpoint_handler (reliable pk) e))" for ac
    by (rule honest_middleware [OF auth.middleware_axioms auth.middleware_axioms gates_view(4)])
  ultimately have "honest_handler content (request_handler pk cfg e :: ('d, 'a) app_scheme handler) (request_handler (reliable pk) cfg e)"
    unfolding request_handler_def by (intro honest_own) simp
  then show ?thesis by (simp add: honest_handler_def)
qed

section \<open>Drivers that keep the contract\<close>

text \<open>A driver over the database of \<open>Schema\<close> that fails at the statements it is told to.\<close>

datatype failure = NoFailure | FailBefore | FailAfter

record flaky =
  flaky_db :: qsgw_db
  failures :: "nat \<Rightarrow> failure"

definition lost :: pgx_error where
  "lost = PgError ''timeout: context deadline exceeded''"

definition flaky_Exec :: "flaky \<Rightarrow> string \<Rightarrow> sqlval list \<Rightarrow> (pgx_error + int) \<times> flaky" where
  "flaky_Exec d sql args =
     (let d' = d\<lparr>failures := \<lambda>i. failures d (Suc i)\<rparr>; (res, q) = db_Exec (flaky_db d) sql args in
      case failures d 0 of
        NoFailure \<Rightarrow> (res, d'\<lparr>flaky_db := q\<rparr>)
      | FailBefore \<Rightarrow> (Inl lost, d')
      | FailAfter \<Rightarrow> (Inl lost, d'\<lparr>flaky_db := q\<rparr>))"

definition flaky_Query :: "flaky \<Rightarrow> string \<Rightarrow> sqlval list \<Rightarrow> pgx_error + sqlrow list \<times> pgx_error option" where
  "flaky_Query d sql args =
     (case failures d 0 of
        NoFailure \<Rightarrow> db_Query (flaky_db d) sql args
      | FailBefore \<Rightarrow> Inl lost
      | FailAfter \<Rightarrow> (case db_Query (flaky_db d) sql args of
            Inl err \<Rightarrow> Inl err | Inr (rows, _) \<Rightarrow> Inr (take (length rows div 2) rows, Some lost)))"

definition flaky_pkgs :: "(uuid \<Rightarrow> string) \<Rightarrow> (string \<Rightarrow> uuid option) \<Rightarrow> flaky pkgs" where
  "flaky_pkgs us up =
     \<lparr>pgx_Exec = flaky_Exec,
      pgx_QueryRow = (\<lambda>d sql args. if failures d 0 = NoFailure then db_QueryRow (flaky_db d) sql args else Inl lost),
      pgx_Query = flaky_Query, uuid_String = us, uuid_Parse = up\<rparr>"

interpretation never: flaky_driver "qsgw_pkgs us up" id for us up
  by unfold_locales simp_all

interpretation sometimes: flaky_driver "flaky_pkgs us up" flaky_db for us up
  by unfold_locales
    (auto simp: flaky_pkgs_def flaky_Exec_def flaky_Query_def Let_def split: failure.splits prod.splits sum.splits if_splits)

text \<open>A create that is executed although the driver reports a failure: the client is told 500 and the gateway is there.\<close>

definition flaky_app :: "flaky app" where
  "flaky_app = \<lparr>clock = clock demo_app, new_uuids = new_uuids demo_app, limiter = limiter demo_app,
     app_db = \<lparr>flaky_db = app_db demo_app, failures = \<lambda>i. if i = 0 then FailAfter else NoFailure\<rparr>\<rparr>"

lemma flaky_app_view: "app_view flaky_db flaky_app = demo_app"
  by (simp add: app_view_def flaky_app_def)

theorem request_honest_witness:
  "honest flaky_db (app_db flaky_app)
     (request_handler (flaky_pkgs uuid_text uuid_read) open_config GatewayCreate demo_post (flaky_app, rw_new))
     (request_handler (qsgw_pkgs uuid_text uuid_read) open_config GatewayCreate demo_post (demo_app, rw_new))"
  using request_honest [OF sometimes.flaky_driver_axioms, of flaky_app uuid_text uuid_read open_config GatewayCreate demo_post]
  by (simp add: flaky_app_view flaky_pkgs_def)

text \<open>
  The reads of one gateway or upstream do not tell a failure from an absent row: every failure of the
  database is answered with 404.
\<close>

theorem lookup_failure_is_404:
  assumes "failures (app_db s) 0 \<noteq> NoFailure" "up (URLParam r ''id'') = Some i"
  shows "GatewayHandler_Get (flaky_pkgs us up) r (s, w) = (s, writeError 404 ''gateway not found'' w)"
    and "UpstreamHandler_Get (flaky_pkgs us up) r (s, w) = (s, writeError 404 ''upstream not found'' w)"
  using assms by (simp_all add: GatewayHandler_Get_def UpstreamHandler_Get_def GatewayService_Get_def UpstreamService_Get_def
      GatewayRepository_GetByID_def UpstreamRepository_GetByID_def query_scan_def flaky_pkgs_def)

end
