(* ===== verification/Concurrent.thy ===== *)
theory Concurrent
  imports Faults Inventory
begin

text \<open>
  Requests that run at the same time: any number of requests, their steps interleaved in any order.
  The data stay consistent, every request ends after a few steps of its own, and the calls of
  the gateways' service take effect one at a time, in the order in which they are answered.
\<close>

section \<open>A request alone\<close>

lemma steps_of_pure_middleware:
  "steps_of p h \<Longrightarrow> steps_of (pure_steps (security_gate sc) p) (SecurityHeaders sc h)"
  "steps_of p h \<Longrightarrow> steps_of (pure_steps (body_gate n) p) (MaxBodySize n h)"
  "steps_of p h \<Longrightarrow> steps_of (pure_steps (cors_gate cc) p) (CORS cc h)"
proof -
  assume p: "steps_of p h"
  show "steps_of (pure_steps (security_gate sc) p) (SecurityHeaders sc h)"
    by (rule steps_of_pure [OF sec.middleware_axioms p]) (simp add: security_gate_def)
  show "steps_of (pure_steps (body_gate n) p) (MaxBodySize n h)"
    by (rule steps_of_pure [OF mbs.middleware_axioms p]) (simp add: body_gate_def)
  show "steps_of (pure_steps (cors_gate cc) p) (CORS cc h)"
    by (rule steps_of_pure [OF cors.middleware_axioms p]) (simp add: cors_gate_def Let_def)
qed

lemma steps_of_own:
  "steps_of p h \<Longrightarrow> steps_of (own_steps cfg p) (foldr (\<lambda>m h. m h) (own_middleware cfg) h)"
  by (simp add: own_steps_def own_middleware_def steps_of_pure_middleware steps_of_RateLimiter)

text \<open>
  A request whose steps nothing interrupts does and answers exactly what its handler behind the
  server's middleware does as one operation, for every endpoint, configuration, driver and state.
\<close>

theorem request_alone:
  "run_alone (request_steps pk cfg (e, r)) s = prod.swap (request_handler pk cfg e r (s, rw_new))"
proof -
  have "steps_of ((if guarded cfg e then Auth_steps (auth_config cfg) else id) (endpoint_steps pk e))
      ((if guarded cfg e then Auth (auth_config cfg) else id) (endpoint_handler pk e))"
    by (simp add: steps_of_Auth steps_of_endpoint)
  from steps_of_own [OF this, of cfg] show ?thesis
    unfolding steps_of_def request_steps_def request_handler_def prod.case by blast
qed

section \<open>Every request ends\<close>

lemma service_ends:
  "ends_within 3 (GatewayService_Create_steps pk cg)" "ends_within 3 (RouteService_Create_steps pk cr)"
  "ends_within 3 (UpstreamService_Create_steps pk cu)" "ends_within 3 (GatewayRepository_UpdateStatus_steps pk i st)"
  "ends_within 3 (GatewayService_List_steps pk off li)" "ends_within 3 (UpstreamService_List_steps pk off li)"
  "ends_within 3 (ThreatRepository_ListByGateway_steps pk g sev off li)"
  by (simp_all add: GatewayService_Create_steps_def create_gateway_steps_def RouteService_Create_steps_def UpstreamService_Create_steps_def
      GatewayRepository_UpdateStatus_steps_def GatewayService_List_steps_def GatewayRepository_List_steps_def
      UpstreamService_List_steps_def UpstreamRepository_List_steps_def ThreatRepository_ListByGateway_steps_def
      atomic_def reading_def numeral_3_eq_3 Let_def split_def split: option.splits sum.splits)

lemma endpoint_ends: "ends_within 3 (endpoint_steps pk e r w)"
proof -
  have bind: "ends_within 3 (proc_bind p (\<lambda>x. Return (k x)))" if "ends_within 3 p" for p :: "(('a, 'b) app_scheme, 'c) proc" and k
    using ends_within_bind [OF that, of 0 "\<lambda>x. Return (k x)"] by simp
  have one: "ends_within 3 (atomic f)" "ends_within 3 (reading h)" for f h
    by (simp_all add: numeral_3_eq_3)
  note defs = GatewayHandler_Create_steps_def GatewayHandler_Get_steps_def GatewayHandler_List_steps_def
    GatewayHandler_SetStatus_steps_def RouteHandler_Create_steps_def RouteHandler_List_steps_def
    RouteHandler_Delete_steps_def ThreatHandler_List_steps_def UpstreamHandler_Create_steps_def
    UpstreamHandler_Get_steps_def UpstreamHandler_List_steps_def
  show ?thesis
    by (cases e) (auto simp: defs Let_def split: option.splits intro!: bind service_ends one)
qed

lemma Auth_ends:
  assumes "\<And>r w. ends_within n (p r w)"
  shows "ends_within (Suc n) (Auth_steps c p r w)"
proof -
  have "ends_within (Suc n) (p r w)" for r w using ends_within_mono [OF assms] by simp
  then show ?thesis
    using assms by (auto simp: Auth_steps_def Let_def split: list.splits sum.splits option.splits
        intro!: ends_within_bind_atomic)
qed

lemma RateLimiter_ends:
  assumes "\<And>r w. ends_within n (p r w)"
  shows "ends_within (Suc (Suc n)) (RateLimiter_steps p r w)"
  unfolding RateLimiter_steps_def split_def
  by (intro ends_within_bind_atomic) (simp add: assms Let_def split: rl_decision.splits)

lemma request_ends:
  fixes pk :: "'d pkgs"
  shows "ends_within 6 (request_steps pk cfg er :: (('d, 'a) app_scheme, rw) proc)"
proof (cases er)
  case (Pair e r)
  let ?p = "endpoint_steps pk e :: ('d, 'a) app_scheme steps"
  have pure: "ends_within 6 (pure_steps g p r w)" if "\<And>r w. ends_within 6 (p r w)"
    for g r w and p :: "('d, 'a) app_scheme steps"
    using that by (auto simp: pure_steps_def split: sum.splits prod.splits)
  have "ends_within (Suc 3) (?p r w)" for r w by (rule ends_within_mono [OF endpoint_ends]) simp
  moreover have "ends_within (Suc 3) (Auth_steps (auth_config cfg) ?p r w)" for r w
    by (rule Auth_ends) (rule endpoint_ends)
  ultimately have "ends_within (Suc 3) ((if guarded cfg e then Auth_steps (auth_config cfg) else id) ?p r w)"
    for r w by simp
  from RateLimiter_ends [OF this] have "ends_within 6 (RateLimiter_steps
      ((if guarded cfg e then Auth_steps (auth_config cfg) else id) ?p) r w)" for r w by simp
  then show ?thesis unfolding Pair request_steps_def own_steps_def by (simp add: pure)
qed

section \<open>What a request is answered\<close>

text \<open>A response that was written: its status is in \<open>S\<close> and it carries the security headers.\<close>

definition written :: "int set \<Rightarrow> rw \<Rightarrow> bool" where
  "written S w \<longleftrightarrow> (\<exists>st h. rw_sent w = Some (st, h) \<and> st \<in> S \<and> has_security_headers DefaultSecurityHeadersConfig h)"

abbreviation fresh :: "rw \<Rightarrow> bool" where
  "fresh w \<equiv> ready DefaultSecurityHeadersConfig ((), w)"

lemma written_answers:
  "fresh w \<Longrightarrow> st \<in> S \<Longrightarrow> written S (writeJSON st v w)" "fresh w \<Longrightarrow> st \<in> S \<Longrightarrow> written S (writeError st m w)"
  "fresh w \<Longrightarrow> st \<in> S \<Longrightarrow> written S (writeAuthError st m w)"
  by (simp_all add: written_def ready_def writeError_eq rw_sent_writeJSON writeAuthError_def has_security_headers_Set
      security_names_def)

lemma written_mono: "written S w \<Longrightarrow> S \<subseteq> T \<Longrightarrow> written T w"
  by (auto simp: written_def)

lemma endpoint_returns:
  assumes "fresh w"
  shows "returns (written {200, 201, 400, 404, 500}) (endpoint_steps pk e r w)"
proof -
  note defs = GatewayHandler_Create_steps_def GatewayHandler_Get_steps_def GatewayHandler_List_steps_def
    GatewayHandler_SetStatus_steps_def RouteHandler_Create_steps_def RouteHandler_List_steps_def
    RouteHandler_Delete_steps_def ThreatHandler_List_steps_def UpstreamHandler_Create_steps_def
    UpstreamHandler_Get_steps_def UpstreamHandler_List_steps_def HealthHandler_Check_def
  show ?thesis
    by (cases e) (auto simp: defs Let_def split: option.splits sum.splits intro!: returns_bind written_answers [OF assms])
qed

lemma Auth_returns:
  assumes "\<And>r. returns P (p r w)" "\<And>m. P (writeAuthError 401 m w)"
  shows "returns P (Auth_steps c p r w)"
  using assms by (auto simp: Auth_steps_def Let_def split: list.splits sum.splits option.splits intro!: returns_bind)

lemma Auth_refuses:
  assumes "URLPath r \<notin> set (SkipPaths c)" "unauthenticated c r" "\<And>m. P (writeAuthError 401 m w)"
  shows "returns P (Auth_steps c p r w)"
proof -
  define h where "h = Header_Get (ReqHeader r) ''Authorization''"
  have no: "identify c h now \<noteq> Inr x" for now x
    using identify_proves [of c h now] assms(2) by (cases x) (auto simp: unauthenticated_def h_def)
  show ?thesis
  proof (cases "CHR '' '' \<in> set h")
    case True
    let ?sch = "ToLower (takeWhile (\<lambda>x. x \<noteq> CHR '' '') h)" and ?cred = "tl (dropWhile (\<lambda>x. x \<noteq> CHR '' '') h)"
    from True have "h \<noteq> []" by auto
    note id = identify_def token_claims_def True this Let_def
    have bearer: "check_claims cl (JWTIssuer c) (Time_Unix now) \<noteq> Inr cl'"
      if "?sch = ''bearer''" "JWTSecret c \<noteq> []" "verified_claims ?cred (JWTSecret c) = Inr cl" for cl cl' now
      using no [of now "(claim_Subject cl', claim_Role cl', AuthMethodJWT)"] that by (auto simp: id)
    have key: "validateAPIKey ?cred (APIKeys c) = None" if "?sch = ''apikey''" "APIKeys c \<noteq> []"
      using no that by (cases "validateAPIKey ?cred (APIKeys c)") (auto simp: id)
    consider "?sch = ''bearer''" | "?sch = ''apikey''" | "?sch \<notin> {''bearer'', ''apikey''}" by blast
    then show ?thesis
    proof cases
      case 1
      then show ?thesis
        using \<open>h \<noteq> []\<close> True assms(1,3) bearer
        by (auto simp: Auth_steps_def h_def [symmetric] SplitN_2 Let_def split: sum.splits intro!: returns_bind)
    qed (use \<open>h \<noteq> []\<close> True assms(1,3) key in \<open>simp_all add: Auth_steps_def h_def [symmetric] SplitN_2 Let_def\<close>)
  qed (use assms in \<open>simp add: Auth_steps_def h_def [symmetric] SplitN_2 Let_def\<close>)
qed

lemma RateLimiter_returns:
  assumes "\<And>w. fresh w \<Longrightarrow> returns (written S) (p r w)" "429 \<in> S" "fresh w"
  shows "returns (written S) (RateLimiter_steps p r w)"
proof -
  have limits: "fresh (setRateLimitHeaders l n d w)" "fresh (SetHeader ''Retry-After'' v (setRateLimitHeaders l n d w))" for l n d v
    using assms(3) by (simp_all add: ready_def has_security_headers_setRateLimitHeaders has_security_headers_Set security_names_def)
  show ?thesis
    unfolding RateLimiter_steps_def split_def
    by (intro returns_bind) (auto simp: Let_def assms(1,2) limits intro!: written_answers split: rl_decision.splits)
qed

text \<open>A request for the guarded API that proves no identity.\<close>

definition shut_out :: "Config \<Rightarrow> endpoint \<Rightarrow> request \<Rightarrow> bool" where
  "shut_out cfg e r \<longleftrightarrow> guarded cfg e \<and> URLPath r \<notin> set (SkipPaths (auth_config cfg)) \<and> unauthenticated (auth_config cfg) r"

definition answers_to :: "Config \<Rightarrow> endpoint \<times> request \<Rightarrow> int set" where
  "answers_to cfg er = (if shut_out cfg (fst er) (snd er) then {204, 401, 413, 429} else {200, 201, 204, 400, 401, 404, 413, 429, 500})"

lemma guarded_returns:
  fixes pk :: "'d pkgs" and p :: "('d, 'a) app_scheme steps" and e :: endpoint
  assumes "fresh w"
  defines "p \<equiv> endpoint_steps pk e"
  shows "returns (written (answers_to cfg (e, r))) ((if guarded cfg e then Auth_steps (auth_config cfg) else id) p r w)"
proof -
  let ?S = "answers_to cfg (e, r)"
  have r401: "written ?S (writeAuthError 401 m w)" for m by (rule written_answers [OF assms(1)]) (simp add: answers_to_def)
  show ?thesis
  proof (cases "shut_out cfg e r")
    case True
    then show ?thesis using Auth_refuses [where P = "written ?S", of r "auth_config cfg" w] r401 by (simp add: shut_out_def)
  next
    case False
    then have S: "{200, 201, 400, 404, 500} \<subseteq> ?S" by (simp add: answers_to_def)
    have "returns (written ?S) (p r w)" for r
      unfolding p_def by (rule returns_mono [OF endpoint_returns [OF assms(1)]]) (erule written_mono [OF _ S])
    then show ?thesis using Auth_returns [where P = "written ?S" and w = w and p = p] r401 by simp
  qed
qed

lemma pure_returns:
  assumes "\<And>w'. g r ((), w) = Inl ((), w') \<Longrightarrow> P w'" "\<And>r' w'. g r ((), w) = Inr (r', (), w') \<Longrightarrow> returns P (p r' w')"
  shows "returns P (pure_steps g p r w)"
  using assms by (auto simp: pure_steps_def split: sum.splits prod.splits)

interpretation replies: answering "request_steps pk cfg :: _ \<Rightarrow> (('d, 'a) app_scheme, rw) proc" "\<lambda>er. written (answers_to cfg er)" for pk cfg
proof unfold_locales
  fix er :: "endpoint \<times> request"
  obtain e r where er: "er = (e, r)" by (cases er)
  let ?S = "answers_to cfg er"
  let ?p = "(if guarded cfg e then Auth_steps (auth_config cfg) else id) (endpoint_steps pk e) :: ('d, 'a) app_scheme steps"
  have same: "answers_to cfg (e, r') = ?S" if "ReqHeader r' = ReqHeader r" "URLPath r' = URLPath r" for r'
    using that by (simp add: answers_to_def shut_out_def unauthenticated_def er)
  have S: "204 \<in> ?S" "413 \<in> ?S" "429 \<in> ?S" by (simp_all add: answers_to_def)
  have rl: "returns (written ?S) (RateLimiter_steps ?p r' w)"
    if "fresh w" "ReqHeader r' = ReqHeader r" "URLPath r' = URLPath r" for w r'
    by (rule RateLimiter_returns [OF _ S(3) that(1)]) (rule guarded_returns [of _ cfg e r', unfolded same [OF that(2,3)]])
  have cors: "returns (written ?S) (pure_steps (cors_gate cc) (RateLimiter_steps ?p) r' w)"
    if "fresh w" "ReqHeader r' = ReqHeader r" "URLPath r' = URLPath r" for w r' cc
  proof (rule pure_returns)
    show "written ?S w'" if "cors_gate cc r' ((), w) = Inl ((), w')" for w'
      using that S(1) \<open>fresh w\<close>
      by (auto simp: cors_gate_def Let_def written_def ready_def has_security_headers_cors preflight_headers_get split: if_splits)
    show "returns (written ?S) (RateLimiter_steps ?p r'' w')" if "cors_gate cc r' ((), w) = Inr (r'', (), w')" for r'' w'
    proof (rule rl)
      show "fresh w'" using cors_gate_ready(2) [OF \<open>fresh w\<close> that] .
      have "r'' = r'" using that by (auto simp: cors_gate_def Let_def split: if_splits)
      then show "ReqHeader r'' = ReqHeader r" "URLPath r'' = URLPath r" using \<open>ReqHeader r' = _\<close> \<open>URLPath r' = _\<close> by simp_all
    qed
  qed
  let ?c = "(if length (cfg_CORSOrigins cfg) > 0 then pure_steps (cors_gate (cors_config cfg)) else id) (RateLimiter_steps ?p)"
  have c: "returns (written ?S) (?c r' w)" if "fresh w" "ReqHeader r' = ReqHeader r" "URLPath r' = URLPath r" for w r'
    using rl [OF that] cors [OF that] by simp
  have body: "returns (written ?S) (pure_steps (body_gate n) ?c r w)" if "fresh w" for w n
  proof (rule pure_returns)
    show "written ?S w'" if "body_gate n r ((), w) = Inl ((), w')" for w'
      using that S(2) \<open>fresh w\<close> by (auto simp: body_gate_def written_answers split: if_splits)
    show "returns (written ?S) (?c r' w')" if "body_gate n r ((), w) = Inr (r', (), w')" for r' w'
      using that \<open>fresh w\<close> by (intro c) (auto simp: body_gate_def split: if_splits)
  qed
  have "fresh (set_security_headers (normalize_security DefaultSecurityHeadersConfig) rw_new)"
    using has_security_headers_set [of DefaultSecurityHeadersConfig]
    by (simp add: ready_def set_security_headers_def Let_def)
  from body [OF this] have "returns (written ?S) (pure_steps (security_gate DefaultSecurityHeadersConfig)
      (pure_steps (body_gate (cfg_MaxBodyBytes cfg)) ?c) r rw_new)"
    unfolding pure_steps_def [of "security_gate DefaultSecurityHeadersConfig"]
    by (simp only: security_gate_def sum.case prod.case fst_conv snd_conv)
  then show "returns (written ?S) (request_steps pk cfg er :: (('d, 'a) app_scheme, rw) proc)"
    by (simp only: request_steps_def own_steps_def er prod.case)
qed

text \<open>
  C32. Every request is answered once, with a response that was written, whatever the driver, the
  configuration and the other requests do: once its thread has had six turns after its arrival, in any
  schedule, the log has exactly one answer of it, with one of the statuses 200, 201, 204, 400, 401, 404, 413,
  429 and 500 and with the security headers. A request for the guarded API whose Authorization header proves no
  identity, at no time, gets 401, or 413, 429 or a preflight's 204 from the middleware before. (A request that
  waits for the limiter's lock or for a connection does not have its turn: that such a wait ends is not shown.)
\<close>

theorem request_answered:
  assumes "t = length (calls_of es)" "6 \<le> count_list es' (Run t)"
  shows "\<exists>b w st h. filter (\<lambda>x. fst x = t) (conc_log (run_steps (conc_step (request_steps pk cfg))
      (es @ Arrive (e, r) # es') (conc_start s))) = [(t, b, (e, r), w)] \<and>
    rw_sent w = Some (st, h) \<and> has_security_headers DefaultSecurityHeadersConfig h \<and>
    st \<in> (if shut_out cfg e r then {204, 401, 413, 429} else {200, 201, 204, 400, 401, 404, 413, 429, 500})"
  using replies.answered_once [OF request_ends assms(2,1), of pk cfg "(e, r)" s] unfolding written_def answers_to_def by auto

definition turns :: "(endpoint \<times> request) event list" where
  "turns = Arrive (GatewayList, demo_request) # [Run 0, Run 1, Run 0, Run 1, Run 0, Run 0, Run 0, Run 0]"

theorem request_answered_witness:
  "\<exists>b w st h. filter (\<lambda>x. fst x = 0) (conc_log (run_steps
      (conc_step (request_steps (qsgw_pkgs uuid_text uuid_read) demo_config))
      (Arrive (GatewayCreate, demo_post\<lparr>ReqHeader := Map.empty\<rparr>) # turns) (conc_start demo_app))) =
        [(0, b, (GatewayCreate, demo_post\<lparr>ReqHeader := Map.empty\<rparr>), w)] \<and>
    rw_sent w = Some (st, h) \<and> has_security_headers DefaultSecurityHeadersConfig h \<and> st \<in> {204, 401, 413, 429}"
proof -
  have "0 = length (calls_of ([] :: (endpoint \<times> request) event list))" by simp
  moreover have "6 \<le> count_list turns (Run 0)" by (simp add: turns_def)
  moreover have "shut_out demo_config GatewayCreate (demo_post\<lparr>ReqHeader := Map.empty\<rparr>)"
    by (simp add: shut_out_def guarded_def auth_enabled_def demo_config_def auth_config_def unauthenticated_def
        proves_identity_def Header_Get_def demo_post_def demo_request_def)
  ultimately show ?thesis
    using request_answered [where es = "[]" and t = 0 and es' = turns and cfg = demo_config and e = GatewayCreate
        and r = "demo_post\<lparr>ReqHeader := Map.empty\<rparr>" and s = demo_app and pk = "qsgw_pkgs uuid_text uuid_read"]
    by simp
qed

section \<open>The data stay consistent\<close>

text \<open>
  What the steps of an endpoint do: one of the changes of the database, and none of the table of
  gateways unless the endpoint writes gateways.
\<close>

definition writes_gateways :: "endpoint \<Rightarrow> bool" where
  "writes_gateways e \<longleftrightarrow> e \<in> {GatewayCreate, GatewayActivate, GatewayDeactivate}"

definition endpoint_change :: "('d \<Rightarrow> qsgw_db) \<Rightarrow> endpoint \<Rightarrow> ('d, 'a) app_scheme \<Rightarrow> ('d, 'a) app_scheme \<Rightarrow> bool" where
  "endpoint_change content e s t \<longleftrightarrow> limiter t = limiter s \<and> db_change (content (app_db s)) (content (app_db t)) \<and>
     (\<not> writes_gateways e \<longrightarrow> gateways (content (app_db t)) = gateways (content (app_db s)))"

lemma limiter_untouched [simp]:
  "limiter (snd (uuid_New s)) = limiter s" "limiter (snd (pool_Exec pk sql args s)) = limiter s"
  by (simp_all add: uuid_New_def pool_Exec_def split: prod.splits)

lemma change_refl: "endpoint_change content e s s"
  by (simp add: endpoint_change_def db_change.same)

lemma change_sources: "endpoint_change content e s (snd (time_Now s))" "endpoint_change content e s (snd (uuid_New s))"
  by (simp_all add: endpoint_change_def db_change.same)

context flaky_driver
begin

lemma change_exec:
  assumes "db_change (content (app_db s)) (snd (db_Exec (content (app_db s)) sql args))"
    and "\<not> writes_gateways e \<Longrightarrow> gateways (snd (db_Exec (content (app_db s)) sql args)) = gateways (content (app_db s))"
  shows "endpoint_change content e s (snd (pool_Exec pk sql args s))"
proof -
  obtain res d where d: "pgx_Exec pk (app_db s) sql args = (res, d)" by fastforce
  then have "content d = content (app_db s) \<or> content d = snd (db_Exec (content (app_db s)) sql args)"
    using exec_done [of "app_db s" sql args _ d] exec_failed [of "app_db s" sql args _ d] by (cases res) auto
  then show ?thesis using assms by (auto simp: endpoint_change_def pool_Exec_def d db_change.same)
qed

lemma change_statements:
  "gateway_request_ok req \<Longrightarrow>
     endpoint_change content GatewayCreate s (snd (GatewayRepository_Create pk (gateway_for r req i now) s))"
  "endpoint_change content e s (snd (RouteRepository_Create pk rt s))"
  "endpoint_change content e s (snd (UpstreamRepository_Create pk u s))"
  "endpoint_change content e s (snd (RouteService_Delete pk i s))"
  "writes_gateways e \<Longrightarrow> st \<in> {''ACTIVE'', ''INACTIVE''} \<Longrightarrow>
     endpoint_change content e s (snd (pool_Exec pk sql_gateway_status [SqlText st, SqlTime t, SqlUuid i] s))"
proof -
  have state: "snd (case pool_Exec pk sql args s of (Inl e, s') \<Rightarrow> (f e, s') | (Inr n, s') \<Rightarrow> g n s') = snd (pool_Exec pk sql args s)"
    if "\<And>n s'. snd (g n s') = s'" for sql args f and g :: "int \<Rightarrow> ('d, 'a) app_scheme \<Rightarrow> repo_error option \<times> ('d, 'a) app_scheme"
    using that by (simp split: prod.splits sum.splits)
  note rules = GatewayRepository_Create_def RouteRepository_Create_def UpstreamRepository_Create_def RouteService_Delete_def
    RouteRepository_Delete_def writes_gateways_def state
  show "endpoint_change content GatewayCreate s (snd (GatewayRepository_Create pk (gateway_for r req i now) s))"
    if "gateway_request_ok req"
    using that by (simp add: rules) (rule change_exec, simp_all add: rules db_change.new_gateway)
  show "endpoint_change content e s (snd (RouteRepository_Create pk rt s))"
    by (simp add: rules) (rule change_exec, simp_all add: rules db_change.new_route)
  show "endpoint_change content e s (snd (UpstreamRepository_Create pk u s))"
    by (simp add: rules) (rule change_exec, simp_all add: rules db_change.new_upstream)
  show "endpoint_change content e s (snd (RouteService_Delete pk i s))"
    by (simp add: rules) (rule change_exec, simp_all add: rules db_change.del_route)
  show "endpoint_change content e s (snd (pool_Exec pk sql_gateway_status [SqlText st, SqlTime t, SqlUuid i] s))"
    if "writes_gateways e" "st \<in> {''ACTIVE'', ''INACTIVE''}"
    by (rule change_exec) (use that db_change.status [OF that(2)] in simp_all)
qed

lemma does_steps:
  "does (endpoint_change content e) (reading g)" "does (endpoint_change content e) (atomic time_Now)"
  "does (endpoint_change content e) (atomic uuid_New)"
  "gateway_request_ok req \<Longrightarrow>
     does (endpoint_change content GatewayCreate) (atomic (GatewayRepository_Create pk (gateway_for r req i now)))"
  "does (endpoint_change content e) (atomic (RouteRepository_Create pk rt))"
  "does (endpoint_change content e) (atomic (UpstreamRepository_Create pk u))"
  "does (endpoint_change content e) (atomic (RouteService_Delete pk i))"
  "writes_gateways e \<Longrightarrow> st \<in> {''ACTIVE'', ''INACTIVE''} \<Longrightarrow>
     does (endpoint_change content e) (atomic (pool_Exec pk sql_gateway_status [SqlText st, SqlTime t, SqlUuid i]))"
  by (intro does_reading change_refl does_atomic change_sources change_statements; assumption)+

lemmas does_rules = does_bind does_steps

lemma create_does: "does (endpoint_change content GatewayCreate) (GatewayHandler_Create_steps pk r w)"
proof (cases "decode_body cg_fields r cg_zero")
  case (Some req)
  define req' where "req' = (if cg_CreatedBy req = [] then req\<lparr>cg_CreatedBy := actorFromRequest r\<rparr> else req)"
  have g: "new_gateway (gateway_defaults req') i now = gateway_for r req i now" for i now
    unfolding req'_def by (rule new_gateway_for)
  show ?thesis
    by (simp add: GatewayHandler_Create_steps_def maxNameLength_def Let_def not_less Some req'_def [symmetric])
      (auto simp: GatewayService_Create_steps_def create_gateway_steps_def g gateway_request_ok_def Let_def
        intro!: does_rules)
qed (simp add: GatewayHandler_Create_steps_def)

lemma endpoint_does: "does (endpoint_change content e) (endpoint_steps pk e r w)"
proof -
  note services = RouteService_Create_steps_def UpstreamService_Create_steps_def GatewayRepository_UpdateStatus_steps_def
    GatewayService_List_steps_def GatewayRepository_List_steps_def UpstreamService_List_steps_def
    UpstreamRepository_List_steps_def ThreatRepository_ListByGateway_steps_def
  note handlers = GatewayHandler_Get_steps_def GatewayHandler_List_steps_def
    GatewayHandler_SetStatus_steps_def RouteHandler_Create_steps_def RouteHandler_List_steps_def
    RouteHandler_Delete_steps_def ThreatHandler_List_steps_def UpstreamHandler_Create_steps_def
    UpstreamHandler_Get_steps_def UpstreamHandler_List_steps_def
  show ?thesis
    by (cases e) (auto simp: handlers services writes_gateways_def Let_def split_def
        intro!: create_does does_rules split: option.splits sum.splits)
qed

end

text \<open>The middleware adds reads of the clock and decisions of the limiter.\<close>

definition request_change :: "('d \<Rightarrow> qsgw_db) \<Rightarrow> endpoint \<Rightarrow> ('d, 'a) app_scheme \<Rightarrow> ('d, 'a) app_scheme \<Rightarrow> bool" where
  "request_change content e s t \<longleftrightarrow> db_change (content (app_db s)) (content (app_db t)) \<and>
     (\<not> writes_gateways e \<longrightarrow> gateways (content (app_db t)) = gateways (content (app_db s))) \<and>
     (limiter t = limiter s \<or> (\<exists>k now. limiter t = snd (rl_admit (limiter s) k now)))"

lemma Auth_does:
  assumes "\<And>r w. does R (p r w)" "\<And>s. R s (snd (time_Now s))"
  shows "does R (Auth_steps c p r w)"
  using assms
  by (auto simp: Auth_steps_def Let_def split: list.splits sum.splits option.splits intro!: does_bind does_atomic)

lemma RateLimiter_does:
  fixes p :: "('d, 'a) app_scheme steps"
  assumes "\<And>r w. does (request_change content e) (p r w)"
  shows "does (request_change content e) (RateLimiter_steps p r w)"
  unfolding RateLimiter_steps_def split_def
proof (intro does_bind does_atomic)
  fix s :: "('d, 'a) app_scheme" and x :: "RateLimitConfig \<times> Time"
  show "request_change content e s (snd (let p = time_Now s in ((rl_cfg (limiter s), fst p), snd p)))"
    "request_change content e s (snd (let p = rl_admit (limiter s) (rate_key (fst x) r) (snd x) in (fst p, s\<lparr>limiter := snd p\<rparr>)))"
    by (auto simp: request_change_def Let_def db_change.same)
qed (simp add: assms Let_def split: rl_decision.splits)

lemma pure_does: "(\<And>r w. does R (p r w)) \<Longrightarrow> does R (pure_steps g p r w)"
  by (auto simp: pure_steps_def split: sum.splits prod.splits)

context flaky_driver
begin

lemma request_does: "does (request_change content e) (request_steps pk cfg (e, r))"
proof -
  have "does (request_change content e) (endpoint_steps pk e r w)" for r w
    by (rule does_mono [OF endpoint_does]) (simp add: endpoint_change_def request_change_def)
  moreover have "request_change content e s (snd (time_Now s))" for s :: "('d, 'a) app_scheme"
    by (simp add: request_change_def db_change.same)
  ultimately show ?thesis
    by (auto simp: request_steps_def own_steps_def intro!: pure_does RateLimiter_does Auth_does)
qed

end

definition conc_ok :: "('d \<Rightarrow> qsgw_db) \<Rightarrow> ('d, 'a) app_scheme \<Rightarrow> bool" where
  "conc_ok content s \<longleftrightarrow> db_ok (content (app_db s)) \<and> gateways_ok (content (app_db s)) \<and> rl_bounded (limiter s)"

lemma conc_ok_change: "request_change content e s t \<Longrightarrow> conc_ok content s \<longrightarrow> conc_ok content t"
  using db_change_ok [of "content (app_db s)" "content (app_db t)"] by (auto simp: request_change_def conc_ok_def rl_bounded_admit)

sublocale flaky_driver \<subseteq> requests: interleaving "request_steps pk cfg" "conc_ok content" for cfg
proof unfold_locales
  fix er :: "endpoint \<times> request"
  show "does (\<lambda>s t. conc_ok content s \<longrightarrow> conc_ok content t) (request_steps pk cfg er)"
    by (cases er) (auto intro: does_mono [OF request_does] dest: conc_ok_change)
qed

context flaky_driver
begin

lemma schedule_ok:
  "conc_ok content s \<Longrightarrow> conc_ok content (conc_state (run_steps (conc_step (request_steps pk cfg)) es (conc_start s)))"
  by (rule requests.inv_schedule)

end

text \<open>
  C5. In every state that any number of concurrent requests can reach on a fresh database and limiter,
  whatever they ask for, however their steps interleave and whichever statements the driver fails at,
  before or after they took effect: the constraints of the schema hold, every gateway is one that the API
  allows, and the limiter tracks at most \<open>MaxEntries\<close> keys.
\<close>

theorem concurrent_integrity:
  assumes "flaky_driver pk content" "content (app_db s) = empty_db ck z" "limiter s = NewRateLimiter c"
    and "cf = run_steps (conc_step (request_steps pk cfg)) es (conc_start s)"
  shows "db_ok (content (app_db (conc_state cf))) \<and> gateways_ok (content (app_db (conc_state cf))) \<and>
    rl_bounded (limiter (conc_state cf))"
proof -
  have "conc_ok content s"
    using assms(2,3) rl_bounded_New [of c] by (simp add: conc_ok_def db_ok_def gateways_ok_def empty_db_def)
  then have "conc_ok content (conc_state cf)" unfolding assms(4) by (rule flaky_driver.schedule_ok [OF assms(1)])
  then show ?thesis by (simp add: conc_ok_def)
qed

definition two_posts :: "(endpoint \<times> request) event list" where
  "two_posts = [Arrive (GatewayCreate, demo_post), Arrive (GatewayCreate, demo_post),
     Run 0, Run 1, Run 1, Run 0, Run 0, Run 1, Run 1, Run 0, Run 0, Run 1]"

theorem concurrent_integrity_witness:
  "gateways_ok (flaky_db (app_db (conc_state (run_steps (conc_step (request_steps (flaky_pkgs uuid_text uuid_read) open_config))
     two_posts (conc_start flaky_app)))))"
proof -
  have "flaky_db (app_db flaky_app) = empty_db (\<lambda>i. at_sec (int i)) 0" "limiter flaky_app = NewRateLimiter DefaultRateLimitConfig"
    by (simp_all add: flaky_app_def demo_app_def)
  from concurrent_integrity [OF sometimes.flaky_driver_axioms this refl] show ?thesis by blast
qed

end
