(* ===== verification/Linearize.thy ===== *)
theory Linearize
  imports Concurrent
begin

text \<open>
  The service of the gateways under concurrent calls: calls of the service and requests for the other
  endpoints, interleaved step by step, behave as the abstract inventory of \<open>Inventory\<close> does when each
  call takes effect at one moment, its last step. Only the listing is weaker: its rows are
  those of that moment, its total was counted earlier.
\<close>

section \<open>The calls as programs\<close>

type_synonym conc_call = "gw_call + endpoint \<times> request"

type_synonym conc_reply = "gw_reply + rw"

fun call_steps :: "'d pkgs \<Rightarrow> gw_call \<Rightarrow> (('d, 'a) app_scheme, gw_reply) proc" where
  "call_steps pk (CallCreate req) =
     proc_bind (create_gateway_steps pk req)
       (\<lambda>(g, err). Return (case err of Some _ \<Rightarrow> Refused (gw_ID g) | None \<Rightarrow> Created g))"
| "call_steps pk (CallGet i) =
     proc_bind (reading (GatewayService_Get pk i)) (\<lambda>res. Return (case res of Inl _ \<Rightarrow> Missing | Inr g \<Rightarrow> Found g))"
| "call_steps pk (CallList off li) =
     proc_bind (GatewayService_List_steps pk off li)
       (\<lambda>res. Return (case res of Inl _ \<Rightarrow> Missing | Inr (gs, n) \<Rightarrow> Listed gs n))"
| "call_steps pk (CallActivate i) =
     proc_bind (GatewayRepository_UpdateStatus_steps pk i ''ACTIVE'')
       (\<lambda>err. Return (case err of None \<Rightarrow> Done | Some _ \<Rightarrow> Missing))"
| "call_steps pk (CallDeactivate i) =
     proc_bind (GatewayRepository_UpdateStatus_steps pk i ''INACTIVE'')
       (\<lambda>err. Return (case err of None \<Rightarrow> Done | Some _ \<Rightarrow> Missing))"

fun mixed_steps :: "'d pkgs \<Rightarrow> Config \<Rightarrow> conc_call \<Rightarrow> (('d, 'a) app_scheme, conc_reply) proc" where
  "mixed_steps pk cfg (Inl c) = proc_bind (call_steps pk c) (\<lambda>r. Return (Inl r))"
| "mixed_steps pk cfg (Inr er) = proc_bind (request_steps pk cfg er) (\<lambda>w. Return (Inr w))"

text \<open>Run alone, a call is the call of the service.\<close>

lemma run_alone_call: "run_alone (call_steps pk c) s = service_call pk c s"
  by (cases c) (simp_all add: run_alone_bind create_gateway_steps_def GatewayService_Create_def
      GatewayService_Activate_def GatewayService_Deactivate_def new_gateway_def uuid_New_def Let_def
      split: prod.splits sum.splits option.splits)

section \<open>The specification\<close>

inductive conc_inventory :: "inventory \<Rightarrow> inventory \<Rightarrow> conc_call \<Rightarrow> conc_reply \<Rightarrow> inventory \<Rightarrow> bool" where
  call: "inventory_step m c r m' \<Longrightarrow> (\<And>off li. c \<noteq> CallList off li) \<Longrightarrow> conc_inventory m0 m (Inl c) (Inl r) m'"
| listed: "distinct gs \<Longrightarrow> set gs = ran m \<Longrightarrow> sorted_wrt (\<lambda>a b. ns (gw_CreatedAt a) \<ge> ns (gw_CreatedAt b)) gs \<Longrightarrow>
     card (dom m0) \<le> n \<Longrightarrow> n \<le> card (dom m) \<Longrightarrow>
     conc_inventory m0 m (Inl (CallList off li)) (Inl (Listed (take (nat li) (drop (nat off) gs)) (int n))) m"
| other: "conc_inventory m0 m (Inr er) (Inr w) m"

fun mixed_ok :: "conc_call \<Rightarrow> bool" where
  "mixed_ok (Inl c) \<longleftrightarrow> call_ok c"
| "mixed_ok (Inr (e, r)) \<longleftrightarrow> \<not> writes_gateways e"

text \<open>No call ever takes a gateway away.\<close>

definition grows :: "(qsgw_db, 'a) app_scheme \<Rightarrow> (qsgw_db, 'a) app_scheme \<Rightarrow> bool" where
  "grows s t \<longleftrightarrow> dom (gateway_view s) \<subseteq> dom (gateway_view t)"

lemma inventory_grows: "inventory_step m c r m' \<Longrightarrow> dom m \<subseteq> dom m'"
  by (induction rule: inventory_step.induct) auto

lemma view_cong: "gateways (app_db t) = gateways (app_db s) \<Longrightarrow> gateway_view t = gateway_view s"
  by (simp add: gateway_view_def [abs_def])

lemma grows_same: "gateways (app_db t) = gateways (app_db s) \<Longrightarrow> grows s t"
  unfolding grows_def by (drule view_cong) simp

abbreviation "call_behaves \<equiv> behaves gateway_view conc_inventory service_inv grows"

section \<open>Each call takes effect with its last step\<close>

text \<open>A step that leaves the gateways alone does not count.\<close>

lemma behaves_quiet:
  assumes "\<And>s. gateways (app_db (snd (f s))) = gateways (app_db s)" "\<And>s. service_inv s \<Longrightarrow> service_inv (snd (f s))"
    and "\<And>s g. service_inv s \<Longrightarrow> grows s0 s \<Longrightarrow> fst (f s) = Step g \<Longrightarrow> call_behaves b c (snd (f s)) (Step g)"
    and "\<And>s r. service_inv s \<Longrightarrow> grows s0 s \<Longrightarrow> fst (f s) = Return r \<Longrightarrow>
       conc_inventory (gateway_view b) (gateway_view s) c r (gateway_view s)"
  shows "call_behaves b c s0 (Step f)"
proof (rule behaves_Step)
  fix s :: "(qsgw_db, 'a) app_scheme"
  assume s: "service_inv s" "grows s0 s"
  have "gateway_view (snd (f s)) = gateway_view s" by (rule view_cong) (rule assms(1))
  then show "service_inv (snd (f s)) \<and> grows s (snd (f s)) \<and>
      (\<forall>r. fst (f s) = Return r \<longrightarrow>
         conc_inventory (gateway_view b) (gateway_view s) c r (gateway_view (snd (f s)))) \<and>
      (\<forall>g. fst (f s) = Step g \<longrightarrow> gateway_view (snd (f s)) = gateway_view s \<and> call_behaves b c (snd (f s)) (fst (f s)))"
    using assms(2-4) [OF s(1)] s grows_same [OF assms(1)] by auto
qed

lemma behaves_last:
  assumes "\<And>s. service_inv s \<Longrightarrow> service_inv (snd (f s))"
    and "\<And>s. service_inv s \<Longrightarrow> \<exists>r. fst (f s) = Return (Inl r) \<and> inventory_step (gateway_view s) c r (gateway_view (snd (f s)))"
    and "\<And>off li. c \<noteq> CallList off li"
  shows "call_behaves b (Inl c) s0 (Step f)"
proof (rule behaves_Step)
  fix s :: "(qsgw_db, 'a) app_scheme"
  assume s: "service_inv s"
  obtain r where r: "fst (f s) = Return (Inl r)" "inventory_step (gateway_view s) c r (gateway_view (snd (f s)))"
    using assms(2) [OF s] by blast
  then show "service_inv (snd (f s)) \<and> grows s (snd (f s)) \<and>
      (\<forall>r. fst (f s) = Return r \<longrightarrow>
         conc_inventory (gateway_view b) (gateway_view s) (Inl c) r (gateway_view (snd (f s)))) \<and>
      (\<forall>g. fst (f s) = Step g \<longrightarrow> gateway_view (snd (f s)) = gateway_view s \<and> call_behaves b (Inl c) (snd (f s)) (fst (f s)))"
    using assms(1) [OF s] assms(3) inventory_grows [OF r(2)] by (auto simp: grows_def intro!: conc_inventory.call)
qed

lemma sources_quiet [simp]:
  "service_inv s \<Longrightarrow> service_inv (snd (time_Now s))" "service_inv s \<Longrightarrow> service_inv (snd (uuid_New s))"
  by (simp_all add: service_inv_def)

lemma behaves_then:
  assumes "\<And>s. gateways (app_db (h s)) = gateways (app_db s)" "\<And>s. service_inv s \<Longrightarrow> service_inv (h s)"
    and "\<And>s s1. call_behaves b c s1 (Step (g s))"
  shows "call_behaves b c s0 (Step (\<lambda>s. (Step (g s), h s)))"
  by (rule behaves_quiet) (use assms in auto)

lemma db_change_db_ok: "db_change d d' \<Longrightarrow> db_ok d \<Longrightarrow> db_ok d'"
  by (induction rule: db_change.induct)
    (simp_all add: db_ok_insert_upstream db_ok_insert_route db_ok_delete_route db_ok_insert_gateway db_ok_update_status
      del: insert_iff)

text \<open>Requests for other endpoints are invisible.\<close>

lemma behaves_other:
  "does (request_change id e) p \<Longrightarrow> \<not> writes_gateways e \<Longrightarrow> proc_bind p (\<lambda>w. Return (Inr w)) = Step f \<Longrightarrow>
     call_behaves b (Inr er) s0 (Step f)"
proof (induction arbitrary: s0 f rule: does.induct)
  case (does_Step h)
  have f: "f = (\<lambda>s. map_prod (\<lambda>p. proc_bind p (\<lambda>w. Return (Inr w))) id (h s))" using does_Step.prems(2) by simp
  have ch: "gateways (app_db (snd (h s))) = gateways (app_db s)" "db_change (app_db s) (app_db (snd (h s)))" for s
    using does_Step.hyps(1) [of s] does_Step.prems(1) by (simp_all add: request_change_def)
  show ?case
  proof (rule behaves_quiet)
    fix s g
    assume "fst (f s) = Step g"
    then have "proc_bind (fst (h s)) (\<lambda>w. Return (Inr w)) = Step g" by (simp add: f)
    then show "call_behaves b (Inr er) (snd (f s)) (Step g)" by (rule does_Step.IH [OF does_Step.prems(1)])
  next
    fix s r
    assume "fst (f s) = Return r"
    then obtain w where "r = Inr w" by (cases "fst (h s)") (auto simp: f)
    then show "conc_inventory (gateway_view b) (gateway_view s) (Inr er) r (gateway_view s)"
      by (simp add: conc_inventory.other)
  qed (use ch db_change_db_ok [OF ch(2)] in \<open>simp_all add: f service_inv_def\<close>)
qed simp

type_synonym 'a conc_step_fun = "(qsgw_db, 'a) app_scheme \<Rightarrow> ((qsgw_db, 'a) app_scheme, conc_reply) proc \<times> (qsgw_db, 'a) app_scheme"

lemma behaves_create:
  fixes f :: "'a conc_step_fun"
  assumes "call_ok (CallCreate req)" "mixed_steps (qsgw_pkgs us up) cfg (Inl (CallCreate req)) = Step f"
  shows "call_behaves b (Inl (CallCreate req)) s0 (Step f)"
proof -
  let ?pk = "qsgw_pkgs us up"
  define last :: "uuid \<Rightarrow> Time \<Rightarrow> 'a conc_step_fun" where "last i now = (\<lambda>s. let g = new_gateway (gateway_defaults req) i now;
      (err, t) = GatewayRepository_Create ?pk g s in
      (Return (Inl (case err of Some _ \<Rightarrow> Refused (gw_ID g) | None \<Rightarrow> Created g)), t))" for i now
  have insert: "call_behaves b (Inl (CallCreate req)) s0 (Step (last i now))" for i now s0
  proof (rule behaves_last)
    fix s :: "(qsgw_db, 'a) app_scheme"
    assume s: "service_inv s"
    define g where "g = new_gateway (gateway_defaults req) i now"
    obtain res d where x: "insert_gateway (app_db s) g = (res, d)" by fastforce
    have l: "last i now s = (Return (Inl (case res of Inl _ \<Rightarrow> Refused (gw_ID g) | Inr _ \<Rightarrow> Created g)), s\<lparr>app_db := d\<rparr>)"
      using x by (simp add: last_def GatewayRepository_Create_def app_db_pool_Exec g_def [symmetric] split: sum.splits)
    show "service_inv (snd (last i now s))"
      using s x db_ok_insert_gateway [of "app_db s" g] by (simp add: l service_inv_def)
    show "\<exists>r. fst (last i now s) = Return (Inl r) \<and>
        inventory_step (gateway_view s) (CallCreate req) r (gateway_view (snd (last i now s)))"
      using insert_refines [OF _ assms(1), of s g res "s\<lparr>app_db := d\<rparr>"] s x asked_new_gateway [of req i now]
      by (simp add: l service_inv_def g_def)
  qed simp
  have "f = (\<lambda>s. (Step (\<lambda>s'. (Step (last (fst (uuid_New s)) (fst (time_Now s'))), snd (time_Now s'))), snd (uuid_New s)))"
    using assms(2) by (simp add: create_gateway_steps_def bind_atomic last_def Let_def split_def cong: option.case_cong)
  then show ?thesis by (auto intro!: behaves_then insert)
qed

lemma behaves_get:
  fixes f :: "'a conc_step_fun"
  assumes "mixed_steps (qsgw_pkgs us up) cfg (Inl (CallGet i)) = Step f"
  shows "call_behaves b (Inl (CallGet i)) s0 (Step f)"
proof (rule behaves_last)
  fix s :: "(qsgw_db, 'a) app_scheme"
  assume s: "service_inv s"
  have f: "f s = (Return (Inl (fst (service_call (qsgw_pkgs us up) (CallGet i) s))), s)"
    using assms by (auto simp: bind_atomic split: sum.splits)
  show "service_inv (snd (f s))" using s by (simp add: f)
  show "\<exists>r. fst (f s) = Return (Inl r) \<and> inventory_step (gateway_view s) (CallGet i) r (gateway_view (snd (f s)))"
    using read_refines [OF s, of "CallGet i" i, where us = us and up = up] by (simp add: f)
qed simp

lemma status_statement:
  assumes "service_inv s" "c = CallActivate i \<and> st = ''ACTIVE'' \<or> c = CallDeactivate i \<and> st = ''INACTIVE''"
    and "pool_Exec (qsgw_pkgs us up) sql_gateway_status [SqlText st, SqlTime (Time_UTC now), SqlUuid i] s = (res, t)"
  shows "inventory_step (gateway_view s) c
      (case res of Inl _ \<Rightarrow> Missing | Inr n \<Rightarrow> if n = 0 then Missing else Done) (gateway_view t) \<and> service_inv t"
proof -
  define s' where "s' = s\<lparr>clock := \<lambda>_. now\<rparr>"
  obtain r t' where call: "service_call (qsgw_pkgs us up) c s' = (r, t')" by fastforce
  have r: "r = (case res of Inl _ \<Rightarrow> Missing | Inr n \<Rightarrow> if n = 0 then Missing else Done)" "app_db t' = app_db t"
    using call assms(2,3) by (auto simp: s'_def GatewayService_Activate_def GatewayService_Deactivate_def
        GatewayRepository_UpdateStatus_def app_db_pool_Exec time_Now_def Let_def split: sum.splits if_splits)
  have "gateway_view t' = gateway_view t" "gateway_view s' = gateway_view s"
    by (rule view_cong; simp add: r(2) s'_def)+
  then show ?thesis
    using status_refines [of s' c i us up r t'] call assms(1,2) r by (auto simp: s'_def service_inv_def)
qed

lemma behaves_status:
  fixes f :: "'a conc_step_fun"
  assumes "c = CallActivate i \<and> st = ''ACTIVE'' \<or> c = CallDeactivate i \<and> st = ''INACTIVE''"
    and "mixed_steps (qsgw_pkgs us up) cfg (Inl c) = Step f"
  shows "call_behaves b (Inl c) s0 (Step f)"
proof -
  define last :: "Time \<Rightarrow> 'a conc_step_fun" where "last now = (\<lambda>s.
      let (res, t) = pool_Exec (qsgw_pkgs us up) sql_gateway_status [SqlText st, SqlTime (Time_UTC now), SqlUuid i] s in
      (Return (Inl (case res of Inl _ \<Rightarrow> Missing | Inr n \<Rightarrow> if n = 0 then Missing else Done)), t))" for now
  have "call_behaves b (Inl c) s0 (Step (last now))" for now s0
  proof (rule behaves_last)
    fix s :: "(qsgw_db, 'a) app_scheme"
    assume s: "service_inv s"
    obtain res t where x: "pool_Exec (qsgw_pkgs us up) sql_gateway_status
        [SqlText st, SqlTime (Time_UTC now), SqlUuid i] s = (res, t)" by fastforce
    note ref = status_statement [OF s assms(1) x]
    have l: "last now s = (Return (Inl (case res of Inl _ \<Rightarrow> Missing | Inr n \<Rightarrow> if n = 0 then Missing else Done)), t)"
      by (simp add: last_def x)
    show "service_inv (snd (last now s))"
      "\<exists>r. fst (last now s) = Return (Inl r) \<and> inventory_step (gateway_view s) c r (gateway_view (snd (last now s)))"
      using ref by (simp_all add: l)
  qed (use assms(1) in auto)
  moreover have "f = (\<lambda>s. (Step (last (fst (time_Now s))), snd (time_Now s)))"
  proof -
    have "(case (case res of Inl e \<Rightarrow> Some (Wrapped m e) | Inr n \<Rightarrow> if n = 0 then Some y else None) of
        None \<Rightarrow> Done | Some _ \<Rightarrow> Missing) = (case res of Inl _ \<Rightarrow> Missing | Inr n \<Rightarrow> if n = 0 then Missing else Done)"
      for res :: "pgx_error + int" and m y by (simp split: sum.splits)
    then show ?thesis
      using assms by (auto simp: GatewayRepository_UpdateStatus_steps_def bind_atomic last_def Let_def split_def)
  qed
  ultimately show ?thesis by (auto intro!: behaves_then)
qed

lemma behaves_list:
  fixes f :: "'a conc_step_fun"
  assumes "call_ok (CallList off li)" "mixed_steps (qsgw_pkgs us up) cfg (Inl (CallList off li)) = Step f"
    and "grows b s0"
  shows "call_behaves b (Inl (CallList off li)) s0 (Step f)"
proof -
  let ?c = "CallList off li"
  define page_of where "page_of s = take (nat li) (drop (nat off) (gateways_by_time (app_db s)))" for s :: "(qsgw_db, 'a) app_scheme"
  define last :: "nat \<Rightarrow> 'a conc_step_fun" where "last n = (\<lambda>s. (Return (Inl (Listed (page_of s) (int n))), s))" for n
  have f: "f = (\<lambda>s. (Step (last (length (gateways (app_db s)))), s))"
    using assms(1,2) by (simp add: last_def GatewayService_List_steps_def GatewayRepository_List_steps_def bind_atomic
        query_scan_def scan_count_def as_int_def query_rows_page page_def page_of_def gateways_by_time_def)
  have fin: "finite (dom (gateway_view s))" if "service_inv s" for s :: "(qsgw_db, 'a) app_scheme"
    using that distinct_view(1) [of s] by (simp add: service_inv_def finite_dom_map_of)
  have listed: "conc_inventory (gateway_view b) (gateway_view s') (Inl ?c) (Inl (Listed (page_of s') (int n))) (gateway_view s')"
    if inv: "service_inv s'" and n: "card (dom (gateway_view b)) \<le> n" "n \<le> card (dom (gateway_view s'))" for s' n
  proof -
    let ?gs = "gateways_by_time (app_db s')"
    have db: "db_ok (app_db s')" using inv by (simp add: service_inv_def)
    then have "distinct ?gs" by (auto simp: gateways_by_time_def db_ok_def distinct_map)
    moreover have "set ?gs = ran (gateway_view s')" using distinct_view(2) [OF db] by (simp add: gateways_by_time_def)
    moreover have "sorted (map (\<lambda>g. - ns (gw_CreatedAt g)) ?gs)" by (simp add: gateways_by_time_def)
    then have "sorted_wrt (\<lambda>a b. ns (gw_CreatedAt a) \<ge> ns (gw_CreatedAt b)) ?gs" by (simp add: sorted_map)
    ultimately show ?thesis unfolding page_of_def using n by (intro conc_inventory.listed)
  qed
  show ?thesis
    unfolding f
  proof (rule behaves_quiet)
    fix s g
    assume s: "service_inv s" "grows s0 s"
    let ?n = "length (gateways (app_db s))"
    have n: "?n = card (dom (gateway_view s))" using distinct_view(3) [of s] s(1) by (simp add: service_inv_def)
    have b: "card (dom (gateway_view b)) \<le> ?n"
      unfolding n using assms(3) s by (intro card_mono fin) (auto simp: grows_def)
    have "call_behaves b (Inl ?c) s (Step (last ?n))"
    proof (rule behaves_quiet)
      fix s' r
      assume s': "service_inv s'" "grows s s'" and r: "fst (last ?n s') = Return r"
      have "?n \<le> card (dom (gateway_view s'))"
        unfolding n using s'(2) by (intro card_mono fin [OF s'(1)]) (simp add: grows_def)
      then show "conc_inventory (gateway_view b) (gateway_view s') (Inl ?c) r (gateway_view s')"
        using listed [OF s'(1) b] r by (auto simp: last_def)
    qed (auto simp: last_def)
    then show "call_behaves b (Inl ?c) (snd (Step (last ?n), s)) (Step g)" if "fst (Step (last ?n), s) = Step g"
      using that by simp
  qed auto
qed

section \<open>Any interleaving\<close>

interpretation calls: linearizable "mixed_steps (qsgw_pkgs us up) cfg" gateway_view conc_inventory service_inv grows mixed_ok
  for us up cfg
proof unfold_locales
  fix s t u :: "(qsgw_db, 'a) app_scheme"
  show "grows s s" by (simp add: grows_def)
  show "grows s u" if "grows s t" "grows t u" using that by (auto simp: grows_def)
next
  fix s :: "(qsgw_db, 'a) app_scheme" and c r
  assume "mixed_steps (qsgw_pkgs us up) cfg c = (Return r :: ((qsgw_db, 'a) app_scheme, conc_reply) proc)"
  then have "\<exists>er w. c = Inr er \<and> r = Inr w"
  proof (cases c)
    case (Inl d)
    then show ?thesis
      using \<open>mixed_steps _ _ _ = _\<close>
      by (cases d) (simp_all add: create_gateway_steps_def GatewayService_List_steps_def GatewayRepository_List_steps_def
          GatewayRepository_UpdateStatus_steps_def bind_atomic)
  next
    case (Inr er)
    then show ?thesis
      using \<open>mixed_steps _ _ _ = _\<close>
      by (cases "request_steps (qsgw_pkgs us up) cfg er :: ((qsgw_db, 'a) app_scheme, rw) proc") auto
  qed
  then show "conc_inventory (gateway_view s) (gateway_view s) c r (gateway_view s)"
    by (auto intro: conc_inventory.other)
next
  fix s :: "(qsgw_db, 'a) app_scheme" and c and f :: "'a conc_step_fun"
  assume "mixed_ok c" and f: "mixed_steps (qsgw_pkgs us up) cfg c = Step f"
  show "call_behaves s c s (Step f)"
  proof (cases c)
    case (Inl d)
    have refl: "grows s s" by (simp add: grows_def)
    show ?thesis
    proof (cases d)
      case (CallCreate req)
      then show ?thesis using behaves_create [of req us up cfg f] f \<open>mixed_ok c\<close> Inl by simp
    next
      case (CallList off li)
      then show ?thesis using behaves_list [of off li us up cfg f s s] f \<open>mixed_ok c\<close> Inl refl by simp
    next
      case (CallGet i)
      then show ?thesis using behaves_get [of us up cfg i f] f Inl by simp
    next
      case (CallActivate i)
      then show ?thesis using behaves_status [of d i "''ACTIVE''" us up cfg f] f Inl by simp
    next
      case (CallDeactivate i)
      then show ?thesis using behaves_status [of d i "''INACTIVE''" us up cfg f] f Inl by simp
    qed
  next
    case (Inr er)
    obtain e r where er: "er = (e, r)" by fastforce
    then have "\<not> writes_gateways e" using \<open>mixed_ok c\<close> Inr by simp
    then show ?thesis using behaves_other [OF never.request_does [of e us up cfg r]] f Inr er by simp
  qed
qed

text \<open>
  C4. Calls of the gateways' service, and requests for the endpoints that do not write gateways, run at
  the same time, their steps interleaved in any order; creates with a name and a creator of at most 255
  bytes and a hostname of at most 512, lists with an offset of at least 0 and a limit from 1 to 100. Then the answers, in the order in which they
  were given, are a run of the abstract inventory: each create, get, activation and deactivation takes
  effect as if it were alone, at the moment of its last statement, and each list shows the page
  of that moment. Only the total of a list may be behind: it lies between the number of gateways when
  the call began and the number at its end.
\<close>

theorem concurrent_calls_linearize:
  assumes "service_inv s" "list_all mixed_ok (calls_of es)"
    and "cf = run_steps (conc_step (mixed_steps (qsgw_pkgs us up) cfg)) es (conc_start s)"
  shows "lin_run gateway_view conc_inventory (gateway_view s) (conc_log cf) (gateway_view (conc_state cf))"
  using calls.linearized [OF assms] by simp

text \<open>One name, one winner: the gateways that were created have different names.\<close>

definition created_in :: "(nat \<times> 's \<times> conc_call \<times> conc_reply) list \<Rightarrow> Gateway list" where
  "created_in es = concat (map (\<lambda>(t, b, c, r). case r of Inl (Created g) \<Rightarrow> [g] | _ \<Rightarrow> []) es)"

lemma created_in_simps [simp]:
  "created_in [] = []" "created_in (es @ es') = created_in es @ created_in es'"
  "created_in [(t, b, c, r)] = (case r of Inl (Created g) \<Rightarrow> [g] | _ \<Rightarrow> [])"
  by (simp_all add: created_in_def)

lemma names_kept:
  assumes "m i = Some x" "gw_Name y = gw_Name x"
  shows "gw_Name ` ran m \<subseteq> gw_Name ` ran (m(i \<mapsto> y))"
proof (rule subsetI, elim imageE)
  fix n g
  assume n: "n = gw_Name g" and "g \<in> ran m"
  then obtain j where j: "m j = Some g" by (auto simp: ran_def)
  have "y \<in> ran (m(i \<mapsto> y))" by (rule ranI [of _ i]) simp
  moreover have "g \<in> ran (m(i \<mapsto> y))" if "j \<noteq> i" using j that by (intro ranI [of _ j]) simp
  ultimately show "n \<in> gw_Name ` ran (m(i \<mapsto> y))" using assms j n by (metis imageI option.inject)
qed

lemma inventory_names:
  assumes "inventory_step m c r m'"
  shows "gw_Name ` ran m \<subseteq> gw_Name ` ran m'"
    and "r = Created g \<Longrightarrow> gw_Name g \<notin> gw_Name ` ran m \<and> gw_Name g \<in> gw_Name ` ran m'"
  using assms
proof (induction rule: inventory_step.induct)
  case (created req m g' g'')
  have new: "ran (m(gw_ID g' \<mapsto> g'')) = insert g'' (ran m)" using created.hyps(5) by (rule ran_map_upd)
  have "gw_Name g'' = gw_Name g'" using gateway_kept_keys [OF created.hyps(4)] by simp
  { case 1 show ?case unfolding new by blast }
  { case 2 then show ?case unfolding new using created.hyps(2,3) \<open>gw_Name g'' = gw_Name g'\<close>
      by (auto simp: gateway_asked_def) }
next
  case (activated m i x t)
  { case 1 show ?case by (rule names_kept [of _ _ x]) (simp_all add: activated gateway_with_status_def) }
  { case 2 then show ?case by simp }
next
  case (deactivated m i x t)
  { case 1 show ?case by (rule names_kept [of _ _ x]) (simp_all add: deactivated gateway_with_status_def) }
  { case 2 then show ?case by simp }
qed auto

lemma lin_run_created:
  "lin_run abst conc_inventory m es m' \<Longrightarrow>
     distinct (map gw_Name (created_in es)) \<and> gw_Name ` set (created_in es) \<subseteq> gw_Name ` ran m'"
proof (induction rule: lin_run.induct)
  case (lin_snoc es m1 b c r m2 t)
  from lin_snoc.hyps(2) show ?case
  proof (cases rule: conc_inventory.cases)
    case (call d r')
    note names = inventory_names [OF call(3)]
    have "gw_Name ` set (created_in es) \<subseteq> gw_Name ` ran m2" using lin_snoc.IH names(1) by blast
    then show ?thesis using lin_snoc.IH call names(2) by (cases r') (auto dest!: subsetD)
  qed (use lin_snoc.IH in auto)
qed simp

text \<open>
  C33. However concurrent creates and other calls interleave (creates with texts that fit their columns, lists within the bounds of a page), two gateways
  that were answered as created never have the same name: of several requests for one name at most one
  succeeds.
\<close>

theorem concurrent_names_unique:
  assumes "service_inv s" "list_all mixed_ok (calls_of es)"
    and "cf = run_steps (conc_step (mixed_steps (qsgw_pkgs us up) cfg)) es (conc_start s)"
  shows "distinct (map gw_Name (created_in (conc_log cf)))"
  using calls.linearized [OF assms] lin_run_created by blast

definition race :: "conc_call event list" where
  "race = [Arrive (Inl (CallCreate demo_cg)), Arrive (Inl (CallCreate demo_cg)), Run 0, Run 1, Run 0, Run 1, Run 1, Run 0]"

lemma race_ok: "service_inv demo_app" "list_all mixed_ok (calls_of race)"
  by (simp_all add: service_inv_def db_ok_def demo_app_def empty_db_def race_def demo_cg_def)

theorem concurrent_calls_linearize_witness:
  "lin_run gateway_view conc_inventory (gateway_view demo_app)
     (conc_log (run_steps (conc_step (mixed_steps (qsgw_pkgs uuid_text uuid_read) demo_config)) race (conc_start demo_app)))
     (gateway_view (conc_state (run_steps (conc_step (mixed_steps (qsgw_pkgs uuid_text uuid_read) demo_config)) race
        (conc_start demo_app))))"
  by (rule concurrent_calls_linearize [OF race_ok refl])

theorem concurrent_names_unique_witness:
  "distinct (map gw_Name (created_in (conc_log
     (run_steps (conc_step (mixed_steps (qsgw_pkgs uuid_text uuid_read) demo_config)) race (conc_start demo_app)))))"
  by (rule concurrent_names_unique [OF race_ok refl])

section \<open>A total that is behind\<close>

text \<open>
  The count and the page of a list are two statements without a transaction: a gateway that is
  created between them is shown by an answer whose total is 0.
\<close>

definition lagging :: "conc_call event list" where
  "lagging = [Arrive (Inl (CallList 0 20)), Arrive (Inl (CallCreate demo_cg)), Run 0, Run 1, Run 1, Run 1, Run 0]"

theorem list_total_lags:
  "\<exists>g. (0, demo_app, Inl (CallList 0 20), Inl (Listed [g] 0)) \<in> set (conc_log
     (run_steps (conc_step (mixed_steps (qsgw_pkgs uuid_text uuid_read) demo_config)) lagging (conc_start demo_app)))"
proof -
  define g where "g = new_gateway (gateway_defaults demo_cg) 0 (at_sec 0)"
  have "valid_utf8 []" by (rule valid_utf8_ascii) simp
  then have "\<exists>row. insert_gateway (app_db demo_app) g = (Inr 1, tick_db ((app_db demo_app)\<lparr>gateways := [row]\<rparr>))"
    by (simp add: insert_gateway_def gateway_stored_def g_def new_gateway_def gateway_defaults_def demo_cg_def Let_def
        varchar_def pg_text_def utf8_chars_def int4_def enum_def gateway_status_def tls_policy_def demo_app_def empty_db_def)
      blast
  then obtain row where row: "insert_gateway (empty_db (\<lambda>i. at_sec (int i)) 0) g
      = (Inr 1, tick_db ((app_db demo_app)\<lparr>gateways := [row]\<rparr>))" by (auto simp: demo_app_def)
  have "gateways (empty_db (\<lambda>i. at_sec (int i)) 0) = []" by (simp add: empty_db_def)
  then show ?thesis
    using row
    by (simp add: lagging_def conc_start_def create_gateway_steps_def GatewayService_List_steps_def
        GatewayRepository_List_steps_def bind_atomic Let_def query_scan_def scan_count_def as_int_def query_rows_page
        page_def GatewayRepository_Create_def app_db_pool_Exec demo_app_def uuid_New_def time_Now_def g_def split_def)
qed

end
