(* ===== verification/Substrings.thy ===== *)
theory Substrings
  imports Prelude
begin

text \<open>
  Prefixes and substrings of texts, as \<open>starts_with\<close>, \<open>strip_prefix\<close> and \<open>contains\<close> of Rust and \<open>in\<close> of
  Python have them, for the data plane and the AI engine. Rust texts are lists of
  bytes, Python texts lists of code points.
\<close>

definition starts_with :: "'a list \<Rightarrow> 'a list \<Rightarrow> bool" where
  "starts_with s p \<longleftrightarrow> take (length p) s = p"

definition strip_prefix :: "'a list \<Rightarrow> 'a list \<Rightarrow> 'a list option" where
  "strip_prefix s p = (if starts_with s p then Some (drop (length p) s) else None)"

fun has_infix :: "'a list \<Rightarrow> 'a list \<Rightarrow> bool" where
  "has_infix [] p \<longleftrightarrow> p = []"
| "has_infix (c # s) p \<longleftrightarrow> starts_with (c # s) p \<or> has_infix s p"

lemma starts_with_iff: "starts_with s p \<longleftrightarrow> (\<exists>v. s = p @ v)"
  unfolding starts_with_def by (metis append_eq_conv_conj append_take_drop_id)

lemma starts_with_append [simp]: "starts_with (p @ v) p"
  by (simp add: starts_with_def)

lemma strip_prefix_Some: "strip_prefix s p = Some v \<longleftrightarrow> s = p @ v"
  by (auto simp: strip_prefix_def starts_with_iff)

lemma has_infix_iff: "has_infix s p \<longleftrightarrow> (\<exists>u v. s = u @ p @ v)"
proof (induction s)
  case (Cons c s)
  have "(\<exists>u v. c # s = u @ p @ v) \<longleftrightarrow> (\<exists>v. c # s = p @ v) \<or> (\<exists>u v. s = u @ p @ v)"
    by (metis append_Cons append_Nil list.exhaust list.inject)
  then show ?case using Cons by (simp add: starts_with_iff)
qed simp

lemma has_infix_append: "has_infix s p \<Longrightarrow> has_infix (u @ s @ v) p"
  unfolding has_infix_iff by (metis append.assoc)

lemma has_infix_trans: "has_infix s p \<Longrightarrow> has_infix p q \<Longrightarrow> has_infix s q"
  unfolding has_infix_iff by (metis append.assoc)

end
