(* ===== verification/Algorithms.thy ===== *)
theory Algorithms
  imports Substrings
begin

text \<open>
  The types shared by the Rust crates, \<open>src/types/src\<close>: algorithms with their kinds, security levels, sizes
  and names, and the error codes of the platform.
\<close>

section \<open>Algorithms\<close>

datatype MlKemVariant = MlKem512 | MlKem768 | MlKem1024

datatype MlDsaVariant = MlDsa44 | MlDsa65 | MlDsa87

datatype SlhDsaVariant = Sha2_128s | Sha2_128f | Sha2_192s | Sha2_192f | Sha2_256s | Sha2_256f

datatype HybridVariant = X25519MlKem768 | Ed25519MlDsa65

datatype Algorithm = MlKem MlKemVariant | MlDsa MlDsaVariant | SlhDsa SlhDsaVariant | Hybrid HybridVariant

datatype KeyType = Kem | Signature | HybridKem | HybridSignature

datatype KeyUsage = Encrypt | Sign | KeyAgreement | Wrap

fun key_type :: "Algorithm \<Rightarrow> KeyType" where
  "key_type (MlKem _) = Kem"
| "key_type (MlDsa _) = Signature"
| "key_type (SlhDsa _) = Signature"
| "key_type (Hybrid X25519MlKem768) = HybridKem"
| "key_type (Hybrid Ed25519MlDsa65) = HybridSignature"

fun security_level :: "Algorithm \<Rightarrow> nat" where
  "security_level (MlKem MlKem512) = 1"
| "security_level (MlKem MlKem768) = 3"
| "security_level (MlKem MlKem1024) = 5"
| "security_level (MlDsa MlDsa44) = 2"
| "security_level (MlDsa MlDsa65) = 3"
| "security_level (MlDsa MlDsa87) = 5"
| "security_level (SlhDsa v) =
     (case v of Sha2_128s \<Rightarrow> 1 | Sha2_128f \<Rightarrow> 1 | Sha2_192s \<Rightarrow> 3 | Sha2_192f \<Rightarrow> 3 | Sha2_256s \<Rightarrow> 5 | Sha2_256f \<Rightarrow> 5)"
| "security_level (Hybrid X25519MlKem768) = 3"
| "security_level (Hybrid Ed25519MlDsa65) = 3"

text \<open>Sizes of keys (public, secret), ciphertexts and signatures in bytes.\<close>

fun mlkem_key_sizes :: "MlKemVariant \<Rightarrow> nat \<times> nat" where
  "mlkem_key_sizes MlKem512 = (800, 1632)"
| "mlkem_key_sizes MlKem768 = (1184, 2400)"
| "mlkem_key_sizes MlKem1024 = (1568, 3168)"

fun ciphertext_size :: "MlKemVariant \<Rightarrow> nat" where
  "ciphertext_size MlKem512 = 768"
| "ciphertext_size MlKem768 = 1088"
| "ciphertext_size MlKem1024 = 1568"

fun mldsa_key_sizes :: "MlDsaVariant \<Rightarrow> nat \<times> nat" where
  "mldsa_key_sizes MlDsa44 = (1312, 2560)"
| "mldsa_key_sizes MlDsa65 = (1952, 4032)"
| "mldsa_key_sizes MlDsa87 = (2592, 4896)"

fun mldsa_signature_size :: "MlDsaVariant \<Rightarrow> nat" where
  "mldsa_signature_size MlDsa44 = 2420"
| "mldsa_signature_size MlDsa65 = 3309"
| "mldsa_signature_size MlDsa87 = 4627"

fun slhdsa_key_sizes :: "SlhDsaVariant \<Rightarrow> nat \<times> nat" where
  "slhdsa_key_sizes Sha2_128s = (32, 64)"
| "slhdsa_key_sizes Sha2_128f = (32, 64)"
| "slhdsa_key_sizes Sha2_192s = (48, 96)"
| "slhdsa_key_sizes Sha2_192f = (48, 96)"
| "slhdsa_key_sizes Sha2_256s = (64, 128)"
| "slhdsa_key_sizes Sha2_256f = (64, 128)"

fun slhdsa_signature_size :: "SlhDsaVariant \<Rightarrow> nat" where
  "slhdsa_signature_size Sha2_128s = 7856"
| "slhdsa_signature_size Sha2_128f = 17088"
| "slhdsa_signature_size Sha2_192s = 16224"
| "slhdsa_signature_size Sha2_192f = 35664"
| "slhdsa_signature_size Sha2_256s = 29792"
| "slhdsa_signature_size Sha2_256f = 49856"

definition is_small :: "SlhDsaVariant \<Rightarrow> bool" where
  "is_small v \<longleftrightarrow> v \<in> {Sha2_128s, Sha2_192s, Sha2_256s}"

text \<open>The \<open>Display\<close> forms.\<close>

fun mlkem_name :: "MlKemVariant \<Rightarrow> string" where
  "mlkem_name MlKem512 = ''ML-KEM-512''"
| "mlkem_name MlKem768 = ''ML-KEM-768''"
| "mlkem_name MlKem1024 = ''ML-KEM-1024''"

fun mldsa_name :: "MlDsaVariant \<Rightarrow> string" where
  "mldsa_name MlDsa44 = ''ML-DSA-44''"
| "mldsa_name MlDsa65 = ''ML-DSA-65''"
| "mldsa_name MlDsa87 = ''ML-DSA-87''"

fun slhdsa_name :: "SlhDsaVariant \<Rightarrow> string" where
  "slhdsa_name Sha2_128s = ''SLH-DSA-SHA2-128s''"
| "slhdsa_name Sha2_128f = ''SLH-DSA-SHA2-128f''"
| "slhdsa_name Sha2_192s = ''SLH-DSA-SHA2-192s''"
| "slhdsa_name Sha2_192f = ''SLH-DSA-SHA2-192f''"
| "slhdsa_name Sha2_256s = ''SLH-DSA-SHA2-256s''"
| "slhdsa_name Sha2_256f = ''SLH-DSA-SHA2-256f''"

fun hybrid_name :: "HybridVariant \<Rightarrow> string" where
  "hybrid_name X25519MlKem768 = ''X25519-ML-KEM-768''"
| "hybrid_name Ed25519MlDsa65 = ''Ed25519-ML-DSA-65''"

fun algorithm_name :: "Algorithm \<Rightarrow> string" where
  "algorithm_name (MlKem v) = mlkem_name v"
| "algorithm_name (MlDsa v) = mldsa_name v"
| "algorithm_name (SlhDsa v) = slhdsa_name v"
| "algorithm_name (Hybrid v) = hybrid_name v"

text \<open>The name of an algorithm tells it: no two algorithms have the same name.\<close>

definition all_algorithms :: "Algorithm list" where
  "all_algorithms = map MlKem [MlKem512, MlKem768, MlKem1024] @ map MlDsa [MlDsa44, MlDsa65, MlDsa87] @
     map SlhDsa [Sha2_128s, Sha2_128f, Sha2_192s, Sha2_192f, Sha2_256s, Sha2_256f] @
     map Hybrid [X25519MlKem768, Ed25519MlDsa65]"

lemma every_algorithm: "a \<in> set all_algorithms"
proof (cases a)
  case (MlKem v)
  then show ?thesis by (cases v) (simp_all add: all_algorithms_def)
next
  case (MlDsa v)
  then show ?thesis by (cases v) (simp_all add: all_algorithms_def)
next
  case (SlhDsa v)
  then show ?thesis by (cases v) (simp_all add: all_algorithms_def)
next
  case (Hybrid v)
  then show ?thesis by (cases v) (simp_all add: all_algorithms_def)
qed

lemma forall_algorithms: "list_all P all_algorithms \<Longrightarrow> P a"
  using every_algorithm by (auto simp: list_all_iff)

lemma algorithm_name_inj: "algorithm_name a = algorithm_name b \<longleftrightarrow> a = b"
proof -
  have "distinct (map algorithm_name all_algorithms)" by (simp add: all_algorithms_def)
  then have "inj_on algorithm_name (set all_algorithms)" by (simp add: distinct_map)
  then show ?thesis using every_algorithm by (auto simp: inj_on_def)
qed

text \<open>Within a family a higher level has longer keys; small signatures are shorter than fast ones of their level.\<close>

lemma key_sizes_grow:
  "security_level (MlKem v) < security_level (MlKem v') \<Longrightarrow> fst (mlkem_key_sizes v) < fst (mlkem_key_sizes v')"
  "security_level (MlDsa d) < security_level (MlDsa d') \<Longrightarrow> fst (mldsa_key_sizes d) < fst (mldsa_key_sizes d')"
  "security_level (SlhDsa h) < security_level (SlhDsa h') \<Longrightarrow> fst (slhdsa_key_sizes h) < fst (slhdsa_key_sizes h')"
    apply (cases v; cases v'; simp)
   apply (cases d; cases d'; simp)
  apply (cases h; cases h'; simp)
  done

lemma small_is_shorter:
  "is_small v \<Longrightarrow> \<not> is_small v' \<Longrightarrow> security_level (SlhDsa v) = security_level (SlhDsa v') \<Longrightarrow>
     slhdsa_signature_size v < slhdsa_signature_size v'"
  by (cases v; cases v'; simp add: is_small_def)

section \<open>Error codes\<close>

datatype ErrorCode = Internal | InvalidArgument | NotFound | AlreadyExists | PermissionDenied | Unauthenticated
  | UnsupportedAlgorithm | KeyGenerationFailed | EncapsulationFailed | DecapsulationFailed | SigningFailed
  | VerificationFailed | InvalidKeyMaterial | KeyExpired | KeyRevoked
  | TlsHandshakeFailed | CertificateInvalid | CertificateExpired
  | DeviceNotProvisioned | DeviceOffline | FirmwareIncompatible | AssessmentFailed | ScanTimeout

fun as_str :: "ErrorCode \<Rightarrow> string" where
  "as_str Internal = ''INTERNAL''"
| "as_str InvalidArgument = ''INVALID_ARGUMENT''"
| "as_str NotFound = ''NOT_FOUND''"
| "as_str AlreadyExists = ''ALREADY_EXISTS''"
| "as_str PermissionDenied = ''PERMISSION_DENIED''"
| "as_str Unauthenticated = ''UNAUTHENTICATED''"
| "as_str UnsupportedAlgorithm = ''UNSUPPORTED_ALGORITHM''"
| "as_str KeyGenerationFailed = ''KEY_GENERATION_FAILED''"
| "as_str EncapsulationFailed = ''ENCAPSULATION_FAILED''"
| "as_str DecapsulationFailed = ''DECAPSULATION_FAILED''"
| "as_str SigningFailed = ''SIGNING_FAILED''"
| "as_str VerificationFailed = ''VERIFICATION_FAILED''"
| "as_str InvalidKeyMaterial = ''INVALID_KEY_MATERIAL''"
| "as_str KeyExpired = ''KEY_EXPIRED''"
| "as_str KeyRevoked = ''KEY_REVOKED''"
| "as_str TlsHandshakeFailed = ''TLS_HANDSHAKE_FAILED''"
| "as_str CertificateInvalid = ''CERTIFICATE_INVALID''"
| "as_str CertificateExpired = ''CERTIFICATE_EXPIRED''"
| "as_str DeviceNotProvisioned = ''DEVICE_NOT_PROVISIONED''"
| "as_str DeviceOffline = ''DEVICE_OFFLINE''"
| "as_str FirmwareIncompatible = ''FIRMWARE_INCOMPATIBLE''"
| "as_str AssessmentFailed = ''ASSESSMENT_FAILED''"
| "as_str ScanTimeout = ''SCAN_TIMEOUT''"

end
