(* ===== verification/Tls_Config.thy ===== *)
theory Tls_Config
  imports Algorithms
begin

text \<open>
  TLS of the data plane: the configuration of \<open>src/tls/src/config.rs\<close> with its validation, and
  \<open>src/gateway/src/tls/mod.rs\<close>, which builds the configuration for a policy and classifies cipher suites.
\<close>

section \<open>Configurations\<close>

datatype TlsVersion = Tls12 | Tls13

datatype PqcCipherSuite = Aes256GcmX25519MlKem768 | Aes128GcmX25519MlKem512 | Aes256GcmMlKem1024

record TlsConfig =
  cert_path :: string
  key_path :: string
  ca_path :: "string option"
  preferred_algorithms :: "Algorithm list"
  min_tls_version :: TlsVersion
  mutual_tls :: bool
  hybrid_mode :: bool

datatype TlsConfigError = NoAlgorithms | IncompatibleVersion string | Certificate string | Io string

definition TlsConfig_default :: TlsConfig where
  "TlsConfig_default =
     \<lparr>cert_path = ''certs/server.pem'', key_path = ''certs/server-key.pem'', ca_path = None,
      preferred_algorithms = [Hybrid X25519MlKem768, MlKem MlKem768], min_tls_version = Tls13, mutual_tls = False,
      hybrid_mode = True\<rparr>"

definition TlsConfig_development :: TlsConfig where
  "TlsConfig_development =
     \<lparr>cert_path = ''certs/dev.pem'', key_path = ''certs/dev-key.pem'', ca_path = None,
      preferred_algorithms = [Hybrid X25519MlKem768], min_tls_version = Tls13, mutual_tls = False, hybrid_mode = True\<rparr>"

definition validate :: "TlsConfig \<Rightarrow> TlsConfigError option" where
  "validate c =
     (if preferred_algorithms c = [] then Some NoAlgorithms
      else if min_tls_version c = Tls12 \<and> hybrid_mode c
           then Some (IncompatibleVersion ''hybrid PQC key exchange requires TLS 1.3'')
      else None)"

definition cipher_suites :: "TlsConfig \<Rightarrow> PqcCipherSuite list" where
  "cipher_suites c =
     (if hybrid_mode c then [Aes256GcmX25519MlKem768, Aes128GcmX25519MlKem512] else [Aes256GcmMlKem1024])"

text \<open>The \<open>Display\<close> forms of the errors.\<close>

fun TlsConfigError_string :: "TlsConfigError \<Rightarrow> string" where
  "TlsConfigError_string NoAlgorithms = ''no preferred algorithms specified''"
| "TlsConfigError_string (IncompatibleVersion m) = ''incompatible TLS version: '' @ m"
| "TlsConfigError_string (Certificate m) = ''certificate error: '' @ m"
| "TlsConfigError_string (Io m) = ''IO error: '' @ m"

section \<open>The policies of a gateway\<close>

text \<open>\<open>TlsPolicy::Hybrid\<close> has another name here, as \<open>Hybrid\<close> is a constructor of the algorithms.\<close>

datatype TlsPolicy = PqcOnly | PqcPreferred | HybridPolicy | ClassicalAllowed

datatype TlsError = NoPqcCipherSuites | PolicyViolation string | ConfigError string

definition build_tls_config :: "TlsPolicy \<Rightarrow> TlsError + TlsConfig" where
  "build_tls_config policy =
     (let config = TlsConfig_development\<lparr>min_tls_version := Tls13\<rparr>;
          config' = (case policy of
              PqcOnly \<Rightarrow> config\<lparr>preferred_algorithms := [MlKem MlKem768, MlDsa MlDsa65], hybrid_mode := False\<rparr>
            | PqcPreferred \<Rightarrow>
                config\<lparr>preferred_algorithms := [MlKem MlKem768, MlKem MlKem1024, MlDsa MlDsa65], hybrid_mode := True\<rparr>
            | HybridPolicy \<Rightarrow> config\<lparr>preferred_algorithms := [MlKem MlKem768], hybrid_mode := True\<rparr>
            | ClassicalAllowed \<Rightarrow> config\<lparr>preferred_algorithms := [], hybrid_mode := False\<rparr>)
      in case validate config' of
           Some e \<Rightarrow> Inl (ConfigError (TlsConfigError_string e))
         | None \<Rightarrow> Inr config')"

definition classify_cipher_suite :: "string \<Rightarrow> bool" where
  "classify_cipher_suite cipher_suite \<longleftrightarrow>
     list_ex (has_infix cipher_suite) [''ML-KEM'', ''ML-DSA'', ''SLH-DSA'', ''KYBER'', ''DILITHIUM'']"

section \<open>What the policies give\<close>

text \<open>The KEM of a suite, as its documentation says.\<close>

fun suite_kem :: "PqcCipherSuite \<Rightarrow> MlKemVariant" where
  "suite_kem Aes256GcmX25519MlKem768 = MlKem768"
| "suite_kem Aes128GcmX25519MlKem512 = MlKem512"
| "suite_kem Aes256GcmMlKem1024 = MlKem1024"

lemma validate_None: "validate c = None \<longleftrightarrow> preferred_algorithms c \<noteq> [] \<and> (min_tls_version c = Tls12 \<longrightarrow> \<not> hybrid_mode c)"
  by (simp add: validate_def)

lemma validated_configs: "validate TlsConfig_default = None" "validate TlsConfig_development = None"
  by (simp_all add: validate_None TlsConfig_default_def TlsConfig_development_def)

text \<open>
  The policy \<open>ClassicalAllowed\<close> never gets a configuration: building one always fails, because its list of
  algorithms is empty. Every other policy gets a valid one, for TLS 1.3 only and with algorithms of
  security level 3 or more, the first of them ML-KEM-768; but the suites of the pure policy need
  ML-KEM-1024, which its list does not have, and those of the hybrid modes include ML-KEM-512 of level 1.
\<close>

theorem build_tls_config_outcome:
  "case build_tls_config policy of
     Inl e \<Rightarrow> policy = ClassicalAllowed \<and> e = ConfigError ''no preferred algorithms specified''
   | Inr c \<Rightarrow> policy \<noteq> ClassicalAllowed \<and> validate c = None \<and> min_tls_version c = Tls13 \<and>
       hd (preferred_algorithms c) = MlKem MlKem768 \<and> list_all (\<lambda>a. 3 \<le> security_level a) (preferred_algorithms c) \<and>
       hybrid_mode c = (policy \<noteq> PqcOnly) \<and>
       map suite_kem (cipher_suites c) = (if policy = PqcOnly then [MlKem1024] else [MlKem768, MlKem512])"
  by (cases policy) (auto simp: build_tls_config_def validate_def TlsConfig_development_def cipher_suites_def Let_def)

text \<open>The names of all algorithms are recognised as post-quantum, also inside a longer text; the usual TLS 1.3 suites are not.\<close>

lemma classify_infix: "classify_cipher_suite s \<Longrightarrow> classify_cipher_suite (u @ s @ v)"
  unfolding classify_cipher_suite_def list_ex_iff using has_infix_append by blast

lemma classify_algorithms: "classify_cipher_suite (u @ algorithm_name a @ v)"
proof (rule classify_infix, rule forall_algorithms)
  show "list_all (\<lambda>a. classify_cipher_suite (algorithm_name a)) all_algorithms"
    by (simp add: all_algorithms_def classify_cipher_suite_def starts_with_def)
qed

lemma classify_standard:
  "\<not> classify_cipher_suite ''TLS_AES_256_GCM_SHA384''" "\<not> classify_cipher_suite ''TLS_AES_128_GCM_SHA256''"
  "\<not> classify_cipher_suite ''unknown''"
  by (simp_all add: classify_cipher_suite_def starts_with_def)

end
