(* ===== verification/Data_Plane.thy ===== *)
theory Data_Plane
  imports Tls_Config Json
begin

text \<open>
  The HTTP side of the data plane, \<open>src/gateway/src\<close>: the gateway's configuration and router (\<open>lib.rs\<close>), the
  enforcement of the TLS policy (\<open>middleware/mod.rs\<close>) and the authentication by API keys
  (\<open>auth/mod.rs\<close>). Log lines and durations are left out; the framework axum is a parameter.
\<close>

section \<open>Requests and responses\<close>

text \<open>Names of headers are in lower case, as the package http keeps them; a name may occur several times.\<close>

record dp_request =
  dp_method :: string
  dp_path :: string
  dp_query :: "string option"
  dp_headers :: "(string \<times> string) list"
  dp_body :: string

record dp_response =
  dp_status :: nat
  dp_reply :: string

type_synonym service = "dp_request \<Rightarrow> dp_response"

definition header_get :: "(string \<times> string) list \<Rightarrow> string \<Rightarrow> string option" where
  "header_get hs name = map_of hs name"

text \<open>\<open>HeaderValue::to_str\<close>: only tabs and visible ASCII are a text.\<close>

definition to_str :: "string \<Rightarrow> string option" where
  "to_str v = (if list_all (\<lambda>c. c = CHR 0x09 \<or> 32 \<le> byte_val c \<and> byte_val c < 127) v then Some v else None)"

definition header_text :: "dp_request \<Rightarrow> string \<Rightarrow> string option" where
  "header_text req name = Option.bind (header_get (dp_headers req) name) to_str"

section \<open>Authentication\<close>

record ApiKey =
  key_id :: string
  key_name :: string
  key_scopes :: "string list"

record GwAuthConfig =
  require_auth :: bool
  api_keys :: "ApiKey list"
  bypass_paths :: "string list"

definition GwAuthConfig_default :: GwAuthConfig where
  "GwAuthConfig_default = \<lparr>require_auth = False, api_keys = [], bypass_paths = [''/health'', ''/gateway/stats'']\<rparr>"

definition auth_check :: "GwAuthConfig \<Rightarrow> service \<Rightarrow> service" where
  "auth_check config next req =
     (if \<not> require_auth config then next req
      else if list_ex (starts_with (dp_path req)) (bypass_paths config) then next req
      else case header_text req ''x-api-key'' of
          Some key \<Rightarrow>
            if list_ex (\<lambda>k. key_id k = key) (api_keys config) then next req
            else \<lparr>dp_status = 403, dp_reply = ''invalid API key''\<rparr>
        | None \<Rightarrow> \<lparr>dp_status = 401, dp_reply = ''API key required''\<rparr>)"

definition auth_middleware :: "service \<Rightarrow> service" where
  "auth_middleware next req = auth_check GwAuthConfig_default next req"

section \<open>Enforcement of the policy\<close>

definition pqc_enforcement_middleware :: "TlsPolicy \<Rightarrow> service \<Rightarrow> service" where
  "pqc_enforcement_middleware policy next req =
     (let cipher_suite = (case header_text req ''x-tls-cipher-suite'' of Some v \<Rightarrow> v | None \<Rightarrow> ''unknown'');
          is_pqc = classify_cipher_suite cipher_suite
      in if policy = PqcOnly \<and> \<not> is_pqc \<and> dp_path req \<noteq> ''/health''
         then \<lparr>dp_status = 403, dp_reply = ''PQC-only policy: classical cipher suites not allowed''\<rparr>
         else next req)"

definition rate_limit_middleware :: "service \<Rightarrow> service" where
  "rate_limit_middleware next req = next req"

section \<open>The router\<close>

record GatewayConfig =
  listen_addr :: "(nat \<times> nat \<times> nat \<times> nat) \<times> nat"
  gc_tls_policy :: TlsPolicy
  max_connections :: nat
  upstream_timeout_secs :: nat

definition GatewayConfig_default :: GatewayConfig where
  "GatewayConfig_default = \<lparr>listen_addr = ((0, 0, 0, 0), 8443), gc_tls_policy = PqcPreferred, max_connections = 10000,
     upstream_timeout_secs = 30\<rparr>"

text \<open>The \<open>Debug\<close> form of a policy, and JSON answers; \<open>serde_json\<close> writes the keys of an object in order.\<close>

fun policy_debug :: "TlsPolicy \<Rightarrow> string" where
  "policy_debug PqcOnly = ''PqcOnly''"
| "policy_debug PqcPreferred = ''PqcPreferred''"
| "policy_debug HybridPolicy = ''Hybrid''"
| "policy_debug ClassicalAllowed = ''ClassicalAllowed''"

definition health_check :: service where
  "health_check req = \<lparr>dp_status = 200,
     dp_reply = json_encode (JObj [(''service'', JStr ''qsgw-gateway''), (''status'', JStr ''ok'')])\<rparr>"

definition stats :: "TlsPolicy \<Rightarrow> service" where
  "stats policy req = \<lparr>dp_status = 200,
     dp_reply = json_encode (JObj [(''active_connections'', json_int 0), (''classical_sessions'', json_int 0),
       (''pqc_sessions'', json_int 0), (''tls_policy'', JStr (policy_debug policy))])\<rparr>"

text \<open>axum serves a table of GET routes behind a layer.\<close>

type_synonym axum = "(string \<times> service) list \<Rightarrow> (service \<Rightarrow> service) \<Rightarrow> service"

definition build_router :: "axum \<Rightarrow> GatewayConfig \<Rightarrow> service" where
  "build_router ax config =
     ax [(''/health'', health_check), (''/gateway/stats'', stats (gc_tls_policy config))]
       (pqc_enforcement_middleware (gc_tls_policy config))"

section \<open>Who is let in\<close>

text \<open>
  A request claims a post-quantum session when its first \<open>x-tls-cipher-suite\<close> header is of tabs and visible
  ASCII and has one of five names in it.
\<close>

definition claims_pqc :: "dp_request \<Rightarrow> bool" where
  "claims_pqc req \<longleftrightarrow>
     (\<exists>v u n rest. header_get (dp_headers req) ''x-tls-cipher-suite'' = Some v \<and>
        list_all (\<lambda>c. c = CHR 0x09 \<or> 32 \<le> byte_val c \<and> byte_val c < 127) v \<and>
        n \<in> {''ML-KEM'', ''ML-DSA'', ''SLH-DSA'', ''KYBER'', ''DILITHIUM''} \<and> v = u @ n @ rest)"

lemma claims_pqc_classify:
  "claims_pqc req \<longleftrightarrow> (\<exists>v. header_text req ''x-tls-cipher-suite'' = Some v \<and> classify_cipher_suite v)"
proof -
  define S where "S = {''ML-KEM'', ''ML-DSA'', ''SLH-DSA'', ''KYBER'', ''DILITHIUM''}"
  have "classify_cipher_suite v \<longleftrightarrow> (\<exists>n \<in> S. has_infix v n)" for v
    by (simp add: classify_cipher_suite_def S_def)
  then have "classify_cipher_suite v \<longleftrightarrow> (\<exists>u n rest. n \<in> S \<and> v = u @ n @ rest)" for v
    unfolding has_infix_iff by blast
  then show ?thesis
    unfolding claims_pqc_def S_def [symmetric] header_text_def to_str_def bind_eq_Some_conv by auto
qed

lemma enforcement:
  "pqc_enforcement_middleware policy next req =
     (if policy \<noteq> PqcOnly \<or> claims_pqc req \<or> dp_path req = ''/health'' then next req
      else \<lparr>dp_status = 403, dp_reply = ''PQC-only policy: classical cipher suites not allowed''\<rparr>)"
  using classify_standard(3) by (auto simp: pqc_enforcement_middleware_def claims_pqc_classify split: option.splits)

text \<open>A header with the name of any of the platform's algorithms in it is such a claim.\<close>

lemma algorithm_claims_pqc:
  assumes "header_get (dp_headers req) ''x-tls-cipher-suite'' = Some (u @ algorithm_name a @ v)"
    and "list_all (\<lambda>c. c = CHR 0x09 \<or> 32 \<le> byte_val c \<and> byte_val c < 127) (u @ algorithm_name a @ v)"
  shows "claims_pqc req"
  using assms classify_algorithms [of u a v] unfolding claims_pqc_classify by (simp add: header_text_def to_str_def)

text \<open>
  The contract of axum: every request passes the layer, whatever it finds behind it; for a GET request for the
  path of a route that is the service of the route.
\<close>

definition axum_serves :: "axum \<Rightarrow> bool" where
  "axum_serves ax \<longleftrightarrow> (\<forall>routes layer req. \<exists>h. ax routes layer req = layer h req \<and>
     (\<forall>f. distinct (map fst routes) \<longrightarrow> dp_method req = ''GET'' \<longrightarrow> (dp_path req, f) \<in> set routes \<longrightarrow> h = f))"

definition simple_axum :: axum where
  "simple_axum routes layer req =
     (case map_of routes (dp_path req) of
        Some h \<Rightarrow> if dp_method req = ''GET'' then layer h req else layer (\<lambda>_. \<lparr>dp_status = 405, dp_reply = []\<rparr>) req
      | None \<Rightarrow> layer (\<lambda>_. \<lparr>dp_status = 404, dp_reply = []\<rparr>) req)"

lemma simple_axum_serves: "axum_serves simple_axum"
  by (auto simp: axum_serves_def simple_axum_def split: option.splits)

text \<open>
  C19. Under the pure post-quantum policy the gateway refuses with 403 every request for another path than
  \<open>/health\<close>, of whatever method, unless the first of its cipher suite headers is readable text with ML-KEM, ML-DSA,
  SLH-DSA, KYBER or DILITHIUM in it; a header with the name of any of the platform's algorithms passes. It
  answers a health check under every policy and whatever the headers, and a request for the statistics that is
  not refused with the policy and three zeros.
\<close>

theorem gateway_router_answers:
  assumes "axum_serves ax"
  shows "(gc_tls_policy config = PqcOnly \<and> \<not> claims_pqc req \<and> dp_path req \<noteq> ''/health'' \<longrightarrow> build_router ax config req =
       \<lparr>dp_status = 403, dp_reply = ''PQC-only policy: classical cipher suites not allowed''\<rparr>) \<and>
    (dp_method req = ''GET'' \<and> dp_path req = ''/health'' \<longrightarrow> build_router ax config req =
       \<lparr>dp_status = 200, dp_reply = json_encode (JObj [(''service'', JStr ''qsgw-gateway''), (''status'', JStr ''ok'')])\<rparr>) \<and>
    (dp_method req = ''GET'' \<and> dp_path req = ''/gateway/stats'' \<and> (gc_tls_policy config \<noteq> PqcOnly \<or> claims_pqc req) \<longrightarrow>
       build_router ax config req = stats (gc_tls_policy config) req) \<and>
    (header_get (dp_headers req) ''x-tls-cipher-suite'' = Some (u @ algorithm_name a @ v) \<and>
       list_all (\<lambda>c. c = CHR 0x09 \<or> 32 \<le> byte_val c \<and> byte_val c < 127) (u @ algorithm_name a @ v) \<longrightarrow> claims_pqc req)"
proof -
  let ?routes = "[(''/health'', health_check), (''/gateway/stats'', stats (gc_tls_policy config))]"
  obtain h where h: "build_router ax config req = pqc_enforcement_middleware (gc_tls_policy config) h req"
      "\<And>f. dp_method req = ''GET'' \<Longrightarrow> (dp_path req, f) \<in> set ?routes \<Longrightarrow> h = f"
    using assms [unfolded axum_serves_def, rule_format, of ?routes "pqc_enforcement_middleware (gc_tls_policy config)" req]
    unfolding build_router_def by auto
  show ?thesis
    using h(2) [of health_check] h(2) [of "stats (gc_tls_policy config)"] algorithm_claims_pqc [of req u a v]
    by (auto simp: h(1) enforcement health_check_def)
qed

definition demo_dp :: dp_request where
  "demo_dp = \<lparr>dp_method = ''GET'', dp_path = ''/gateway/stats'', dp_query = None,
     dp_headers = [(''x-tls-cipher-suite'', ''TLS_AES_256_GCM_SHA384'')], dp_body = []\<rparr>"

theorem gateway_router_answers_witness:
  "dp_status (build_router simple_axum (GatewayConfig_default\<lparr>gc_tls_policy := PqcOnly\<rparr>) demo_dp) = 403"
proof -
  have "\<not> claims_pqc demo_dp"
    unfolding claims_pqc_classify
    by (auto simp: demo_dp_def header_text_def header_get_def to_str_def classify_standard bind_eq_Some_conv split: if_splits)
  then show ?thesis
    using gateway_router_answers [OF simple_axum_serves, of "GatewayConfig_default\<lparr>gc_tls_policy := PqcOnly\<rparr>" demo_dp "[]" "MlKem MlKem768" "[]"]
    by (simp add: demo_dp_def)
qed

text \<open>
  The authentication asks for the identifier of a configured key, except on paths that begin with a bypass
  path. The middleware itself always uses the default configuration, which asks for nothing.
\<close>

lemma auth_check_spec:
  "auth_check config next req =
     (if \<not> require_auth config \<or> (\<exists>p \<in> set (bypass_paths config). starts_with (dp_path req) p) \<or>
         (\<exists>k \<in> set (api_keys config). header_text req ''x-api-key'' = Some (key_id k))
      then next req
      else \<lparr>dp_status = (if header_text req ''x-api-key'' = None then 401 else 403),
        dp_reply = (if header_text req ''x-api-key'' = None then ''API key required'' else ''invalid API key'')\<rparr>)"
  by (auto simp: auth_check_def list_ex_iff split: option.splits)

theorem auth_middleware_lets_all_in: "auth_middleware next req = next req"
  by (simp add: auth_middleware_def auth_check_def GwAuthConfig_default_def)

end
