(* ===== verification/Proxy.thy ===== *)
theory Proxy
  imports Data_Plane "HOL-Library.Word"
begin

text \<open>
  The reverse proxy of the data plane, \<open>src/gateway/src/proxy/mod.rs\<close>: the choice of a route, the address a
  request is sent to, and what is sent. The parser of URIs (package http) and the HTTP client (package
  hyper) are parameters.
\<close>

section \<open>Routes\<close>

datatype ProxyError = ConnectionFailed string | Timeout | NoHealthyUpstream | RequestError string

record ProxyUpstream =
  pu_name :: string
  pu_host :: string
  pu_port :: "16 word"
  pu_is_healthy :: bool
  pu_tls_verify :: bool

record ProxyRoute =
  pr_path_prefix :: string
  pr_upstream :: ProxyUpstream
  pr_strip_prefix :: bool
  pr_priority :: int

record ProxyService =
  ps_routes :: "ProxyRoute list"
  ps_timeout :: nat

definition ProxyService_new :: "ProxyRoute list \<Rightarrow> nat \<Rightarrow> ProxyService" where
  "ProxyService_new routes timeout_secs = \<lparr>ps_routes = routes, ps_timeout = timeout_secs\<rparr>"

text \<open>\<open>Iterator::max_by_key\<close> returns the last of several greatest elements.\<close>

fun max_by_key :: "('a \<Rightarrow> int) \<Rightarrow> 'a list \<Rightarrow> 'a option" where
  "max_by_key k [] = None"
| "max_by_key k (x # xs) =
     (case max_by_key k xs of None \<Rightarrow> Some x | Some y \<Rightarrow> Some (if k x \<le> k y then y else x))"

definition find_route :: "ProxyService \<Rightarrow> string \<Rightarrow> ProxyRoute option" where
  "find_route svc path =
     max_by_key pr_priority
       (filter (\<lambda>r. starts_with path (pr_path_prefix r) \<and> pu_is_healthy (pr_upstream r)) (ps_routes svc))"

section \<open>Forwarding\<close>

record uri =
  uri_host :: string
  uri_port :: string
  uri_path :: string
  uri_query :: "string option"

definition build_upstream_uri :: "(string \<Rightarrow> string + uri) \<Rightarrow> ProxyRoute \<Rightarrow> dp_request \<Rightarrow> ProxyError + uri" where
  "build_upstream_uri parse route original =
     (let path = (if pr_strip_prefix route
                  then (case strip_prefix (dp_path original) (pr_path_prefix route) of
                          Some p \<Rightarrow> p | None \<Rightarrow> dp_path original)
                  else dp_path original);
          uri_string = ''http://'' @ pu_host (pr_upstream route) @ '':'' @ show_nat (unat (pu_port (pr_upstream route))) @ path
      in case parse uri_string of Inl e \<Rightarrow> Inl (RequestError e) | Inr u \<Rightarrow> Inr u)"







section \<open>The choice of a route\<close>

lemma max_by_key_None: "max_by_key k xs = None \<longleftrightarrow> xs = []"
  by (cases xs) (auto split: option.splits)

lemma max_by_key_greatest:
  "max_by_key k xs = Some m \<Longrightarrow> \<exists>us vs. xs = us @ m # vs \<and> list_all (\<lambda>u. k u \<le> k m) us \<and> list_all (\<lambda>v. k v < k m) vs"
proof (induction xs arbitrary: m)
  case (Cons x xs)
  show ?case
  proof (cases "max_by_key k xs")
    case None
    then show ?thesis using Cons.prems by (auto simp: max_by_key_None intro!: exI [of _ "[]"])
  next
    case (Some y)
    then obtain us vs where y: "xs = us @ y # vs" "list_all (\<lambda>u. k u \<le> k y) us" "list_all (\<lambda>v. k v < k y) vs"
      using Cons.IH by blast
    show ?thesis
    proof (cases "k x \<le> k y")
      case True
      then have "m = y" using Cons.prems Some by simp
      then show ?thesis using y True by (intro exI [of _ "x # us"] exI [of _ vs]) simp
    next
      case False
      then have "m = x" "list_all (\<lambda>v. k v < k x) xs" using Cons.prems Some y by (auto simp: list_all_iff)
      then show ?thesis by (intro exI [of _ "[]"] exI [of _ xs]) simp
    qed
  qed
qed simp

lemma max_by_key_split:
  "list_all (\<lambda>u. k u \<le> k m) us \<Longrightarrow> list_all (\<lambda>v. k v < k m) vs \<Longrightarrow> max_by_key k (us @ m # vs) = Some m"
proof (induction us)
  case Nil
  have "k y < k m" if "max_by_key k vs = Some y" for y
    using max_by_key_greatest [OF that] Nil by auto
  then show ?case by (fastforce split: option.splits)
qed simp

lemma max_by_key_iff:
  "max_by_key k xs = Some m \<longleftrightarrow> (\<exists>us vs. xs = us @ m # vs \<and> list_all (\<lambda>u. k u \<le> k m) us \<and> list_all (\<lambda>v. k v < k m) vs)"
  (is "?l \<longleftrightarrow> ?r")
proof
  show "?l \<Longrightarrow> ?r" by (rule max_by_key_greatest)
  show "?r \<Longrightarrow> ?l" using max_by_key_split [of k m] by blast
qed

text \<open>
  C14. The route for a path is determined: among the routes with a healthy upstream whose prefix the path begins
  with, it is the one of the highest priority, and of several the last one in the table. There is
  none exactly when there is no such route. The length of the prefix plays no part.
\<close>

theorem find_route_iff:
  "let cs = filter (\<lambda>r. starts_with path (pr_path_prefix r) \<and> pu_is_healthy (pr_upstream r)) (ps_routes svc) in
     (find_route svc path = None \<longleftrightarrow> cs = []) \<and>
     (find_route svc path = Some r \<longleftrightarrow> (\<exists>us vs. cs = us @ r # vs \<and>
        list_all (\<lambda>u. pr_priority u \<le> pr_priority r) us \<and> list_all (\<lambda>v. pr_priority v < pr_priority r) vs))"
  by (simp add: find_route_def max_by_key_None max_by_key_iff)

text \<open>A short prefix of higher priority wins over a longer one.\<close>

definition demo_pu :: "string \<Rightarrow> 16 word \<Rightarrow> ProxyUpstream" where
  "demo_pu name port = \<lparr>pu_name = name, pu_host = ''10.0.0.7'', pu_port = port, pu_is_healthy = True, pu_tls_verify = True\<rparr>"

definition demo_pr :: "string \<Rightarrow> int \<Rightarrow> ProxyRoute" where
  "demo_pr prefix prio = \<lparr>pr_path_prefix = prefix, pr_upstream = demo_pu ''users'' 80, pr_strip_prefix = True, pr_priority = prio\<rparr>"

theorem longest_prefix_ignored:
  "find_route (ProxyService_new [demo_pr ''/api'' 10, demo_pr ''/api/users'' 0] 30) ''/api/users/7'' = Some (demo_pr ''/api'' 10)"
  by (simp add: find_route_def ProxyService_new_def demo_pr_def demo_pu_def starts_with_def)

section \<open>Where a request goes\<close>

text \<open>
  What is relied on of the parser: it refuses texts of more than 65534 bytes; a shorter URI of a host name, a port
  in range and a plain path is taken apart as RFC 3986 says, and an empty path is the root.
\<close>

definition host_chars :: string where
  "host_chars = ''abcdefghijklmnopqrstuvwxyzABCDEFGHIJKLMNOPQRSTUVWXYZ0123456789-.''"

definition host_text :: "string \<Rightarrow> bool" where
  "host_text h \<longleftrightarrow> h \<noteq> [] \<and> list_all (\<lambda>c. c \<in> set host_chars) h"

definition path_text :: "string \<Rightarrow> bool" where
  "path_text p \<longleftrightarrow> (p = [] \<or> hd p = CHR ''/'') \<and>
     list_all (\<lambda>c. c \<in> set (host_chars @ ''_~%/'')) p"

definition port_number :: "string \<Rightarrow> nat" where
  "port_number ds = foldl (\<lambda>n c. 10 * n + digit_val c) 0 ds"

definition max_uri :: nat where
  "max_uri = 65534"

definition parses_uris :: "(string \<Rightarrow> string + uri) \<Rightarrow> bool" where
  "parses_uris parse \<longleftrightarrow> (\<forall>s. max_uri < length s \<longrightarrow> (\<exists>e. parse s = Inl e)) \<and>
     (\<forall>h ds p. host_text h \<longrightarrow> ds \<noteq> [] \<longrightarrow> list_all is_digit ds \<longrightarrow> port_number ds < 65536 \<longrightarrow> path_text p \<longrightarrow>
       length (''http://'' @ h @ '':'' @ ds @ p) \<le> max_uri \<longrightarrow>
     parse (''http://'' @ h @ '':'' @ ds @ p) =
       Inr \<lparr>uri_host = h, uri_port = ds, uri_path = (if p = [] then ''/'' else p), uri_query = None\<rparr>)"

definition simple_parse :: "string \<Rightarrow> string + uri" where
  "simple_parse s =
     (if max_uri < length s then Inl ''uri too long''
      else case strip_prefix s ''http://'' of
        None \<Rightarrow> Inl ''invalid format''
      | Some t \<Rightarrow>
          let h = takeWhile (\<lambda>c. c \<noteq> CHR '':'') t; u = drop (Suc (length h)) t; ds = takeWhile is_digit u; p = drop (length ds) u in
          if ds = [] \<or> p \<noteq> [] \<and> hd p \<noteq> CHR ''/'' then Inl ''invalid port''
          else Inr \<lparr>uri_host = h, uri_port = ds, uri_path = (if p = [] then ''/'' else p), uri_query = None\<rparr>)"

lemma takeWhile_stop: "list_all P xs \<Longrightarrow> ys = [] \<or> \<not> P (hd ys) \<Longrightarrow> takeWhile P (xs @ ys) = xs"
  by (induction xs) (auto simp: takeWhile_eq_Nil_iff)

lemma simple_parse_parses: "parses_uris simple_parse"
proof -
  have "simple_parse (''http://'' @ h @ '':'' @ ds @ p) =
      Inr \<lparr>uri_host = h, uri_port = ds, uri_path = (if p = [] then ''/'' else p), uri_query = None\<rparr>"
    if "host_text h" "ds \<noteq> []" "list_all is_digit ds" "path_text p" "length (''http://'' @ h @ '':'' @ ds @ p) \<le> max_uri" for h ds p
  proof -
    have "CHR '':'' \<notin> set host_chars" by (simp add: host_chars_def)
    then have "list_all (\<lambda>c. c \<noteq> CHR '':'') h" using that(1) by (auto simp: host_text_def list_all_iff)
    then have h: "takeWhile (\<lambda>c. c \<noteq> CHR '':'') (h @ CHR '':'' # ds @ p) = h" by (rule takeWhile_stop) simp
    have p: "p = [] \<or> hd p = CHR ''/''" using that(4) by (simp add: path_text_def)
    then have ds: "takeWhile is_digit (ds @ p) = ds" by (intro takeWhile_stop that(3)) (auto simp: is_digit_def)
    have "strip_prefix (''http://'' @ h @ '':'' @ ds @ p) ''http://'' = Some (h @ CHR '':'' # ds @ p)"
      by (simp add: strip_prefix_Some)
    then show ?thesis unfolding simple_parse_def using h ds p that(2,5) by (auto simp: Let_def)
  qed
  moreover have "\<exists>e. simple_parse s = Inl e" if "max_uri < length s" for s using that by (simp add: simple_parse_def)
  ultimately show ?thesis by (simp add: parses_uris_def)
qed

lemma port_number_append: "port_number (ds @ [c]) = 10 * port_number ds + digit_val c"
  by (simp add: port_number_def)

lemma port_number_show: "port_number (show_nat n) = n"
proof (induction n rule: show_nat.induct)
  case (1 n)
  then show ?case
    by (cases "n < 10") (simp_all add: show_nat.simps [of n] port_number_append, simp add: port_number_def)
qed

lemma port_number_longer: "port_number ds \<le> port_number (ds @ es)"
proof (induction es rule: rev_induct)
  case (snoc e es)
  then show ?case using port_number_append [of "ds @ es" e] by simp
qed simp

lemma port_number_more:
  assumes "port_number ds \<noteq> 0" "es \<noteq> []"
  shows "port_number ds < port_number (ds @ es)"
proof -
  obtain c cs where es: "es = c # cs" using assms(2) by (cases es) auto
  have "port_number ds < port_number (ds @ [c])" using assms(1) by (simp add: port_number_append)
  also have "\<dots> \<le> port_number ((ds @ [c]) @ cs)" by (rule port_number_longer)
  finally show ?thesis by (simp add: es)
qed

text \<open>The address of a route, with digits that may follow the port and the rest of the path.\<close>

lemma route_target:
  assumes "parses_uris parse" "host_text (pu_host (pr_upstream route))" "list_all is_digit ds" "path_text rest"
    and "port_number (show_nat (unat (pu_port (pr_upstream route))) @ ds) < 65536"
    and "dp_path req = (if pr_strip_prefix route then pr_path_prefix route else []) @ ds @ rest"
  defines "port \<equiv> show_nat (unat (pu_port (pr_upstream route))) @ ds"
  shows "if 8 + length (pu_host (pr_upstream route)) + length port + length rest \<le> max_uri
    then build_upstream_uri parse route req = Inr \<lparr>uri_host = pu_host (pr_upstream route), uri_port = port,
      uri_path = (if rest = [] then ''/'' else rest), uri_query = None\<rparr>
    else \<exists>e. build_upstream_uri parse route req = Inl (RequestError e)"
proof -
  let ?h = "pu_host (pr_upstream route)"
  let ?s = "''http://'' @ ?h @ '':'' @ port @ rest"
  have digits: "list_all is_digit port" "port \<noteq> []" "port_number port < 65536"
    using assms(3,5) show_nat_digits show_nat_nonempty by (auto simp: port_def list_all_iff)
  have len: "length ?s = 8 + length ?h + length port + length rest" by simp
  have "build_upstream_uri parse route req = (case parse ?s of Inl e \<Rightarrow> Inl (RequestError e) | Inr u \<Rightarrow> Inr u)"
    using assms(6) strip_prefix_Some [of "dp_path req" "pr_path_prefix route" "ds @ rest"]
    by (auto simp: build_upstream_uri_def Let_def port_def)
  moreover have "parse ?s = Inr \<lparr>uri_host = ?h, uri_port = port, uri_path = (if rest = [] then ''/'' else rest), uri_query = None\<rparr>"
    if "length ?s \<le> max_uri"
    using assms(1,2,4) digits that unfolding parses_uris_def by blast
  moreover have "\<exists>e. parse ?s = Inl e" if "max_uri < length ?s" using assms(1) that unfolding parses_uris_def by blast
  ultimately show ?thesis unfolding len by (auto simp: not_le)
qed

text \<open>
  C25. Stripping a prefix can move a request to another port. When what follows the prefix is empty or begins
  with a slash, the request goes to the upstream's host and port with that rest as its path. But
  prefixes are compared as texts: when digits follow the prefix directly, they are appended
  to the port, so the client chooses the port of the upstream's host that its request is sent to. An address of
  more than 65534 bytes is an error.
\<close>

theorem stripped_target:
  assumes "parses_uris parse" "host_text (pu_host (pr_upstream route))" "pu_port (pr_upstream route) \<noteq> 0"
    and "pr_strip_prefix route" "dp_path req = pr_path_prefix route @ ds @ rest" "list_all is_digit ds" "path_text rest"
    and "port_number (show_nat (unat (pu_port (pr_upstream route))) @ ds) < 65536"
  shows "if 8 + length (pu_host (pr_upstream route)) + length (show_nat (unat (pu_port (pr_upstream route))) @ ds) + length rest \<le> 65534
    then \<exists>u. build_upstream_uri parse route req = Inr u \<and> uri_host u = pu_host (pr_upstream route) \<and>
      uri_port u = show_nat (unat (pu_port (pr_upstream route))) @ ds \<and>
      uri_path u = (if rest = [] then ''/'' else rest) \<and> uri_query u = None \<and>
      (port_number (uri_port u) = unat (pu_port (pr_upstream route)) \<longleftrightarrow> ds = [])
    else \<exists>e. build_upstream_uri parse route req = Inl (RequestError e)"
proof -
  let ?port = "show_nat (unat (pu_port (pr_upstream route)))"
  have "port_number (?port @ ds) = unat (pu_port (pr_upstream route)) \<longleftrightarrow> ds = []"
    using port_number_more [of ?port ds] assms(3) by (cases "ds = []") (auto simp: port_number_show unat_eq_0)
  moreover have "dp_path req = (if pr_strip_prefix route then pr_path_prefix route else []) @ ds @ rest"
    using assms(4,5) by simp
  from route_target [OF assms(1,2,6-8) this]
  have "if 8 + length (pu_host (pr_upstream route)) + length (?port @ ds) + length rest \<le> 65534
    then build_upstream_uri parse route req = Inr \<lparr>uri_host = pu_host (pr_upstream route), uri_port = ?port @ ds,
      uri_path = (if rest = [] then ''/'' else rest), uri_query = None\<rparr>
    else \<exists>e. build_upstream_uri parse route req = Inl (RequestError e)" unfolding max_uri_def .
  ultimately show ?thesis by (simp split: if_splits)
qed

definition demo_forwarded :: "string \<Rightarrow> dp_request" where
  "demo_forwarded path = \<lparr>dp_method = ''GET'', dp_path = path, dp_query = Some ''page=2'',
     dp_headers = [(''host'', ''api.example''), (''accept'', ''*/*''), (''connection'', ''close'')], dp_body = []\<rparr>"

theorem stripped_target_witness:
  "\<exists>u. build_upstream_uri simple_parse (demo_pr ''/api'' 10) (demo_forwarded ''/api80/admin'') = Inr u \<and>
     uri_host u = ''10.0.0.7'' \<and> uri_port u = ''8080'' \<and> uri_path u = ''/admin''"
proof -
  have port: "show_nat 80 = ''80''" by code_simp
  have "host_text ''10.0.0.7''" "path_text ''/admin''" by (simp_all add: host_text_def path_text_def host_chars_def)
  then show ?thesis
    using stripped_target [OF simple_parse_parses, of "demo_pr ''/api'' 10" "demo_forwarded ''/api80/admin''" "''80''" "''/admin''"]
    by (auto simp: demo_pr_def demo_pu_def demo_forwarded_def port is_digit_def port_number_def digit_val_def)
qed

section \<open>What is sent\<close>





end
