(* ===== verification/Crypto.thy ===== *)
theory Crypto
  imports Algorithms Sha256
begin

text \<open>
  The cryptography crate, \<open>src/crypto/src\<close>: key pairs of ML-KEM, ML-DSA and SLH-DSA and the hybrid of X25519 and
  ML-KEM-768. The algorithms themselves are other crates; they are the fields of a record, and what FIPS 203,
  204 and 205 and RFC 7748 promise of them are hypotheses. Zeroing of memory and log lines are left out.
\<close>

section \<open>Errors\<close>

datatype CryptoError = KeyGeneration string string | Encapsulation string | Decapsulation string | Signing string
  | Verification string | InvalidKeyMaterial string | UnsupportedAlgorithm string | Serialization string | Rng string

fun error_code :: "CryptoError \<Rightarrow> ErrorCode" where
  "error_code (KeyGeneration _ _) = KeyGenerationFailed"
| "error_code (Encapsulation _) = EncapsulationFailed"
| "error_code (Decapsulation _) = DecapsulationFailed"
| "error_code (Signing _) = SigningFailed"
| "error_code (Verification _) = VerificationFailed"
| "error_code (InvalidKeyMaterial _) = ErrorCode.InvalidKeyMaterial"
| "error_code (UnsupportedAlgorithm _) = ErrorCode.UnsupportedAlgorithm"
| "error_code (Serialization _) = Internal"
| "error_code (Rng _) = Internal"

definition with_size :: "string \<Rightarrow> string \<Rightarrow> string \<Rightarrow> string" where
  "with_size msg bytes rest = msg @ '' ('' @ rest @ show_nat (length bytes) @ '' bytes)''"

section \<open>The crates behind\<close>

text \<open>
  \<open>'e\<close> is the state of the operating system's source of entropy; \<open>None\<close> is the panic when it is not available.
  Keys, ciphertexts and signatures are bytes; a \<open>valid\<close> field says whether bytes can be read as such.
\<close>

record 'e crates =
  getrandom :: "nat \<Rightarrow> 'e \<Rightarrow> (string \<times> 'e) option"
  x_public :: "string \<Rightarrow> string"
  x_diffie_hellman :: "string \<Rightarrow> string \<Rightarrow> string"
  kem_generate :: "MlKemVariant \<Rightarrow> 'e \<Rightarrow> ((string \<times> string) \<times> 'e) option"
  kem_ek_valid :: "MlKemVariant \<Rightarrow> string \<Rightarrow> bool"
  kem_dk_valid :: "MlKemVariant \<Rightarrow> string \<Rightarrow> bool"
  kem_encapsulate :: "MlKemVariant \<Rightarrow> string \<Rightarrow> 'e \<Rightarrow> ((string \<times> string) \<times> 'e) option"
  kem_decapsulate :: "MlKemVariant \<Rightarrow> string \<Rightarrow> string \<Rightarrow> string option"
  dsa_verifying_key :: "MlDsaVariant \<Rightarrow> string \<Rightarrow> string"
  dsa_key_size :: "MlDsaVariant \<Rightarrow> nat"
  dsa_sign :: "MlDsaVariant \<Rightarrow> string \<Rightarrow> string \<Rightarrow> string"
  dsa_sig_valid :: "MlDsaVariant \<Rightarrow> string \<Rightarrow> bool"
  dsa_verify :: "MlDsaVariant \<Rightarrow> string \<Rightarrow> string \<Rightarrow> string \<Rightarrow> bool"
  slh_generate :: "SlhDsaVariant \<Rightarrow> 'e \<Rightarrow> ((string \<times> string) \<times> 'e) option"
  slh_sk_valid :: "SlhDsaVariant \<Rightarrow> string \<Rightarrow> bool"
  slh_vk_valid :: "SlhDsaVariant \<Rightarrow> string \<Rightarrow> bool"
  slh_sig_valid :: "SlhDsaVariant \<Rightarrow> string \<Rightarrow> bool"
  slh_sign :: "SlhDsaVariant \<Rightarrow> string \<Rightarrow> string \<Rightarrow> 'e \<Rightarrow> ((string + string) \<times> 'e) option"
  slh_verify :: "SlhDsaVariant \<Rightarrow> string \<Rightarrow> string \<Rightarrow> string \<Rightarrow> bool"

section \<open>ML-KEM\<close>

record MlKemKeyPair =
  mk_variant :: MlKemVariant
  mk_public_key :: string
  mk_secret_key :: string

record MlKemEncapsulated =
  me_ciphertext :: string
  me_shared_secret :: string

definition MlKem_generate :: "'e crates \<Rightarrow> MlKemVariant \<Rightarrow> 'e \<Rightarrow> ((CryptoError + MlKemKeyPair) \<times> 'e) option" where
  "MlKem_generate cr v e =
     (case kem_generate cr v e of
        None \<Rightarrow> None
      | Some ((dk, ek), e') \<Rightarrow> Some (Inr \<lparr>mk_variant = v, mk_public_key = ek, mk_secret_key = dk\<rparr>, e'))"

text \<open>The generator of the caller is not used.\<close>

definition MlKem_generate_with_rng :: "'e crates \<Rightarrow> MlKemVariant \<Rightarrow> 'r \<Rightarrow> 'e \<Rightarrow> ((CryptoError + MlKemKeyPair) \<times> 'e) option" where
  "MlKem_generate_with_rng cr v rng e = MlKem_generate cr v e"

definition MlKem_encapsulate :: "'e crates \<Rightarrow> MlKemKeyPair \<Rightarrow> 'e \<Rightarrow> ((CryptoError + MlKemEncapsulated) \<times> 'e) option" where
  "MlKem_encapsulate cr kp e =
     (if \<not> kem_ek_valid cr (mk_variant kp) (mk_public_key kp)
      then Some (Inl (Encapsulation (with_size (''invalid '' @ mlkem_name (mk_variant kp) @ '' encapsulation key'') (mk_public_key kp) [])), e)
      else case kem_encapsulate cr (mk_variant kp) (mk_public_key kp) e of
             None \<Rightarrow> None
           | Some ((ct, ss), e') \<Rightarrow> Some (Inr \<lparr>me_ciphertext = ct, me_shared_secret = ss\<rparr>, e'))"

definition MlKem_decapsulate :: "'e crates \<Rightarrow> MlKemKeyPair \<Rightarrow> string \<Rightarrow> CryptoError + string" where
  "MlKem_decapsulate cr kp ciphertext =
     (if \<not> kem_dk_valid cr (mk_variant kp) (mk_secret_key kp)
      then Inl (Decapsulation (with_size (''invalid '' @ mlkem_name (mk_variant kp) @ '' decapsulation key'') (mk_secret_key kp) []))
      else case kem_decapsulate cr (mk_variant kp) (mk_secret_key kp) ciphertext of
             None \<Rightarrow> Inl (Decapsulation (with_size (mlkem_name (mk_variant kp) @ '' decapsulation failed'') ciphertext ''ct ''))
           | Some ss \<Rightarrow> Inr ss)"

section \<open>The hybrid KEM\<close>

record HybridKemKeyPair =
  hk_variant :: HybridVariant
  hk_classical_public :: string
  hk_classical_secret :: "string option"
  hk_pqc_keypair :: MlKemKeyPair

record HybridEncapsulated =
  he_classical_public :: string
  he_pqc_ciphertext :: string
  he_shared_secret :: string

definition combine_secrets :: "string \<Rightarrow> string \<Rightarrow> string" where
  "combine_secrets classical pqc = sha256 (''quantun-hybrid-kem-v1'' @ classical @ pqc)"

definition Hybrid_generate :: "'e crates \<Rightarrow> 'e \<Rightarrow> ((CryptoError + HybridKemKeyPair) \<times> 'e) option" where
  "Hybrid_generate cr e =
     (case getrandom cr 32 e of
        None \<Rightarrow> None
      | Some (key_bytes, e1) \<Rightarrow>
          (case MlKem_generate cr MlKem768 e1 of
             None \<Rightarrow> None
           | Some (Inl err, e2) \<Rightarrow> Some (Inl err, e2)
           | Some (Inr pqc_keypair, e2) \<Rightarrow>
               Some (Inr \<lparr>hk_variant = X25519MlKem768, hk_classical_public = x_public cr key_bytes,
                          hk_classical_secret = Some key_bytes, hk_pqc_keypair = pqc_keypair\<rparr>, e2)))"

definition Hybrid_encapsulate :: "'e crates \<Rightarrow> HybridKemKeyPair \<Rightarrow> 'e \<Rightarrow> ((CryptoError + HybridEncapsulated) \<times> 'e) option" where
  "Hybrid_encapsulate cr kp e =
     (case getrandom cr 32 e of
        None \<Rightarrow> None
      | Some (ephemeral, e1) \<Rightarrow>
          if length (hk_classical_public kp) \<noteq> 32
          then Some (Inl (InvalidKeyMaterial ''X25519 public key must be 32 bytes''), e1)
          else
            let classical_shared = x_diffie_hellman cr ephemeral (hk_classical_public kp) in
            (case MlKem_encapsulate cr (hk_pqc_keypair kp) e1 of
               None \<Rightarrow> None
             | Some (Inl err, e2) \<Rightarrow> Some (Inl err, e2)
             | Some (Inr pqc_enc, e2) \<Rightarrow>
                 Some (Inr \<lparr>he_classical_public = x_public cr ephemeral, he_pqc_ciphertext = me_ciphertext pqc_enc,
                            he_shared_secret = combine_secrets classical_shared (me_shared_secret pqc_enc)\<rparr>, e2)))"

definition Hybrid_decapsulate :: "'e crates \<Rightarrow> HybridKemKeyPair \<Rightarrow> string \<Rightarrow> string \<Rightarrow> CryptoError + string" where
  "Hybrid_decapsulate cr kp ephemeral_public pqc_ciphertext =
     (case hk_classical_secret kp of
        None \<Rightarrow> Inl (InvalidKeyMaterial ''secret key not available'')
      | Some secret \<Rightarrow>
          if length secret \<noteq> 32 then Inl (InvalidKeyMaterial ''X25519 secret must be 32 bytes'')
          else if length ephemeral_public \<noteq> 32 then Inl (InvalidKeyMaterial ''ephemeral public key must be 32 bytes'')
          else (case MlKem_decapsulate cr (hk_pqc_keypair kp) pqc_ciphertext of
                  Inl err \<Rightarrow> Inl err
                | Inr pqc_shared \<Rightarrow> Inr (combine_secrets (x_diffie_hellman cr secret ephemeral_public) pqc_shared)))"

section \<open>Signatures\<close>

record MlDsaKeyPair =
  md_variant :: MlDsaVariant
  md_public_key :: string
  md_secret_key :: string

record MlDsaSignature =
  ms_signature :: string
  ms_variant :: MlDsaVariant

definition MlDsa_generate :: "'e crates \<Rightarrow> MlDsaVariant \<Rightarrow> 'e \<Rightarrow> ((CryptoError + MlDsaKeyPair) \<times> 'e) option" where
  "MlDsa_generate cr v e =
     (case getrandom cr 32 e of
        None \<Rightarrow> None
      | Some (seed, e') \<Rightarrow>
          Some (Inr \<lparr>md_variant = v, md_public_key = dsa_verifying_key cr v seed, md_secret_key = seed\<rparr>, e'))"

definition MlDsa_generate_with_rng :: "'e crates \<Rightarrow> MlDsaVariant \<Rightarrow> 'r \<Rightarrow> 'e \<Rightarrow> ((CryptoError + MlDsaKeyPair) \<times> 'e) option" where
  "MlDsa_generate_with_rng cr v rng e = MlDsa_generate cr v e"

definition MlDsa_sign :: "'e crates \<Rightarrow> MlDsaKeyPair \<Rightarrow> string \<Rightarrow> CryptoError + MlDsaSignature" where
  "MlDsa_sign cr kp message =
     (if length (md_secret_key kp) \<noteq> 32
      then Inl (Signing (''invalid ML-DSA seed ('' @ show_nat (length (md_secret_key kp)) @ '' bytes, expected 32)''))
      else Inr \<lparr>ms_signature = dsa_sign cr (md_variant kp) (md_secret_key kp) message, ms_variant = md_variant kp\<rparr>)"

definition MlDsa_verify :: "'e crates \<Rightarrow> MlDsaKeyPair \<Rightarrow> string \<Rightarrow> MlDsaSignature \<Rightarrow> CryptoError + bool" where
  "MlDsa_verify cr kp message sig =
     (if ms_variant sig \<noteq> md_variant kp
      then Inl (Verification (''variant mismatch: key is '' @ mldsa_name (md_variant kp) @ '', signature is '' @ mldsa_name (ms_variant sig)))
      else if length (md_public_key kp) \<noteq> dsa_key_size cr (md_variant kp)
      then Inl (Verification (with_size ''invalid verifying key'' (md_public_key kp) []))
      else if \<not> dsa_sig_valid cr (md_variant kp) (ms_signature sig)
      then Inl (Verification (with_size ''invalid signature'' (ms_signature sig) []))
      else Inr (dsa_verify cr (md_variant kp) (md_public_key kp) message (ms_signature sig)))"

record SlhDsaKeyPair =
  sd_variant :: SlhDsaVariant
  sd_public_key :: string
  sd_secret_key :: string

record SlhDsaSignature =
  ss_signature :: string
  ss_variant :: SlhDsaVariant

definition SlhDsa_generate :: "'e crates \<Rightarrow> SlhDsaVariant \<Rightarrow> 'e \<Rightarrow> ((CryptoError + SlhDsaKeyPair) \<times> 'e) option" where
  "SlhDsa_generate cr v e =
     (case slh_generate cr v e of
        None \<Rightarrow> None
      | Some ((sk, vk), e') \<Rightarrow> Some (Inr \<lparr>sd_variant = v, sd_public_key = vk, sd_secret_key = sk\<rparr>, e'))"

definition SlhDsa_generate_with_rng :: "'e crates \<Rightarrow> SlhDsaVariant \<Rightarrow> 'r \<Rightarrow> 'e \<Rightarrow> ((CryptoError + SlhDsaKeyPair) \<times> 'e) option" where
  "SlhDsa_generate_with_rng cr v rng e = SlhDsa_generate cr v e"

definition SlhDsa_sign :: "'e crates \<Rightarrow> SlhDsaKeyPair \<Rightarrow> string \<Rightarrow> 'e \<Rightarrow> ((CryptoError + SlhDsaSignature) \<times> 'e) option" where
  "SlhDsa_sign cr kp message e =
     (if \<not> slh_sk_valid cr (sd_variant kp) (sd_secret_key kp)
      then Some (Inl (Signing (with_size ''invalid SLH-DSA signing key'' (sd_secret_key kp) [])), e)
      else case slh_sign cr (sd_variant kp) (sd_secret_key kp) message e of
             None \<Rightarrow> None
           | Some (Inl err, e') \<Rightarrow> Some (Inl (Signing (''SLH-DSA signing failed: '' @ err)), e')
           | Some (Inr sig, e') \<Rightarrow> Some (Inr \<lparr>ss_signature = sig, ss_variant = sd_variant kp\<rparr>, e'))"

definition SlhDsa_verify :: "'e crates \<Rightarrow> SlhDsaKeyPair \<Rightarrow> string \<Rightarrow> SlhDsaSignature \<Rightarrow> CryptoError + bool" where
  "SlhDsa_verify cr kp message sig =
     (if ss_variant sig \<noteq> sd_variant kp
      then Inl (Verification (''variant mismatch: key is '' @ slhdsa_name (sd_variant kp) @ '', signature is '' @ slhdsa_name (ss_variant sig)))
      else if \<not> slh_vk_valid cr (sd_variant kp) (sd_public_key kp)
      then Inl (Verification (with_size ''invalid SLH-DSA verifying key'' (sd_public_key kp) []))
      else if \<not> slh_sig_valid cr (sd_variant kp) (ss_signature sig)
      then Inl (Verification (with_size ''invalid SLH-DSA signature'' (ss_signature sig) []))
      else Inr (slh_verify cr (sd_variant kp) (sd_public_key kp) message (ss_signature sig)))"

section \<open>What is relied on\<close>

text \<open>
  The source of entropy fills the buffer. X25519 keys have 32 bytes and both sides agree (RFC 7748). ML-KEM
  accepts its own keys and both sides agree (FIPS 203, which allows a failure of a probability below
  \<open>2\<close> to the power of \<open>-138\<close>; the statement is for runs without it).
\<close>

definition rng_ok :: "'e crates \<Rightarrow> bool" where
  "rng_ok cr \<longleftrightarrow> (\<forall>n e b e'. getrandom cr n e = Some (b, e') \<longrightarrow> length b = n)"

definition x25519_ok :: "'e crates \<Rightarrow> bool" where
  "x25519_ok cr \<longleftrightarrow> (\<forall>a b. length a = 32 \<longrightarrow> length b = 32 \<longrightarrow>
     length (x_public cr a) = 32 \<and> x_diffie_hellman cr a (x_public cr b) = x_diffie_hellman cr b (x_public cr a))"

definition kem_ok :: "'e crates \<Rightarrow> bool" where
  "kem_ok cr \<longleftrightarrow> (\<forall>v e dk ek e'. kem_generate cr v e = Some ((dk, ek), e') \<longrightarrow>
     kem_ek_valid cr v ek \<and> kem_dk_valid cr v dk \<and>
     (\<forall>e1 ct ss e2. kem_encapsulate cr v ek e1 = Some ((ct, ss), e2) \<longrightarrow> kem_decapsulate cr v dk ct = Some ss))"

definition dsa_ok :: "'e crates \<Rightarrow> bool" where
  "dsa_ok cr \<longleftrightarrow> (\<forall>v seed m. length seed = 32 \<longrightarrow> length (dsa_verifying_key cr v seed) = dsa_key_size cr v \<and>
     dsa_sig_valid cr v (dsa_sign cr v seed m) \<and> dsa_verify cr v (dsa_verifying_key cr v seed) m (dsa_sign cr v seed m))"

definition slh_ok :: "'e crates \<Rightarrow> bool" where
  "slh_ok cr \<longleftrightarrow> (\<forall>v e sk vk e'. slh_generate cr v e = Some ((sk, vk), e') \<longrightarrow> slh_sk_valid cr v sk \<and> slh_vk_valid cr v vk \<and>
     (\<forall>m e1 sig e2. slh_sign cr v sk m e1 = Some (Inr sig, e2) \<longrightarrow> slh_sig_valid cr v sig \<and> slh_verify cr v vk m sig))"

section \<open>Both sides agree\<close>

lemma length_sha_round [simp]: "length (sha_round st kw) = length st"
  by (cases "(st, kw)" rule: sha_round.cases) (simp_all add: Let_def)

lemma length_sha_rounds [simp]: "length (foldl sha_round st kws) = length st"
  by (induction kws arbitrary: st) simp_all

lemma length_sha_blocks [simp]: "length (foldl sha_block st bs) = length st"
  by (induction bs arbitrary: st) (simp_all add: sha_block_def)

lemma length_sha256: "length (sha256 m) = 32"
proof -
  have "length (concat (map word_be ws)) = 4 * length ws" for ws by (induction ws) (simp_all add: word_be_def)
  moreover have "length sha_init = 8" by (simp add: sha_init_def sha_primes_def)
  ultimately show ?thesis by (simp add: sha256_def)
qed

lemma generate_Inr:
  "MlKem_generate cr v e = Some (res, e') \<Longrightarrow> \<exists>dk ek. kem_generate cr v e = Some ((dk, ek), e') \<and>
     res = Inr \<lparr>mk_variant = v, mk_public_key = ek, mk_secret_key = dk\<rparr>"
  by (auto simp: MlKem_generate_def split: option.splits)

lemma MlKem_decapsulate_Inr:
  "MlKem_decapsulate cr kp ct = Inr ss \<Longrightarrow> kem_decapsulate cr (mk_variant kp) (mk_secret_key kp) ct = Some ss"
  by (auto simp: MlKem_decapsulate_def split: if_splits option.splits)

lemma MlKem_agree:
  assumes "kem_ok cr" "MlKem_generate cr v e = Some (Inr kp, e1)" "MlKem_encapsulate cr kp e2 = Some (res, e3)"
  shows "\<exists>enc. res = Inr enc \<and> MlKem_decapsulate cr kp (me_ciphertext enc) = Inr (me_shared_secret enc)"
proof -
  obtain dk ek where kp: "kem_generate cr v e = Some ((dk, ek), e1)" "kp = \<lparr>mk_variant = v, mk_public_key = ek, mk_secret_key = dk\<rparr>"
    using generate_Inr [OF assms(2)] by auto
  with assms(1) have ok: "kem_ek_valid cr v ek" "kem_dk_valid cr v dk"
    "\<And>e1 ct ss e2. kem_encapsulate cr v ek e1 = Some ((ct, ss), e2) \<Longrightarrow> kem_decapsulate cr v dk ct = Some ss"
    unfolding kem_ok_def by blast+
  obtain ct ss where "kem_encapsulate cr v ek e2 = Some ((ct, ss), e3)" "res = Inr \<lparr>me_ciphertext = ct, me_shared_secret = ss\<rparr>"
    using assms(3) ok(1) by (auto simp: MlKem_encapsulate_def kp(2) split: option.splits)
  then show ?thesis using ok(2,3) by (simp add: MlKem_decapsulate_def kp(2))
qed

text \<open>
  C13. The hybrid key exchange agrees. A generated key pair always encapsulates, unless there is no entropy, and
  whoever holds it gets the shared secret back from the two public parts of the encapsulation. That secret
  is the SHA-256 of the label, the X25519 secret of the recipient's and the ephemeral key, and the secret that
  ML-KEM-768 decapsulates from the ciphertext, in this order; it has 32 bytes. Without the classical secret, or
  with an ephemeral key of another length, decapsulation is refused.
\<close>

theorem hybrid_agree:
  assumes "rng_ok cr" "x25519_ok cr" "kem_ok cr"
    and "Hybrid_generate cr e = Some (gen, e1)" "Hybrid_encapsulate cr (projr gen) e2 = Some (res, e3)"
  shows "\<exists>kp enc. gen = Inr kp \<and> res = Inr enc \<and>
    Hybrid_decapsulate cr kp (he_classical_public enc) (he_pqc_ciphertext enc) = Inr (he_shared_secret enc) \<and>
    (\<exists>dh ss. he_shared_secret enc = sha256 (''quantun-hybrid-kem-v1'' @ dh @ ss) \<and>
       dh = x_diffie_hellman cr (the (hk_classical_secret kp)) (he_classical_public enc) \<and>
       kem_decapsulate cr MlKem768 (mk_secret_key (hk_pqc_keypair kp)) (he_pqc_ciphertext enc) = Some ss) \<and>
    length (he_shared_secret enc) = 32 \<and>
    (length p \<noteq> 32 \<longrightarrow> Hybrid_decapsulate cr kp p ct = Inl (InvalidKeyMaterial ''ephemeral public key must be 32 bytes'')) \<and>
    Hybrid_decapsulate cr (kp\<lparr>hk_classical_secret := None\<rparr>) p ct = Inl (InvalidKeyMaterial ''secret key not available'')"
proof -
  obtain kb e4 where kb: "getrandom cr 32 e = Some (kb, e4)" using assms(4) by (auto simp: Hybrid_generate_def split: option.splits)
  then obtain pq where pq: "MlKem_generate cr MlKem768 e4 = Some (Inr pq, e1)" and
    gen: "gen = Inr \<lparr>hk_variant = X25519MlKem768, hk_classical_public = x_public cr kb, hk_classical_secret = Some kb, hk_pqc_keypair = pq\<rparr>"
    using assms(4) generate_Inr [of cr MlKem768 e4] by (auto simp: Hybrid_generate_def split: option.splits sum.splits prod.splits)
  have len: "length kb = 32" "\<And>b e e'. getrandom cr 32 e = Some (b, e') \<Longrightarrow> length b = 32"
    using assms(1) kb unfolding rng_ok_def by blast+
  have x: "length (x_public cr a) = 32" "x_diffie_hellman cr a (x_public cr b) = x_diffie_hellman cr b (x_public cr a)"
    if "length a = 32" "length b = 32" for a b using assms(2) that unfolding x25519_ok_def by blast+
  obtain eph e5 where eph: "getrandom cr 32 e2 = Some (eph, e5)" using assms(5) by (auto simp: Hybrid_encapsulate_def split: option.splits)
  have pub: "length (x_public cr kb) = 32" "length (x_public cr eph) = 32" using x(1) len eph by blast+
  then obtain r where r: "MlKem_encapsulate cr pq e5 = Some (r, e3)"
    using assms(5) eph by (auto simp: Hybrid_encapsulate_def gen Let_def split: option.splits sum.splits prod.splits)
  then obtain enc where enc: "r = Inr enc" "MlKem_decapsulate cr pq (me_ciphertext enc) = Inr (me_shared_secret enc)"
    using MlKem_agree [OF assms(3) pq] by blast
  have kem: "kem_decapsulate cr MlKem768 (mk_secret_key pq) (me_ciphertext enc) = Some (me_shared_secret enc)"
    using MlKem_decapsulate_Inr [OF enc(2)] generate_Inr [OF pq] by auto
  have "res = Inr \<lparr>he_classical_public = x_public cr eph, he_pqc_ciphertext = me_ciphertext enc,
      he_shared_secret = combine_secrets (x_diffie_hellman cr eph (x_public cr kb)) (me_shared_secret enc)\<rparr>"
    using assms(5) eph r enc(1) pub by (simp add: Hybrid_encapsulate_def gen Let_def)
  moreover have "x_diffie_hellman cr kb (x_public cr eph) = x_diffie_hellman cr eph (x_public cr kb)"
    using x(2) len(1) len(2) [OF eph] by blast
  ultimately show ?thesis
    using enc(2) kem len(1) pub by (simp add: gen Hybrid_decapsulate_def combine_secrets_def length_sha256)
qed

text \<open>
  A key pair of ML-DSA signs every message, and verifies what it signed; a signature of another parameter set is
  an error, whatever its bytes.
\<close>

theorem MlDsa_signs:
  assumes "rng_ok cr" "dsa_ok cr" "MlDsa_generate cr v e = Some (Inr kp, e1)"
  shows "(\<exists>sig. MlDsa_sign cr kp m = Inr sig \<and> MlDsa_verify cr kp m sig = Inr True) \<and>
    (v' \<noteq> v \<longrightarrow> (\<exists>msg. MlDsa_verify cr kp m \<lparr>ms_signature = bytes, ms_variant = v'\<rparr> = Inl (Verification msg)))"
proof -
  obtain seed where seed: "getrandom cr 32 e = Some (seed, e1)"
    "kp = \<lparr>md_variant = v, md_public_key = dsa_verifying_key cr v seed, md_secret_key = seed\<rparr>"
    using assms(3) by (auto simp: MlDsa_generate_def split: option.splits)
  have "length seed = 32" using assms(1) seed(1) unfolding rng_ok_def by blast
  moreover with assms(2) have "length (dsa_verifying_key cr v seed) = dsa_key_size cr v" "dsa_sig_valid cr v (dsa_sign cr v seed m)"
    "dsa_verify cr v (dsa_verifying_key cr v seed) m (dsa_sign cr v seed m)" unfolding dsa_ok_def by blast+
  ultimately show ?thesis by (simp add: seed(2) MlDsa_sign_def MlDsa_verify_def)
qed

text \<open>The same for SLH-DSA, whose signing may fail.\<close>

theorem SlhDsa_signs:
  assumes "slh_ok cr" "SlhDsa_generate cr v e = Some (Inr kp, e1)" "SlhDsa_sign cr kp m e2 = Some (Inr sig, e3)"
  shows "SlhDsa_verify cr kp m sig = Inr True \<and>
    (v' \<noteq> v \<longrightarrow> (\<exists>msg. SlhDsa_verify cr kp m \<lparr>ss_signature = bytes, ss_variant = v'\<rparr> = Inl (Verification msg)))"
proof -
  obtain sk vk where k: "slh_generate cr v e = Some ((sk, vk), e1)" "kp = \<lparr>sd_variant = v, sd_public_key = vk, sd_secret_key = sk\<rparr>"
    using assms(2) by (auto simp: SlhDsa_generate_def split: option.splits)
  with assms(1) have s: "slh_sk_valid cr v sk" "slh_vk_valid cr v vk"
    "\<And>m e1 sig e2. slh_sign cr v sk m e1 = Some (Inr sig, e2) \<Longrightarrow> slh_sig_valid cr v sig \<and> slh_verify cr v vk m sig"
    unfolding slh_ok_def by blast+
  have "slh_sign cr v sk m e2 = Some (Inr (ss_signature sig), e3)" "ss_variant sig = v"
    using assms(3) s(1) by (auto simp: SlhDsa_sign_def k(2) split: option.splits sum.splits)
  then show ?thesis using s(2,3) by (simp add: k(2) SlhDsa_verify_def)
qed

section \<open>Crates that keep the promises\<close>

text \<open>
  Schemes without any security that satisfy the laws: the hypotheses can hold. The source of entropy counts.
\<close>

definition add_bytes :: "string \<Rightarrow> string \<Rightarrow> string" where
  "add_bytes a b = map2 (\<lambda>x y. byte_of ((byte_val x + byte_val y) mod 256)) a b"

definition demo_crates :: "nat crates" where
  "demo_crates =
     \<lparr>getrandom = (\<lambda>n e. Some (replicate n (byte_of (e mod 256)), Suc e)),
      x_public = id, x_diffie_hellman = add_bytes,
      kem_generate = (\<lambda>v e. Some ((replicate 64 (byte_of (e mod 256)), replicate 64 (byte_of (e mod 256))), Suc e)),
      kem_ek_valid = (\<lambda>v k. length k = 64), kem_dk_valid = (\<lambda>v k. length k = 64),
      kem_encapsulate = (\<lambda>v k e. Some (([byte_of (e mod 256)], byte_of (e mod 256) # k), Suc e)),
      kem_decapsulate = (\<lambda>v k ct. if length ct = 1 then Some (ct @ k) else None),
      dsa_verifying_key = (\<lambda>v seed. seed), dsa_key_size = (\<lambda>v. 32), dsa_sign = (\<lambda>v seed m. seed @ m),
      dsa_sig_valid = (\<lambda>v sig. 32 \<le> length sig), dsa_verify = (\<lambda>v k m sig. sig = k @ m),
      slh_generate = (\<lambda>v e. Some ((''sk'', ''sk''), Suc e)), slh_sk_valid = (\<lambda>v k. length k = 2), slh_vk_valid = (\<lambda>v k. length k = 2),
      slh_sig_valid = (\<lambda>v sig. 2 \<le> length sig), slh_sign = (\<lambda>v k m e. Some (Inr (k @ m), Suc e)),
      slh_verify = (\<lambda>v k m sig. sig = k @ m)\<rparr>"

lemma add_bytes_comm: "add_bytes a b = add_bytes b a"
  by (induction a arbitrary: b) (auto simp: add_bytes_def add.commute Cons_eq_map_conv zip_Cons1 split: list.splits)

lemma demo_crates_ok: "rng_ok demo_crates" "x25519_ok demo_crates" "kem_ok demo_crates" "dsa_ok demo_crates" "slh_ok demo_crates"
  by (auto simp: demo_crates_def rng_ok_def x25519_ok_def kem_ok_def dsa_ok_def slh_ok_def add_bytes_comm)

theorem hybrid_agree_witness:
  "\<exists>kp enc. Hybrid_generate demo_crates 1 = Some (Inr kp, 3) \<and> Hybrid_encapsulate demo_crates kp 3 = Some (Inr enc, 5) \<and>
     Hybrid_decapsulate demo_crates kp (he_classical_public enc) (he_pqc_ciphertext enc) = Inr (he_shared_secret enc) \<and>
     (\<exists>dh ss. he_shared_secret enc = sha256 (''quantun-hybrid-kem-v1'' @ dh @ ss))"
proof -
  obtain gen where gen: "Hybrid_generate demo_crates 1 = Some (gen, 3)"
    by (simp add: Hybrid_generate_def MlKem_generate_def demo_crates_def)
  moreover obtain res where "Hybrid_encapsulate demo_crates (projr gen) 3 = Some (res, 5)"
    using gen by (auto simp: Hybrid_generate_def MlKem_generate_def Hybrid_encapsulate_def MlKem_encapsulate_def demo_crates_def Let_def)
  ultimately show ?thesis using hybrid_agree [OF demo_crates_ok(1-3)] by fastforce
qed

end
