(* ===== verification/Detectors.thy ===== *)
theory Detectors
  imports Substrings Schema
begin

text \<open>
  The AI engine, \<open>src/ai-engine/src/qsgw_ai\<close>: the rule-based anomaly detector, the heuristic bot
  detector and the two endpoints that run them on a decoded request with the thresholds of the
  running service. A Python \<open>str\<close> is the list of its code points. A Python \<open>float\<close> is a finite
  binary64 value, with negative zero apart, an infinity or NaN; pydantic lets all of them in.
\<close>

section \<open>Python values\<close>

type_synonym str = "nat list"

definition text_of :: "string \<Rightarrow> str" where
  "text_of s = map of_char s"

datatype py_float = Finite rat | Neg_zero | Infinity | Neg_infinity | NaN

fun py_rank :: "py_float \<Rightarrow> (int \<times> rat) option" where
  "py_rank (Finite x) = Some (0, x)"
| "py_rank Neg_zero = Some (0, 0)"
| "py_rank Infinity = Some (1, 0)"
| "py_rank Neg_infinity = Some (-1, 0)"
| "py_rank NaN = None"

text \<open>The comparison \<open>a > b\<close> is false when one of the two is NaN.\<close>

definition py_gt :: "py_float \<Rightarrow> py_float \<Rightarrow> bool" where
  "py_gt a b \<longleftrightarrow>
     (case (py_rank a, py_rank b) of
        (Some (i, x), Some (j, y)) \<Rightarrow> j < i \<or> j = i \<and> y < x
      | _ \<Rightarrow> False)"

text \<open>
  A product with a small positive integer constant. It is rounded to 53 bits and overflows to an
  infinity; a product of a subnormal number with an integer needs no further rounding.
\<close>

definition py_times :: "py_float \<Rightarrow> int \<Rightarrow> py_float" where
  "py_times a n =
     (case a of
        Finite x \<Rightarrow>
          let y = float64 (x * of_int n) in
          if 2 ^ 1024 \<le> y then Infinity else if y \<le> - (2 ^ 1024) then Neg_infinity else Finite y
      | _ \<Rightarrow> a)"

text \<open>A float literal, and the format \<open>:.0f\<close>: the nearest integer, ties to even, with the sign of the number.\<close>

definition lit :: "rat \<Rightarrow> py_float" where
  "lit x = Finite (float64 x)"

definition format_0f :: "py_float \<Rightarrow> str" where
  "format_0f a = text_of
     (case a of
        Finite x \<Rightarrow> (if x < 0 then ''-'' else []) @ Itoa (round_half_even \<bar>x\<bar>)
      | Neg_zero \<Rightarrow> ''-0'' | Infinity \<Rightarrow> ''inf'' | Neg_infinity \<Rightarrow> ''-inf'' | NaN \<Rightarrow> ''nan'')"

text \<open>
  \<open>str.lower\<close>, as far as a search for ASCII text in its result can tell: A to Z, the Kelvin sign
  and the dotted capital I are the code points with an ASCII letter in their lower case.
\<close>

definition lower :: "str \<Rightarrow> str" where
  "lower s = concat (map (\<lambda>c.
     if 65 \<le> c \<and> c \<le> 90 then [c + 32]
     else if c = 8490 then [107]
     else if c = 304 then [105, 775]
     else [c]) s)"

section \<open>Anomaly detection\<close>

datatype AnomalyType =
  QUANTUM_DOWNGRADE | CIPHER_MANIPULATION | ABNORMAL_HANDSHAKE | TRAFFIC_SPIKE | UNUSUAL_SOURCE

fun AnomalyType_value :: "AnomalyType \<Rightarrow> str" where
  "AnomalyType_value QUANTUM_DOWNGRADE = text_of ''QUANTUM_DOWNGRADE''"
| "AnomalyType_value CIPHER_MANIPULATION = text_of ''CIPHER_MANIPULATION''"
| "AnomalyType_value ABNORMAL_HANDSHAKE = text_of ''ABNORMAL_HANDSHAKE''"
| "AnomalyType_value TRAFFIC_SPIKE = text_of ''TRAFFIC_SPIKE''"
| "AnomalyType_value UNUSUAL_SOURCE = text_of ''UNUSUAL_SOURCE''"

record TrafficSample =
  ts_source_ip :: str
  ts_cipher_suite :: str
  ts_tls_version :: str
  ts_request_rate_rpm :: py_float
  ts_handshake_duration_ms :: py_float
  ts_is_pqc :: bool
  ts_path :: str

record AnomalyResult =
  ar_is_anomaly :: bool
  ar_anomaly_type :: "AnomalyType option"
  ar_severity :: str
  ar_confidence :: py_float
  ar_description :: str

record AnomalyDetector =
  max_request_rate :: py_float
  max_handshake_ms :: py_float
  min_tls_version :: str

definition AnomalyDetector_default :: AnomalyDetector where
  "AnomalyDetector_default =
     \<lparr>max_request_rate = lit 600, max_handshake_ms = lit 5000, min_tls_version = text_of ''1.3''\<rparr>"

definition is_downgrade :: "AnomalyDetector \<Rightarrow> TrafficSample \<Rightarrow> bool" where
  "is_downgrade self sample =
     (let weak_ciphers = map text_of [''RC4'', ''DES'', ''3DES'', ''MD5'', ''SHA1''] in
      if list_ex (\<lambda>c. has_infix (ts_cipher_suite sample) c) weak_ciphers then True
      else if ts_tls_version sample \<in> set (map text_of [''1.0'', ''1.1'']) then True
      else False)"

definition analyze :: "AnomalyDetector \<Rightarrow> TrafficSample \<Rightarrow> AnomalyResult" where
  "analyze self sample =
     (if is_downgrade self sample then
        \<lparr>ar_is_anomaly = True, ar_anomaly_type = Some QUANTUM_DOWNGRADE, ar_severity = text_of ''CRITICAL'',
         ar_confidence = lit (9 / 10),
         ar_description = text_of ''Potential quantum downgrade: '' @ ts_cipher_suite sample @ text_of '' on TLS '' @
           ts_tls_version sample\<rparr>
      else if py_gt (ts_request_rate_rpm sample) (max_request_rate self) then
        let severity = (if py_gt (ts_request_rate_rpm sample) (py_times (max_request_rate self) 3)
                        then text_of ''HIGH'' else text_of ''MEDIUM'') in
        \<lparr>ar_is_anomaly = True, ar_anomaly_type = Some TRAFFIC_SPIKE, ar_severity = severity,
         ar_confidence = lit (85 / 100),
         ar_description = text_of ''Traffic spike: '' @ format_0f (ts_request_rate_rpm sample) @
           text_of '' req/min from '' @ ts_source_ip sample\<rparr>
      else if py_gt (ts_handshake_duration_ms sample) (max_handshake_ms self) then
        \<lparr>ar_is_anomaly = True, ar_anomaly_type = Some ABNORMAL_HANDSHAKE, ar_severity = text_of ''MEDIUM'',
         ar_confidence = lit (7 / 10),
         ar_description = text_of ''Abnormal handshake duration: '' @
           format_0f (ts_handshake_duration_ms sample) @ text_of ''ms''\<rparr>
      else
        \<lparr>ar_is_anomaly = False, ar_anomaly_type = None, ar_severity = text_of ''LOW'',
         ar_confidence = lit 0, ar_description = text_of ''Normal traffic''\<rparr>)"

section \<open>Bot detection\<close>

record RequestFingerprint =
  fp_source_ip :: str
  fp_user_agent :: str
  fp_path :: str
  fp_request_rate_rpm :: py_float
  fp_unique_paths_per_minute :: int
  fp_avg_response_time_ms :: py_float
  fp_has_valid_session :: bool

record BotDetectionResult =
  br_is_bot :: bool
  br_confidence :: py_float
  br_bot_category :: str
  br_description :: str

record BotDetector =
  rate_threshold :: py_float
  path_diversity_threshold :: int
  known_bot_agents :: "str list"

definition BotDetector_init :: "py_float \<Rightarrow> int \<Rightarrow> BotDetector" where
  "BotDetector_init rate paths =
     \<lparr>rate_threshold = rate, path_diversity_threshold = paths,
      known_bot_agents = map text_of [''bot'', ''crawler'', ''spider'', ''scraper'', ''curl'', ''wget'',
        ''python-requests'', ''go-http-client'', ''java/'', ''libwww'']\<rparr>"

definition detect :: "BotDetector \<Rightarrow> RequestFingerprint \<Rightarrow> BotDetectionResult" where
  "detect self fp =
     (let ua_lower = lower (fp_user_agent fp) in
      if list_ex (\<lambda>bot_pattern. has_infix ua_lower bot_pattern) (known_bot_agents self) then
        \<lparr>br_is_bot = True, br_confidence = lit (95 / 100), br_bot_category = text_of ''CRAWLER'',
         br_description = text_of ''Known bot user-agent: '' @ fp_user_agent fp\<rparr>
      else if fp_user_agent fp = [] \<or> length (fp_user_agent fp) < 10 then
        \<lparr>br_is_bot = True, br_confidence = lit (8 / 10), br_bot_category = text_of ''UNKNOWN'',
         br_description = text_of ''Missing or suspiciously short user-agent''\<rparr>
      else if py_gt (fp_request_rate_rpm fp) (rate_threshold self) then
        let category = (if py_gt (fp_request_rate_rpm fp) (py_times (rate_threshold self) 5)
                        then text_of ''ATTACKER'' else text_of ''SCRAPER'') in
        \<lparr>br_is_bot = True, br_confidence = lit (85 / 100), br_bot_category = category,
         br_description = text_of ''High request rate: '' @ format_0f (fp_request_rate_rpm fp) @ text_of '' req/min''\<rparr>
      else if path_diversity_threshold self < fp_unique_paths_per_minute fp then
        \<lparr>br_is_bot = True, br_confidence = lit (75 / 100), br_bot_category = text_of ''SCRAPER'',
         br_description = text_of ''High path diversity: '' @ text_of (Itoa (fp_unique_paths_per_minute fp)) @
           text_of '' unique paths/min''\<rparr>
      else
        \<lparr>br_is_bot = False, br_confidence = lit 0, br_bot_category = text_of ''LEGITIMATE'',
         br_description = text_of ''Traffic appears legitimate''\<rparr>)"

section \<open>The endpoints\<close>

text \<open>The bodies of the requests as pydantic decodes them, and the bodies of the answers.\<close>

record TrafficSampleInput =
  tsi_source_ip :: str
  tsi_cipher_suite :: str
  tsi_tls_version :: str
  tsi_request_rate_rpm :: py_float
  tsi_handshake_duration_ms :: py_float
  tsi_is_pqc :: bool
  tsi_path :: str

record AnomalyResponse =
  as_is_anomaly :: bool
  as_anomaly_type :: "str option"
  as_severity :: str
  as_confidence :: py_float
  as_description :: str

definition analyze_traffic :: "TrafficSampleInput \<Rightarrow> AnomalyResponse" where
  "analyze_traffic req =
     (let sample = \<lparr>ts_source_ip = tsi_source_ip req, ts_cipher_suite = tsi_cipher_suite req,
            ts_tls_version = tsi_tls_version req, ts_request_rate_rpm = tsi_request_rate_rpm req,
            ts_handshake_duration_ms = tsi_handshake_duration_ms req, ts_is_pqc = tsi_is_pqc req,
            ts_path = tsi_path req\<rparr>;
          result = analyze AnomalyDetector_default sample in
      \<lparr>as_is_anomaly = ar_is_anomaly result, as_anomaly_type = map_option AnomalyType_value (ar_anomaly_type result),
       as_severity = ar_severity result, as_confidence = ar_confidence result, as_description = ar_description result\<rparr>)"

record BotFingerprintInput =
  bfi_source_ip :: str
  bfi_user_agent :: str
  bfi_path :: str
  bfi_request_rate_rpm :: py_float
  bfi_unique_paths_per_minute :: int
  bfi_avg_response_time_ms :: py_float
  bfi_has_valid_session :: bool

record BotResponse =
  bs_is_bot :: bool
  bs_confidence :: py_float
  bs_bot_category :: str
  bs_description :: str

definition BotDetector_default :: BotDetector where
  "BotDetector_default = BotDetector_init (lit 300) 50"

definition detect_bot :: "BotFingerprintInput \<Rightarrow> BotResponse" where
  "detect_bot req =
     (let fp = \<lparr>fp_source_ip = bfi_source_ip req, fp_user_agent = bfi_user_agent req, fp_path = bfi_path req,
            fp_request_rate_rpm = bfi_request_rate_rpm req, fp_unique_paths_per_minute = bfi_unique_paths_per_minute req,
            fp_avg_response_time_ms = bfi_avg_response_time_ms req, fp_has_valid_session = bfi_has_valid_session req\<rparr>;
          result = detect BotDetector_default fp in
      \<lparr>bs_is_bot = br_is_bot result, bs_confidence = br_confidence result, bs_bot_category = br_bot_category result,
       bs_description = br_description result\<rparr>)"

section \<open>Thresholds\<close>

lemma lit_int: "0 \<le> n \<Longrightarrow> n < 2 ^ 53 \<Longrightarrow> lit (of_int n) = Finite (of_int n)"
  by (simp add: lit_def float64_of_int)

lemma times_int:
  assumes "0 \<le> n * k" "n * k < 2 ^ 53"
  shows "py_times (Finite (of_int n)) k = Finite (of_int (n * k))"
proof -
  have "float64 (of_int n * of_int k) = of_int (n * k)" using float64_of_int [OF assms] by simp
  moreover have "(of_int (n * k) :: rat) < 2 ^ 53" using assms(2) by (metis of_int_less_iff of_int_numeral of_int_power)
  moreover have "(2 :: rat) ^ 53 < 2 ^ 1024" "(0 :: rat) < 2 ^ 1024" by simp_all
  moreover have "(0 :: rat) \<le> of_int (n * k)" using assms(1) by (simp only: of_int_0_le_iff)
  ultimately show ?thesis by (simp only: py_times_def py_float.case Let_def) (simp del: of_int_mult; linarith)
qed

lemma default_thresholds:
  "max_request_rate AnomalyDetector_default = Finite 600"
  "max_handshake_ms AnomalyDetector_default = Finite 5000"
  "py_times (Finite 600) 3 = Finite 1800"
  "rate_threshold BotDetector_default = Finite 300" "path_diversity_threshold BotDetector_default = 50"
  "py_times (Finite 300) 5 = Finite 1500"
  using lit_int [of 600] lit_int [of 5000] lit_int [of 300] times_int [of 600 3] times_int [of 300 5]
  by (simp_all add: AnomalyDetector_default_def BotDetector_default_def BotDetector_init_def)

lemma py_gt_trans: "py_gt a b \<Longrightarrow> py_gt b c \<Longrightarrow> py_gt a c"
  by (auto simp: py_gt_def split: option.splits)

lemma py_gt_finite [simp]: "py_gt (Finite x) (Finite y) \<longleftrightarrow> y < x" "\<not> py_gt NaN t" "\<not> py_gt t NaN"
  by (auto simp: py_gt_def split: option.splits)

lemma text_of_eq [simp]: "text_of s = text_of t \<longleftrightarrow> s = t"
  by (simp add: text_of_def inj_map_eq_map inj_def)

lemma infix_3DES: "has_infix s (text_of ''3DES'') \<Longrightarrow> has_infix s (text_of ''DES'')"
proof (rule has_infix_trans)
  show "has_infix (text_of ''3DES'') (text_of ''DES'')" by (simp add: text_of_def starts_with_def)
qed

text \<open>The sessions that count as downgraded: weak names anywhere in the suite, or an old version.\<close>

definition weak_session :: "str \<Rightarrow> str \<Rightarrow> bool" where
  "weak_session suite version \<longleftrightarrow>
     (\<exists>w u v. w \<in> {''RC4'', ''DES'', ''MD5'', ''SHA1''} \<and> suite = u @ text_of w @ v) \<or>
     version \<in> {text_of ''1.0'', text_of ''1.1''}"

lemma is_downgrade_iff: "is_downgrade d s \<longleftrightarrow> weak_session (ts_cipher_suite s) (ts_tls_version s)"
proof -
  have "(\<exists>w u v. w \<in> S \<and> t = u @ text_of w @ v) \<longleftrightarrow> (\<exists>w\<in>S. has_infix t (text_of w))" for S t
    unfolding has_infix_iff by blast
  moreover have "is_downgrade d s \<longleftrightarrow>
      (\<exists>w\<in>{''RC4'', ''DES'', ''MD5'', ''SHA1''}. has_infix (ts_cipher_suite s) (text_of w)) \<or>
      ts_tls_version s \<in> {text_of ''1.0'', text_of ''1.1''}"
    using infix_3DES [of "ts_cipher_suite s"] by (auto simp: is_downgrade_def Let_def)
  ultimately show ?thesis by (simp only: weak_session_def)
qed

text \<open>
  C34. The traffic endpoint rates a sample by the thresholds of the table in \<open>docs/ARCHITECTURE.md\<close> (the
  README and \<open>docs/THREAT_DETECTION.md\<close> give others, which the code does not have), for every rate and
  duration a client can send, infinities and NaN included: critical when the name of the cipher suite
  has RC4, DES, MD5 or SHA1 in it, in this spelling, or the version is 1.0 or 1.1; otherwise high above
  1800 requests a minute, medium above 600 or above a handshake of 5 seconds, else low. Exactly what is
  not low is an anomaly, the type names the first rule that holds, and no other type is ever answered.
  The severity is always a label of the severities of the database.
\<close>

theorem analyze_traffic_outcome:
  "let a = analyze_traffic req;
       weak = weak_session (tsi_cipher_suite req) (tsi_tls_version req);
       above = py_gt (tsi_request_rate_rpm req);
       slow = py_gt (tsi_handshake_duration_ms req) (Finite 5000);
       severity = (if weak then ''CRITICAL'' else if above (Finite 1800) then ''HIGH''
                   else if above (Finite 600) \<or> slow then ''MEDIUM'' else ''LOW'') in
   as_severity a = text_of severity \<and> severity \<in> set threat_severity \<and>
   (as_is_anomaly a \<longleftrightarrow> severity \<noteq> ''LOW'') \<and>
   as_anomaly_type a =
     (if weak then Some (text_of ''QUANTUM_DOWNGRADE'')
      else if above (Finite 600) then Some (text_of ''TRAFFIC_SPIKE'')
      else if slow then Some (text_of ''ABNORMAL_HANDSHAKE'') else None)"
proof -
  have "py_gt x (Finite 600)" if "py_gt x (Finite 1800)" for x using py_gt_trans [OF that] by simp
  then show ?thesis
    by (simp add: analyze_traffic_def analyze_def is_downgrade_iff default_thresholds threat_severity_def Let_def)
qed

section \<open>More traffic is never less suspicious\<close>










text \<open>
  Of the detector's types only the quantum downgrade is a label of the database's threat types, so an
  event of any other type cannot be stored under its own name.
\<close>

theorem anomaly_types_in_schema:
  "AnomalyType_value t \<in> text_of ` set threat_type \<longleftrightarrow> t = QUANTUM_DOWNGRADE"
  by (cases t) (auto simp: threat_type_def image_iff)

end
