(* ===== verification/Spec2Isabelle.thy ===== *)
theory Spec2Isabelle
  imports Prelude Go_Strings Base64url Sha256 Json Go_Time Http Auth Ratelimit Ratelimit_Late Pagination Security
    Config Pool Model Repository Service Handler Schema Uuid Api Inventory Upstreams Threats Columns Router Server
    Dispatch Interleave Steps Faults Concurrent Linearize Substrings Algorithms Tls_Config Data_Plane Proxy Crypto
    Detectors
begin

text \<open>
  Verification of QSGW, the quantum-safe gateway: the control plane, written in Go under
  \<open>src/control-plane\<close> and \<open>src/shared/go\<close>, the data plane with its cryptography and TLS settings, in Rust under
  \<open>src/gateway\<close>, \<open>src/crypto\<close>, \<open>src/tls\<close> and \<open>src/types\<close>, and the AI engine, in Python under \<open>src/ai-engine\<close>.

  \<^bold>\<open>The program.\<close> The control plane is an HTTP server. \<open>main\<close> reads its configuration from the
  environment, opens a pool of database connections and builds a tree of routers. A request passes
  the router's own middleware, the security headers, the body limit, CORS, the rate limiter and, under
  \<open>/api/v1\<close>, authentication; then a handler decodes and checks it, calls a service, which fills in
  defaults and calls a repository, which runs SQL statements through pgx. The handler answers in JSON.
  The data plane is a library: a router that admits requests by the TLS policy, and a proxy that picks a
  route for a path and forwards the request. Its crates hold the tables of the post-quantum algorithms,
  key exchange and signatures. The AI engine rates samples of traffic and fingerprints of clients. The three
  programs do not call each other; what they share are the labels of the database.

  \<^bold>\<open>Theories.\<close>
  \<^item> \<open>Prelude\<close>: 64-bit integers, instants and durations, and the interfaces \<open>codec\<close> and
    \<open>run_invariant\<close>. \<open>Go_Strings\<close>, \<open>Base64url\<close>, \<open>Sha256\<close>, \<open>Json\<close>, \<open>Go_Time\<close>: what the program uses of
    the standard library (strings, numbers, UTF-8, base64url, SHA-256 and HMAC, encoding and decoding of
    JSON, RFC 3339 times). Strings are lists of bytes.
  \<^item> \<open>Http\<close>: requests, headers, query strings, response writers and contexts; a handler is a function
    on the state of the program and the response writer; the interface \<open>middleware\<close> gives a gate, which
    answers or hands on, and its rules are proved once for every middleware.
  \<^item> \<open>Auth\<close>: \<open>shared/go/middleware/auth.go\<close> and \<open>helpers.go\<close>. Who gets past \<open>Auth\<close> and \<open>RequireRole\<close>, when
    exactly a token is valid, that created tokens are valid, which API key counts.
  \<^item> \<open>Ratelimit\<close>: \<open>ratelimit.go\<close>. The bound on admitted requests per window and that it is attained, the
    bound on the table, what \<open>Retry-After\<close> promises, clean-up and shutdown, as a step relation of
    requests, ticks, \<open>Stop\<close> and the end of the goroutine. The counting argument is the locale
    \<open>window_counter\<close>, interpreted for times in order. \<open>Ratelimit_Late\<close>: requests and clean-ups read the clock
    before they take the lock; the second interpretation gives the bound for times that are out of order
    by at most one window, and a run that reaches it.
  \<^item> \<open>Security\<close>, \<open>Pagination\<close>: \<open>security.go\<close> and \<open>pagination.go\<close>. Security headers, CORS, the body limit,
    the bounds of a page.
  \<^item> \<open>Config\<close>, \<open>Pool\<close>: \<open>internal/config/config.go\<close> and \<open>shared/go/database/pool.go\<close>. When loading fails,
    the keys that come out of it, and that no pool leaks.
  \<^item> \<open>Model\<close>, \<open>Repository\<close>, \<open>Service\<close>, \<open>Handler\<close>: the packages of these names under \<open>internal\<close>, one
    definition per method. The driver and the UUID package are the fields of the record \<open>pkgs\<close>, an
    argument of the definitions. The laws of a store of entities are the locales \<open>entity_store\<close> and
    \<open>status_store\<close>.
  \<^item> \<open>Schema\<close>: the tables of \<open>db/migrations/000001_init_schema.up.sql\<close> with their types, keys, foreign keys
    and triggers, as an executable database for the statements of the repositories. Rows of equal times come in
    one of the orders that PostgreSQL may choose. A row of \<open>upstreams\<close> can have NULL for its health-check path,
    which the Go struct cannot hold. The database instantiates the driver; the stores are interpreted on the repositories over it. \<open>Uuid\<close> instantiates the UUID package.
  \<^item> \<open>Api\<close>: the handlers over that database. Round trips, error answers, pages, and the integrity of
    the data after every sequence of calls.
  \<^item> \<open>Inventory\<close>: the service of the gateways as an abstract inventory, an inductive relation between
    calls, replies and maps, and the proof that the service on that database refines it (the locale
    \<open>refinement\<close> of \<open>Prelude\<close>). \<open>Upstreams\<close> and \<open>Threats\<close>: upstreams with their health checks and their list, also
    with unreadable rows, and the list of a gateway's threat events. \<open>Columns\<close>: every stored value has the type
    of its column, and which rows fit the variables they are scanned into.
  \<^item> \<open>Router\<close>: trees of routers, the contract of chi and a small router that keeps it. \<open>Server\<close>:
    \<open>cmd/server/main.go\<close> and the routing tables of the handlers. Nothing unauthenticated reaches the
    API, every answer has the security headers, the process gives back its resources. \<open>Dispatch\<close>: every
    endpoint of the API is reached through the whole chain of middleware and routers, by an
    authenticated request with its identity, parameters and body, and without authentication when no
    secret and no keys are configured.
  \<^item> \<open>Interleave\<close>: programs of atomic steps on a shared state, threads and schedules, and what can be
    proved of all interleavings: the locale \<open>interleaving\<close> for invariants, answers after a number of own
    steps, the locale \<open>answering\<close> for what every answer is, the locale \<open>linearizable\<close> for calls that take effect at one moment. \<open>Steps\<close>: the repositories,
    services, handlers and middleware once more as such programs; their steps are the reads of the clock
    and of new UUIDs, the critical section of the limiter and the single SQL statements. \<open>Concurrent\<close>: a
    request that is alone does what its handler does, every request that gets its turns is answered once, with a
    complete response and never past the authentication it lacks, and all interleavings keep the data and the limiter consistent. \<open>Linearize\<close>: concurrent calls of the gateways' service are a
    run of the inventory, except that the total of a list can be behind its page.

  \<^item> \<open>Faults\<close>: the contract of a database driver that may fail at any statement, the locale \<open>flaky_driver\<close>, and
    what a request does over it: it does what it would do over a database that never fails, or answers with
    an error. Interpreted for the database of \<open>Schema\<close> and for one that loses its connection before or after
    a statement takes effect; \<open>Concurrent\<close> holds for every such driver.
  \<^item> \<open>Substrings\<close>, \<open>Algorithms\<close>, \<open>Tls_Config\<close>: prefixes and substrings; \<open>types/src/algorithm.rs\<close> and \<open>error_code.rs\<close>;
    \<open>tls/src/config.rs\<close> and \<open>gateway/src/tls/mod.rs\<close>, with the outcome of every policy. \<open>Data_Plane\<close>: \<open>gateway/src/lib.rs\<close>
    and the middleware, with the answers of the router under every policy. \<open>Proxy\<close>: \<open>gateway/src/proxy/mod.rs\<close>, with the
    route that is chosen, the address it leads to and the request that is sent.
  \<^item> \<open>Crypto\<close>: \<open>crypto/src\<close>. Both sides of the hybrid key exchange get the same secret, the hash of the X25519 and the
    ML-KEM secret; the wrappers of the signature crates verify what they sign.
  \<^item> \<open>Detectors\<close>: \<open>ai-engine/src/qsgw_ai\<close>. The rating of every sample, and that more traffic never looks less
    suspicious.

  \<^bold>\<open>State.\<close> The record \<open>env\<close> holds what a request reads from outside: the clock and the stream of new
  UUIDs, as functions of the number of reads. \<open>rl_env\<close> adds the rate limiter and \<open>app\<close> the database. The
  state is passed through every handler. Each operation under the limiter's mutex and each SQL
  statement is one step; between the steps of one request those of others may run.

  \<^bold>\<open>Bounds.\<close> No definition uses fuel: every loop of the program is structural recursion over a list, or
  recursion over the rest of an input with a measure. Go's \<open>int\<close> is a HOL integer; wrap-around is
  written out where the code can overflow (durations of the limiter, the times of tokens), and
  numbers from outside are parsed with the range check of 64 bits.

  \<^bold>\<open>What is relied on.\<close> The router chi: it runs middleware in order and picks an endpoint of the
  request's method or a mounted router (\<open>chi_serves\<close>), the one whose pattern alone matches the path
  (\<open>chi_routes\<close>), and its own middleware hands requests on (\<open>transparent\<close>) with the program's context
  values, whose keys have a type that no other package can name, and with a remote address that \<open>RealIP\<close> may
  have replaced (\<open>seen_addr\<close>); a small router, \<open>simple_chi\<close>, keeps this contract. Package pgxpool counts its pools
  (\<open>pool_counts\<close>), net/http touches neither pools nor \<open>Stop\<close> (\<open>net_ok\<close>). A UUID is read back from its text
  (\<open>codec\<close>). A statement that succeeds did what the database does, one that fails did that or nothing
  (\<open>flaky_driver\<close>). The router axum sends every request through its layer and the admitted ones to the route of their path
  (\<open>axum_serves\<close>, kept by \<open>simple_axum\<close>), and the URI parser of crate http takes the digits up to the first slash for
  the port and refuses what is longer than 65534 bytes (\<open>parses_uris\<close>, kept by \<open>simple_parse\<close>). The HTTP client of the
  proxy is a function on a state of the network, in which every send shows. Of the cryptographic crates, what the standards promise: 32 random bytes (\<open>rng_ok\<close>), the
  agreement of X25519 (\<open>x25519_ok\<close>), that decapsulation inverts encapsulation (\<open>kem_ok\<close>) and that generated
  keys and their signatures are accepted (\<open>dsa_ok\<close>, \<open>slh_ok\<close>); \<open>demo_crates\<close> keeps all of it.

  \<^bold>\<open>Not modelled.\<close> Log lines; panics and their recovery; timeouts and cancelled contexts, except as statements that fail; the waiting
  for a lock or a connection (a thread that waits has no step); steps of chi's own middleware and of routing
  between the steps of a concurrent request, which touch nothing shared; escaped paths (\<open>RawPath\<close>), which chi routes
  on when a request has one; the interface
  values and constructors that only hold a pool or a logger. Of the schema, the tables that no Go
  code uses. Of the Rust crates, the algorithms behind them, the adapter of the random number generator, zeroing
  of memory, serialization and the asynchronous runtime. Of the AI engine, FastAPI and pydantic, which decode and
  encode the bodies. The user interfaces in TypeScript and the deployment files.
\<close>

end
